(* ===== verification/JsPrelude.thy ===== *)
theory JsPrelude
  imports Main "HOL-Library.AList" "HOL-Library.Sublist"
begin

text \<open>
  The JavaScript vocabulary the components share.

  Strings are lists of 8-bit characters: a JavaScript string is represented by the bytes of
  its UTF-8 form, so that \<^verbatim>\<open>Buffer.from(s, 'utf8')\<close> and
  \<^verbatim>\<open>buffer.toString('utf8')\<close> are the identity and a \<^verbatim>\<open>Buffer\<close> has the same type as a
  string.  Lengths and slices count bytes where the program slices ASCII (markers, base64,
  hexadecimal), and UTF-16 units (\<open>utf16_take\<close>) where it cuts user text.

  Numbers are exact rationals, the two infinities and NaN; the rounding of a literal to the
  53-bit grid of IEEE doubles is not modelled (every number the program compares is an
  integer far below \<open>2 ^ 53\<close>), the overflow of a literal to an infinity is.

  A \<^verbatim>\<open>Map\<close> is an association list in insertion order: \<^verbatim>\<open>set\<close> replaces a value in place or
  appends, \<^verbatim>\<open>delete\<close> removes, iteration follows the list.

  The locales \<open>lookup_table\<close> and \<open>group_registry\<close> state what the components rely on when they
  keep a value per key, and the get-or-create accessor that six of them share.
\<close>

named_theorems map_simps
  \<open>rewriting of lookups in insertion-ordered maps\<close>
named_theorems wire_simps
  \<open>rewriting of markers, slices and codecs\<close>
named_theorems step_defs
  \<open>definitions of the operations of a component\<close>

section \<open>Insertion-ordered maps\<close>

type_synonym ('k, 'v) jsmap = "('k \<times> 'v) list"

definition map_get :: "('k, 'v) jsmap \<Rightarrow> 'k \<Rightarrow> 'v option" where
  "map_get m k = map_of m k"

definition map_has :: "('k, 'v) jsmap \<Rightarrow> 'k \<Rightarrow> bool" where
  "map_has m k = (map_of m k \<noteq> None)"

definition map_set :: "('k, 'v) jsmap \<Rightarrow> 'k \<Rightarrow> 'v \<Rightarrow> ('k, 'v) jsmap" where
  "map_set m k v = AList.update k v m"

definition map_del :: "('k, 'v) jsmap \<Rightarrow> 'k \<Rightarrow> ('k, 'v) jsmap" where
  "map_del m k = AList.delete k m"

definition map_keys :: "('k, 'v) jsmap \<Rightarrow> 'k list" where
  "map_keys m = map fst m"

definition map_wf :: "('k, 'v) jsmap \<Rightarrow> bool" where
  "map_wf m = distinct (map fst m)"

lemma map_get_Nil [map_simps, simp]: "map_get [] k = None"
  by (simp add: map_get_def)

lemma map_get_set [map_simps, simp]:
  "map_get (map_set m k v) k' = (if k' = k then Some v else map_get m k')"
  by (simp add: map_get_def map_set_def update_conv')

lemma map_get_del [map_simps, simp]:
  "map_get (map_del m k) k' = (if k' = k then None else map_get m k')"
  by (simp add: map_get_def map_del_def delete_conv')

lemma map_has_get [map_simps]: "map_has m k = (map_get m k \<noteq> None)"
  by (simp add: map_has_def map_get_def)

lemma map_has_keys: "map_has m k \<longleftrightarrow> k \<in> set (map_keys m)"
  by (simp add: map_has_def map_keys_def map_of_eq_None_iff)

lemma map_keys_Nil [simp]: "map_keys [] = []"
  by (simp add: map_keys_def)

lemma map_wf_Nil [simp]: "map_wf []"
  by (simp add: map_wf_def)

lemma map_wf_set [simp]: "map_wf m \<Longrightarrow> map_wf (map_set m k v)"
  by (simp add: map_wf_def map_set_def distinct_update)

lemma map_wf_del [simp]: "map_wf m \<Longrightarrow> map_wf (map_del m k)"
  unfolding map_wf_def map_del_def by (rule distinct_delete)

lemma set_map_keys_set [simp]: "set (map_keys (map_set m k v)) = insert k (set (map_keys m))"
  unfolding map_keys_def map_set_def by (simp add: dom_update)

lemma set_map_keys_del [simp]: "set (map_keys (map_del m k)) = set (map_keys m) - {k}"
  unfolding map_keys_def map_del_def by (simp add: delete_keys)

lemma length_map_set:
  "length (map_set m k v) = (if map_has m k then length m else Suc (length m))"
  unfolding map_set_def map_has_def
  by (induction m) (auto split: if_splits)

lemma length_map_del_le: "length (map_del m k) \<le> length m"
  by (simp add: map_del_def AList.delete_eq)

lemma map_get_in_set: "map_get m k = Some v \<Longrightarrow> (k, v) \<in> set m"
  by (simp add: map_get_def map_of_SomeD)

lemma in_set_map_get: "map_wf m \<Longrightarrow> (k, v) \<in> set m \<Longrightarrow> map_get m k = Some v"
  by (simp add: map_get_def map_wf_def)

lemma map_set_entries: "kv \<in> set (map_set m k v) \<Longrightarrow> kv \<in> set m \<or> kv = (k, v)"
  unfolding map_set_def by (induction m) (auto split: if_splits)

lemma map_del_entries: "kv \<in> set (map_del m k) \<Longrightarrow> kv \<in> set m"
  by (auto simp: map_del_def AList.delete_eq)

section \<open>Interfaces: keyed tables and per-group registries\<close>

text \<open>What a component relies on when it keeps values under keys.\<close>

locale lookup_table =
  fixes emp :: "'m"
    and get :: "'m \<Rightarrow> 'k \<Rightarrow> 'v option"
    and put :: "'m \<Rightarrow> 'k \<Rightarrow> 'v \<Rightarrow> 'm"
  assumes get_emp: "get emp k = None"
    and get_put: "get (put m k v) k' = (if k' = k then Some v else get m k')"
begin

lemma put_put_get: "get (put (put m k v) k w) k' = get (put m k w) k'"
  by (simp add: get_put)

lemma put_commute_get:
  "k \<noteq> l \<Longrightarrow> get (put (put m k v) l w) k' = get (put (put m l w) k v) k'"
  by (simp add: get_put)

end

text \<open>
  The accessor \<^verbatim>\<open>runtimeFor\<close>, \<^verbatim>\<open>catchUpOf\<close>, \<^verbatim>\<open>joinOf\<close>, \<^verbatim>\<open>topicsOf\<close>, \<^verbatim>\<open>pseudonymsOf\<close> and
  \<^verbatim>\<open>receivedIn\<close> share: return the group's entry, storing a fresh one first when there is none.
\<close>

locale group_registry = lookup_table emp get put
  for emp :: "'m" and get :: "'m \<Rightarrow> 'k \<Rightarrow> 'v option" and put :: "'m \<Rightarrow> 'k \<Rightarrow> 'v \<Rightarrow> 'm" +
  fixes fresh :: "'v"
    and entry_of :: "'m \<Rightarrow> 'k \<Rightarrow> 'v \<times> 'm"
  assumes entry_of: "entry_of m k =
    (case get m k of Some v \<Rightarrow> (v, m) | None \<Rightarrow> (fresh, put m k fresh))"
begin

lemma entry_stored: "get (snd (entry_of m k)) k = Some (fst (entry_of m k))"
  by (simp add: entry_of get_put split: option.split)

lemma entry_frame: "k' \<noteq> k \<Longrightarrow> get (snd (entry_of m k)) k' = get m k'"
  by (simp add: entry_of get_put split: option.split)

lemma entry_known: "get m k = Some v \<Longrightarrow> entry_of m k = (v, m)"
  by (simp add: entry_of)

lemma entry_idem: "snd (entry_of (snd (entry_of m k)) k) = snd (entry_of m k)"
  by (simp add: entry_of get_put split: option.split)

end

interpretation jmap: lookup_table "[]" "map_get" "map_set"
  by unfold_locales simp_all

definition map_entry :: "'v \<Rightarrow> ('k, 'v) jsmap \<Rightarrow> 'k \<Rightarrow> 'v \<times> ('k, 'v) jsmap" where
  "map_entry fresh m k =
     (case map_get m k of Some v \<Rightarrow> (v, m) | None \<Rightarrow> (fresh, map_set m k fresh))"

interpretation jreg: group_registry "[]" "map_get" "map_set" fresh "map_entry fresh"
  for fresh
  by unfold_locales (simp add: map_entry_def)

end
