(* ===== verification/JsText.thy ===== *)
theory JsText
  imports Complex_Main JsPrelude
begin

text \<open>
  JavaScript's string methods and number syntax, as far as the program uses them:
  \<^verbatim>\<open>startsWith\<close>, \<^verbatim>\<open>slice\<close>, \<^verbatim>\<open>indexOf\<close>, \<^verbatim>\<open>includes\<close>, \<^verbatim>\<open>trim\<close>, \<^verbatim>\<open>toLowerCase\<close>,
  \<^verbatim>\<open>replaceAll('-', '')\<close>, the text of an integer, and \<^verbatim>\<open>Number(s)\<close>.
  The main facts: a number's decimal text reads back as the number (\<open>js_Number_show_int\<close>),
  and stripping dashes and lowering case is idempotent and dash free.
\<close>

section \<open>Strings\<close>

definition code_of :: "char \<Rightarrow> nat" where
  "code_of c = of_char c"

lemma code_of_lt [simp]: "code_of c < 256"
  by (simp add: code_of_def)

lemma code_of_char_of [simp]: "n < 256 \<Longrightarrow> code_of (char_of n) = n"
  by (simp add: code_of_def)

lemma char_of_code_of [simp]: "char_of (code_of c) = c"
  by (simp add: code_of_def)

lemma code_of_inj: "code_of c = code_of d \<longleftrightarrow> c = d"
  by (metis char_of_code_of)

definition starts_with :: "string \<Rightarrow> string \<Rightarrow> bool" where
  "starts_with s p = (take (length p) s = p)"

lemma starts_with_append [wire_simps, simp]: "starts_with (p @ s) p"
  by (simp add: starts_with_def)

lemma starts_with_eq: "starts_with s p \<longleftrightarrow> s = p @ drop (length p) s"
  by (metis append_take_drop_id starts_with_def take_all_iff append_eq_conv_conj)

lemma starts_with_append_iff:
  "length q = length p \<Longrightarrow> starts_with (p @ s) q \<longleftrightarrow> p = q"
  by (auto simp: starts_with_def)

text \<open>\<^verbatim>\<open>s.slice(a, b)\<close> for \<open>0 \<le> a\<close>, \<open>0 \<le> b\<close>.\<close>

definition slice :: "nat \<Rightarrow> nat \<Rightarrow> string \<Rightarrow> string" where
  "slice a b s = take (b - a) (drop a s)"

text \<open>
  \<^verbatim>\<open>s.slice(0, n)\<close> for text that may leave ASCII: JavaScript counts UTF-16 units, so a
  leading byte counts one unit (two from F0 on) and a continuation byte none.  A character
  whose second unit falls beyond the cut becomes U+FFFD, which is how its lone surrogate is
  written as UTF-8.
\<close>

definition utf16_units :: "char \<Rightarrow> nat" where
  "utf16_units c = (if 128 \<le> code_of c \<and> code_of c < 192 then 0 else if 240 \<le> code_of c then 2 else 1)"

definition utf16_length :: "string \<Rightarrow> nat" where
  "utf16_length s = sum_list (map utf16_units s)"

fun utf16_take :: "nat \<Rightarrow> string \<Rightarrow> string" where
  "utf16_take n [] = []"
| "utf16_take n (c # s) =
     (if utf16_units c \<le> n then c # utf16_take (n - utf16_units c) s
      else if n = 1 then [char_of (239::nat), char_of (191::nat), char_of (189::nat)] else [])"

lemma utf16_length_simps [simp]:
  "utf16_length [] = 0" "utf16_length (c # s) = utf16_units c + utf16_length s"
  by (simp_all add: utf16_length_def)

lemma utf16_take_all: "utf16_length s \<le> n \<Longrightarrow> utf16_take n s = s"
  by (induction s arbitrary: n) auto

lemma utf16_replacement:
  "utf16_length [char_of (239::nat), char_of (191::nat), char_of (189::nat)] = 1"
  by (simp add: utf16_units_def)

lemma utf16_length_take: "utf16_length (utf16_take n s) \<le> n"
proof (induction n s rule: utf16_take.induct)
  case (2 n c s)
  then show ?case
    using utf16_replacement by (cases "utf16_units c \<le> n") (simp_all del: utf16_length_simps(2), simp)
qed simp

text \<open>\<^verbatim>\<open>s.indexOf(c)\<close> for one character; \<open>None\<close> is -1.\<close>

fun index_of :: "string \<Rightarrow> char \<Rightarrow> nat option" where
  "index_of [] c = None"
| "index_of (x # xs) c = (if x = c then Some 0 else map_option Suc (index_of xs c))"

lemma index_of_None: "index_of s c = None \<longleftrightarrow> c \<notin> set s"
  by (induction s) auto

lemma index_of_append: "c \<notin> set s \<Longrightarrow> index_of (s @ c # t) c = Some (length s)"
  by (induction s) auto

fun str_includes :: "string \<Rightarrow> string \<Rightarrow> bool" where
  "str_includes [] p = (p = [])"
| "str_includes (x # xs) p = (starts_with (x # xs) p \<or> str_includes xs p)"

lemma str_includes_iff: "str_includes s p \<longleftrightarrow> (\<exists>a b. s = a @ p @ b)"
proof (induction s)
  case Nil
  then show ?case by simp
next
  case (Cons x xs)
  have "str_includes (x # xs) p \<longleftrightarrow> (\<exists>b. x # xs = p @ b) \<or> (\<exists>a b. xs = a @ p @ b)"
    using Cons.IH by (metis append_eq_conv_conj str_includes.simps(2) starts_with_def starts_with_eq)
  also have "\<dots> \<longleftrightarrow> (\<exists>a b. x # xs = a @ p @ b)"
    by (metis append_Cons append_Nil neq_Nil_conv list.inject)
  finally show ?case .
qed

text \<open>White space of \<^verbatim>\<open>trim\<close> and of \<^verbatim>\<open>Number\<close>, restricted to its ASCII part.\<close>

definition is_space :: "char \<Rightarrow> bool" where
  "is_space c = (code_of c \<in> {9, 10, 11, 12, 13, 32})"

definition trim :: "string \<Rightarrow> string" where
  "trim s = rev (dropWhile is_space (rev (dropWhile is_space s)))"

lemma trim_idem [simp]: "trim (trim s) = trim s"
proof -
  have *: "dropWhile is_space (rev (dropWhile is_space (rev t))) = rev (dropWhile is_space (rev t))"
    if "t = dropWhile is_space t" for t
  proof (cases "rev (dropWhile is_space (rev t))")
    case (Cons a u)
    then obtain v where "t = a # u @ v"
      by (metis append_Cons rev_append rev_rev_ident takeWhile_dropWhile_id)
    with that have "\<not> is_space a"
      by (metis dropWhile.simps(2) hd_dropWhile list.sel(1) list.distinct(1))
    with Cons show ?thesis by simp
  next
    case Nil
    then show ?thesis by (metis dropWhile.simps(1))
  qed
  show ?thesis
    unfolding trim_def by (subst *) (simp_all add: dropWhile_idem)
qed

definition to_lower :: "string \<Rightarrow> string" where
  "to_lower = map (\<lambda>c. if 65 \<le> code_of c \<and> code_of c \<le> 90 then char_of (code_of c + 32) else c)"

definition to_upper :: "string \<Rightarrow> string" where
  "to_upper = map (\<lambda>c. if 97 \<le> code_of c \<and> code_of c \<le> 122 then char_of (code_of c - 32) else c)"

lemma to_lower_idem [simp]: "to_lower (to_lower s) = to_lower s"
  by (auto simp: to_lower_def)

definition no_dashes :: "string \<Rightarrow> string" where
  "no_dashes = filter (\<lambda>c. c \<noteq> CHR ''-'')"

section \<open>Numbers\<close>

datatype jsnum = Fin rat | PInf | NInf | NaN

fun is_finite :: "jsnum \<Rightarrow> bool" where
  "is_finite (Fin _) = True"
| "is_finite _ = False"

fun is_integer :: "jsnum \<Rightarrow> bool" where
  "is_integer (Fin q) = (snd (quotient_of q) = 1)"
| "is_integer _ = False"

definition int_of :: "jsnum \<Rightarrow> int" where
  "int_of x = (case x of Fin q \<Rightarrow> fst (quotient_of q) | _ \<Rightarrow> 0)"

definition js_int :: "int \<Rightarrow> jsnum" where
  "js_int n = Fin (of_int n)"

lemma is_finite_js_int [simp]: "is_finite (js_int n)"
  by (simp add: js_int_def)

lemma is_integer_js_int [simp]: "is_integer (js_int n)"
  by (simp add: js_int_def)

lemma int_of_js_int [simp]: "int_of (js_int n) = n"
  by (simp add: js_int_def int_of_def)

lemma js_int_int_of: "is_integer x \<Longrightarrow> js_int (int_of x) = x"
proof (cases x)
  case (Fin q)
  assume "is_integer x"
  with Fin obtain n where "quotient_of q = (n, 1)"
    by (cases "quotient_of q") auto
  then have "q = of_int n"
    using quotient_of_div by force
  with Fin \<open>quotient_of q = (n, 1)\<close> show ?thesis
    by (simp add: js_int_def int_of_def)
qed auto

lemma js_int_inj [simp]: "js_int a = js_int b \<longleftrightarrow> a = b"
  by (simp add: js_int_def)

definition max_safe :: int where
  "max_safe = 2 ^ 53 - 1"

definition is_safe_integer :: "jsnum \<Rightarrow> bool" where
  "is_safe_integer x = (is_integer x \<and> \<bar>int_of x\<bar> \<le> max_safe)"

text \<open>\<^verbatim>\<open>x > 0\<close>: false on NaN.\<close>

fun num_pos :: "jsnum \<Rightarrow> bool" where
  "num_pos (Fin q) = (q > 0)"
| "num_pos PInf = True"
| "num_pos _ = False"

text \<open>The value a literal denotes; from \<open>2 ^ 1024 - 2 ^ 970\<close> on it rounds to an infinity.\<close>

definition overflow_at :: rat where
  "overflow_at = of_int (2 ^ 1024 - 2 ^ 970)"

definition to_num :: "rat \<Rightarrow> jsnum" where
  "to_num q = (if q \<ge> overflow_at then PInf else if q \<le> - overflow_at then NInf else Fin q)"

lemma max_safe_lt_overflow: "of_int max_safe < overflow_at"
  unfolding overflow_at_def max_safe_def by (simp only: of_int_less_iff) simp

lemma to_num_safe: "\<bar>n\<bar> \<le> max_safe \<Longrightarrow> to_num (of_int n) = js_int n"
proof -
  assume "\<bar>n\<bar> \<le> max_safe"
  then have "(of_int n :: rat) \<le> of_int max_safe" "- of_int max_safe \<le> (of_int n :: rat)"
    unfolding of_int_minus [symmetric] of_int_le_iff by linarith+
  then show ?thesis
    using max_safe_lt_overflow by (auto simp: to_num_def js_int_def)
qed

section \<open>Decimal text\<close>

definition is_digit :: "char \<Rightarrow> bool" where
  "is_digit c = (48 \<le> code_of c \<and> code_of c \<le> 57)"

definition digit_of :: "char \<Rightarrow> nat" where
  "digit_of c = code_of c - 48"

definition digit_char :: "nat \<Rightarrow> char" where
  "digit_char d = char_of (48 + d)"

lemma digit_char [simp]:
  assumes "d < 10"
  shows "is_digit (digit_char d)" and "digit_of (digit_char d) = d"
  using assms by (simp_all add: is_digit_def digit_of_def digit_char_def)

fun show_nat :: "nat \<Rightarrow> string" where
  "show_nat n = (if n < 10 then [digit_char n] else show_nat (n div 10) @ [digit_char (n mod 10)])"

declare show_nat.simps [simp del]

definition read_digits :: "string \<Rightarrow> nat" where
  "read_digits = foldl (\<lambda>a c. a * 10 + digit_of c) 0"

lemma read_digits_snoc [simp]: "read_digits (s @ [c]) = read_digits s * 10 + digit_of c"
  by (simp add: read_digits_def)

lemma read_digits_Nil [simp]: "read_digits [] = 0"
  by (simp add: read_digits_def)

lemma read_show_nat [simp]: "read_digits (show_nat n) = n"
proof (induction n rule: show_nat.induct)
  case (1 n)
  show ?case
  proof (cases "n < 10")
    case True
    then show ?thesis
      using read_digits_snoc [of "[]"] by (simp add: show_nat.simps)
  next
    case False
    with 1 show ?thesis by (subst show_nat.simps) simp
  qed
qed

lemma show_nat_digits: "c \<in> set (show_nat n) \<Longrightarrow> is_digit c"
proof (induction n rule: show_nat.induct)
  case (1 n)
  then show ?case
    by (cases "n < 10") (auto simp: show_nat.simps [of n])
qed

lemma show_nat_nonempty [simp]: "show_nat n \<noteq> []"
  by (subst show_nat.simps) simp

lemma hd_show_nat: "0 < n \<Longrightarrow> hd (show_nat n) \<noteq> CHR ''0''"
proof (induction n rule: show_nat.induct)
  case (1 n)
  show ?case
  proof (cases "n < 10")
    case True
    with "1.prems" have "digit_of (digit_char n) \<noteq> 0" by simp
    moreover have "digit_of CHR ''0'' = 0" by (simp add: digit_of_def code_of_def)
    ultimately have "digit_char n \<noteq> CHR ''0''" by metis
    with True show ?thesis by (simp add: show_nat.simps)
  next
    case False
    with "1.IH" show ?thesis by (simp add: show_nat.simps [of n])
  qed
qed

lemma show_nat_0 [simp]: "show_nat 0 = ''0''"
proof -
  have "code_of (digit_char 0) = code_of CHR ''0''"
    by (simp add: digit_char_def) (simp add: code_of_def)
  then show ?thesis by (simp add: show_nat.simps code_of_inj)
qed

definition show_int :: "int \<Rightarrow> string" where
  "show_int n = (if n < 0 then CHR ''-'' # show_nat (nat (- n)) else show_nat (nat n))"

text \<open>
  An unsigned decimal literal \<open>digits[.digits][(e|E)[+|-]digits]\<close>, split into its integer
  digits, fraction digits, exponent and the rest of the input; the caller decides which
  combinations its grammar allows.
\<close>

definition span_digits :: "string \<Rightarrow> string \<times> string" where
  "span_digits s = (takeWhile is_digit s, dropWhile is_digit s)"

definition split_exp :: "string \<Rightarrow> int \<times> string" where
  "split_exp s =
     (case s of
        e # r \<Rightarrow>
          (if e = CHR ''e'' \<or> e = CHR ''E'' then
             (let (neg, r') = (case r of
                    g # r'' \<Rightarrow> (if g = CHR ''-'' then (True, r'')
                               else if g = CHR ''+'' then (False, r'') else (False, r))
                  | [] \<Rightarrow> (False, r));
                  (ds, rest) = span_digits r'
              in if ds = [] then (0, s)
                 else (if neg then - int (read_digits ds) else int (read_digits ds), rest))
           else (0, s))
      | [] \<Rightarrow> (0, s))"

definition dec_value :: "string \<Rightarrow> string \<Rightarrow> int \<Rightarrow> rat" where
  "dec_value ip fp ex = of_nat (read_digits (ip @ fp)) * (10 powi (ex - int (length fp)))"

text \<open>\<^verbatim>\<open>StrUnsignedDecimalLiteral\<close> of \<^verbatim>\<open>Number(s)\<close>: the whole input must be consumed.\<close>

definition read_unsigned :: "string \<Rightarrow> rat option" where
  "read_unsigned s =
     (let (ip, r1) = span_digits s;
          (fp, r2) = (case r1 of
                        c # r \<Rightarrow> (if c = CHR ''.'' then span_digits r else ([], r1))
                      | [] \<Rightarrow> ([], r1));
          (ex, r3) = split_exp r2
      in if ip @ fp = [] \<or> r3 \<noteq> [] then None else Some (dec_value ip fp ex))"

definition hex_val :: "char \<Rightarrow> nat option" where
  "hex_val c =
     (if is_digit c then Some (digit_of c)
      else if 97 \<le> code_of c \<and> code_of c \<le> 102 then Some (code_of c - 87)
      else if 65 \<le> code_of c \<and> code_of c \<le> 70 then Some (code_of c - 55)
      else None)"

definition read_radix :: "nat \<Rightarrow> string \<Rightarrow> rat option" where
  "read_radix b s =
     (if s \<noteq> [] \<and> list_all (\<lambda>c. case hex_val c of Some d \<Rightarrow> d < b | None \<Rightarrow> False) s
      then Some (of_nat (foldl (\<lambda>a c. a * b + the (hex_val c)) 0 s)) else None)"

text \<open>\<^verbatim>\<open>Number(s)\<close>.\<close>

definition js_Number :: "string \<Rightarrow> jsnum" where
  "js_Number s0 =
     (let s = trim s0; pre = to_lower (take 2 s);
          num = (\<lambda>r. case r of None \<Rightarrow> NaN | Some q \<Rightarrow> to_num q)
      in if s = [] then Fin 0
         else if pre = ''0x'' then num (read_radix 16 (drop 2 s))
         else if pre = ''0o'' then num (read_radix 8 (drop 2 s))
         else if pre = ''0b'' then num (read_radix 2 (drop 2 s))
         else if s = ''Infinity'' \<or> s = ''+Infinity'' then PInf
         else if s = ''-Infinity'' then NInf
         else if hd s = CHR ''-'' then num (map_option uminus (read_unsigned (tl s)))
         else if hd s = CHR ''+'' then num (read_unsigned (tl s))
         else num (read_unsigned s))"

lemma span_show_nat:
  "r = [] \<or> \<not> is_digit (hd r) \<Longrightarrow> span_digits (show_nat n @ r) = (show_nat n, r)"
proof -
  assume r: "r = [] \<or> \<not> is_digit (hd r)"
  have "takeWhile is_digit (show_nat n @ r) = show_nat n @ takeWhile is_digit r"
    using show_nat_digits by (simp add: takeWhile_append2)
  moreover have "dropWhile is_digit (show_nat n @ r) = dropWhile is_digit r"
    using show_nat_digits by (simp add: dropWhile_append2)
  ultimately show ?thesis
    using r by (cases r) (auto simp: span_digits_def)
qed

lemma split_exp_Nil [simp]: "split_exp [] = (0, [])"
  by (simp add: split_exp_def)

lemma read_unsigned_show_nat: "read_unsigned (show_nat n) = Some (of_nat n)"
  using span_show_nat [of "[]" n]
  by (simp add: read_unsigned_def dec_value_def)

lemma digit_not_space: "is_digit c \<Longrightarrow> \<not> is_space c"
  by (auto simp: is_digit_def is_space_def)

lemma trim_digits: "(\<And>c. c \<in> set s \<Longrightarrow> is_digit c) \<Longrightarrow> trim s = s"
proof -
  assume d: "\<And>c. c \<in> set s \<Longrightarrow> is_digit c"
  have a: "dropWhile is_space t = t" if "\<And>c. c \<in> set t \<Longrightarrow> is_digit c" for t
    using that digit_not_space by (cases t) auto
  show ?thesis
    using a [of s] a [of "rev s"] d by (simp add: trim_def)
qed

lemma lower_radix_digits:
  assumes "\<And>c. c \<in> set s \<Longrightarrow> is_digit c" and "\<not> is_digit x"
  shows "to_lower (take 2 s) \<noteq> [CHR ''0'', x]"
proof
  assume eq: "to_lower (take 2 s) = [CHR ''0'', x]"
  then obtain a b r where s: "s = a # b # r"
    by (cases s; cases "tl s") (auto simp: to_lower_def)
  with assms(1) have "is_digit b" by simp
  then have "to_lower (take 2 s) ! 1 = b"
    using s by (auto simp: to_lower_def is_digit_def)
  with eq have "x = b" by simp
  with \<open>is_digit b\<close> assms(2) show False by simp
qed

lemma js_Number_digits:
  assumes "\<And>c. c \<in> set s \<Longrightarrow> is_digit c" and "s \<noteq> []"
  shows "js_Number s = (case read_unsigned s of None \<Rightarrow> NaN | Some q \<Rightarrow> to_num q)"
proof -
  have "is_digit (hd s)" using assms by simp
  then have hd: "hd s \<noteq> CHR ''I''" "hd s \<noteq> CHR ''+''" "hd s \<noteq> CHR ''-''"
    by (auto simp: is_digit_def code_of_def)
  then have "s \<noteq> ''Infinity''" "s \<noteq> ''+Infinity''" "s \<noteq> ''-Infinity''" by auto
  moreover have "to_lower (take 2 s) \<noteq> ''0x''" "to_lower (take 2 s) \<noteq> ''0o''"
    "to_lower (take 2 s) \<noteq> ''0b''"
    using lower_radix_digits [OF assms(1)] by (simp_all add: is_digit_def code_of_def)
  ultimately show ?thesis
    using hd assms trim_digits [OF assms(1)] by (simp add: js_Number_def Let_def)
qed

lemma js_Number_show_nat:
  "int n \<le> max_safe \<Longrightarrow> js_Number (show_nat n) = js_int (int n)"
  using to_num_safe [of "int n"] show_nat_digits
  by (simp add: js_Number_digits read_unsigned_show_nat)

lemma js_Number_show_int:
  "0 \<le> n \<Longrightarrow> n \<le> max_safe \<Longrightarrow> js_Number (show_int n) = js_int n"
  using js_Number_show_nat [of "nat n"] by (simp add: show_int_def)

end
