(* ===== verification/JsBase64.thy ===== *)
theory JsBase64
  imports JsText
begin

text \<open>
  Node's base64: \<^verbatim>\<open>Buffer.from(bytes).toString('base64')\<close> and
  \<^verbatim>\<open>Buffer.from(text, 'base64')\<close>.  The decoder is Node's tolerant one: it stops at the first
  \<^verbatim>\<open>=\<close>, skips every character that is in neither alphabet, takes the URL-safe alphabet too,
  and drops an incomplete last group of a single character.  Decoding what the encoder wrote
  gives the bytes back (\<open>b64_decode_encode\<close>), and encoded text uses the alphabet only.
\<close>

section \<open>Alphabet\<close>

definition b64_char :: "nat \<Rightarrow> char" where
  "b64_char n =
     (if n < 26 then char_of (65 + n)
      else if n < 52 then char_of (71 + n)
      else if n < 62 then char_of (n - 4)
      else if n = 62 then CHR ''+'' else CHR ''/'')"

definition b64_val :: "char \<Rightarrow> nat option" where
  "b64_val c =
     (let k = code_of c in
      if 65 \<le> k \<and> k \<le> 90 then Some (k - 65)
      else if 97 \<le> k \<and> k \<le> 122 then Some (k - 71)
      else if 48 \<le> k \<and> k \<le> 57 then Some (k + 4)
      else if k = 43 \<or> k = 45 then Some 62
      else if k = 47 \<or> k = 95 then Some 63
      else None)"

lemma code_plus_slash_eq [simp]:
  "code_of CHR ''+'' = 43" "code_of CHR ''/'' = 47" "code_of CHR ''='' = 61"
  "code_of CHR ''-'' = 45" "code_of CHR '':'' = 58"
  by (simp_all add: code_of_def)

lemma b64_val_char [simp]: "n < 64 \<Longrightarrow> b64_val (b64_char n) = Some n"
  by (auto simp: b64_char_def b64_val_def Let_def)

lemma b64_val_lt: "b64_val c = Some n \<Longrightarrow> n < 64"
  by (auto simp: b64_val_def Let_def split: if_splits)

lemma b64_val_pad [simp]: "b64_val CHR ''='' = None"
  by (simp add: b64_val_def)

lemma b64_char_not_pad [simp]: "n < 64 \<Longrightarrow> b64_char n \<noteq> CHR ''=''"
  by (metis b64_val_char b64_val_pad option.distinct(1))

section \<open>Encoding and decoding\<close>

fun b64_encode :: "string \<Rightarrow> string" where
  "b64_encode [] = []"
| "b64_encode [a] =
     (let x = code_of a in [b64_char (x div 4), b64_char (x mod 4 * 16), CHR ''='', CHR ''=''])"
| "b64_encode [a, b] =
     (let x = code_of a; y = code_of b
      in [b64_char (x div 4), b64_char (x mod 4 * 16 + y div 16), b64_char (y mod 16 * 4), CHR ''=''])"
| "b64_encode (a # b # c # r) =
     (let x = code_of a; y = code_of b; z = code_of c
      in b64_char (x div 4) # b64_char (x mod 4 * 16 + y div 16)
         # b64_char (y mod 16 * 4 + z div 64) # b64_char (z mod 64) # b64_encode r)"

fun sextets_to_bytes :: "nat list \<Rightarrow> string" where
  "sextets_to_bytes (p # q # r # s # rest) =
     char_of (p * 4 + q div 16) # char_of (q mod 16 * 16 + r div 4) # char_of (r mod 4 * 64 + s)
     # sextets_to_bytes rest"
| "sextets_to_bytes [p, q, r] = [char_of (p * 4 + q div 16), char_of (q mod 16 * 16 + r div 4)]"
| "sextets_to_bytes [p, q] = [char_of (p * 4 + q div 16)]"
| "sextets_to_bytes _ = []"

definition b64_decode :: "string \<Rightarrow> string" where
  "b64_decode s = sextets_to_bytes (List.map_filter b64_val (takeWhile (\<lambda>c. c \<noteq> CHR ''='') s))"

fun b64_sextets :: "string \<Rightarrow> nat list" where
  "b64_sextets [] = []"
| "b64_sextets [a] = (let x = code_of a in [x div 4, x mod 4 * 16])"
| "b64_sextets [a, b] =
     (let x = code_of a; y = code_of b in [x div 4, x mod 4 * 16 + y div 16, y mod 16 * 4])"
| "b64_sextets (a # b # c # r) =
     (let x = code_of a; y = code_of b; z = code_of c
      in (x div 4) # (x mod 4 * 16 + y div 16) # (y mod 16 * 4 + z div 64) # (z mod 64) # b64_sextets r)"

lemma code_div_small [simp]: "code_of b div 16 < 16" "code_of c div 64 < 4"
  using code_of_lt [of b] code_of_lt [of c] by (simp_all add: less_mult_imp_div_less)

lemma code_div_bounds:
  "code_of a div 4 < 64" "code_of a mod 4 * 16 < 64"
  "code_of a mod 4 * 16 + code_of b div 16 < 64"
  "code_of b mod 16 * 4 < 64" "code_of b mod 16 * 4 + code_of c div 64 < 64"
proof -
  have "code_of a mod 4 \<le> 3" "code_of b mod 16 \<le> 15"
    using mod_less_divisor [of 4 "code_of a"] mod_less_divisor [of 16 "code_of b"] by linarith+
  moreover note code_div_small(1) [of b] code_div_small(2) [of c] code_of_lt [of a]
  ultimately show "code_of a div 4 < 64" "code_of a mod 4 * 16 < 64"
    "code_of a mod 4 * 16 + code_of b div 16 < 64"
    "code_of b mod 16 * 4 < 64" "code_of b mod 16 * 4 + code_of c div 64 < 64"
    by linarith+
qed

lemma b64_filter_encode:
  "List.map_filter b64_val (takeWhile (\<lambda>c. c \<noteq> CHR ''='') (b64_encode bs)) = b64_sextets bs"
  by (induction bs rule: b64_encode.induct)
     (simp_all add: Let_def code_div_bounds List.map_filter_simps)

lemma sextets_to_bytes_sextets: "sextets_to_bytes (b64_sextets bs) = bs"
  by (induction bs rule: b64_sextets.induct) (simp_all add: Let_def)

theorem b64_decode_encode [wire_simps, simp]: "b64_decode (b64_encode bs) = bs"
  by (simp add: b64_decode_def b64_filter_encode sextets_to_bytes_sextets)

lemma b64_encode_inj: "b64_encode a = b64_encode b \<longleftrightarrow> a = b"
  by (metis b64_decode_encode)

lemma b64_encode_alphabet:
  "c \<in> set (b64_encode bs) \<Longrightarrow> c = CHR ''='' \<or> b64_val c \<noteq> None"
  by (induction bs rule: b64_encode.induct) (auto simp: Let_def code_div_bounds)

lemma b64_encode_no_colon: "CHR '':'' \<notin> set (b64_encode bs)"
  using b64_encode_alphabet [of "CHR '':''" bs] by (auto simp: b64_val_def)

lemma b64_encode_nonempty [simp]: "b64_encode bs = [] \<longleftrightarrow> bs = []"
  by (cases bs rule: b64_encode.cases) (simp_all add: Let_def)

lemma length_b64_encode: "length (b64_encode bs) = 4 * ((length bs + 2) div 3)"
proof (induction bs rule: b64_encode.induct)
  case (4 a b c r)
  have "(length (a # b # c # r) + 2) div 3 = Suc ((length r + 2) div 3)"
    using div_add_self2 [of 3 "length r + 2"] by (simp add: add.commute)
  with 4 show ?case by (simp add: Let_def)
qed (simp_all add: Let_def)

end
