(* ===== verification/JsJson.thy ===== *)
theory JsJson
  imports JsBase64
begin

text \<open>
  \<^verbatim>\<open>JSON.stringify\<close> and \<^verbatim>\<open>JSON.parse\<close>.

  A value is a \<open>json\<close>; an object keeps its members in order, and a property read takes the
  last member of that name, as an object built by \<^verbatim>\<open>JSON.parse\<close> does.  The parser is the
  recursive descent of the JSON grammar, with every escape of a string literal.  It spends
  one unit of fuel per nesting step and per element; \<open>2 * length + 1\<close> units always suffice
  (\<open>json_fuel_enough\<close>), so \<open>json_parse\<close> is total and its answer does not depend on the fuel.
  \<open>json_parse_stringify\<close> is the round trip: parsing what was printed gives the value back,
  for values whose numbers are safe integers.
\<close>

section \<open>Values\<close>

datatype json =
    JNull
  | JBool bool
  | JNum jsnum
  | JStr string
  | JArr "json list"
  | JObj "(string \<times> json) list"

text \<open>\<^verbatim>\<open>v?.k\<close> on a parsed value: absent on anything that is not an object.\<close>

fun jget :: "json \<Rightarrow> string \<Rightarrow> json option" where
  "jget (JObj kvs) k = map_of (rev kvs) k"
| "jget _ k = None"

text \<open>\<^verbatim>\<open>typeof v.k === 'string'\<close> and its value; likewise for numbers.\<close>

definition jget_str :: "json \<Rightarrow> string \<Rightarrow> string option" where
  "jget_str v k = (case jget v k of Some (JStr s) \<Rightarrow> Some s | _ \<Rightarrow> None)"

definition jget_num :: "json \<Rightarrow> string \<Rightarrow> jsnum option" where
  "jget_num v k = (case jget v k of Some (JNum n) \<Rightarrow> Some n | _ \<Rightarrow> None)"

definition opt_member :: "string \<Rightarrow> ('a \<Rightarrow> json) \<Rightarrow> 'a option \<Rightarrow> (string \<times> json) list" where
  "opt_member k f x = (case x of None \<Rightarrow> [] | Some v \<Rightarrow> [(k, f v)])"

section \<open>Printing\<close>

definition hex_digit :: "nat \<Rightarrow> char" where
  "hex_digit n = (if n < 10 then char_of (48 + n) else char_of (87 + n))"

definition esc_char :: "char \<Rightarrow> string" where
  "esc_char c =
     (let k = code_of c in
      if k = 34 then [CHR 0x5C, CHR 0x22]
      else if k = 92 then [CHR 0x5C, CHR 0x5C]
      else if k = 8 then [CHR 0x5C, CHR ''b'']
      else if k = 9 then [CHR 0x5C, CHR ''t'']
      else if k = 10 then [CHR 0x5C, CHR ''n'']
      else if k = 12 then [CHR 0x5C, CHR ''f'']
      else if k = 13 then [CHR 0x5C, CHR ''r'']
      else if k < 32 then [CHR 0x5C, CHR ''u'', CHR ''0'', CHR ''0'', hex_digit (k div 16), hex_digit (k mod 16)]
      else [c])"

definition json_quote :: "string \<Rightarrow> string" where
  "json_quote s = CHR 0x22 # concat (map esc_char s) @ [CHR 0x22]"

fun twos :: "nat \<Rightarrow> nat" where
  "twos d = (if d \<noteq> 0 \<and> even d then Suc (twos (d div 2)) else 0)"

declare twos.simps [simp del]

text \<open>
  The text of a number.  Integers print as JavaScript prints them (below \<open>10 ^ 21\<close>); a
  fraction, which the program never sends, prints as an equal decimal in exponent form.
\<close>

fun num_text :: "jsnum \<Rightarrow> string" where
  "num_text (Fin q) =
     (case quotient_of q of (n, d) \<Rightarrow>
        if d = 1 then show_int n
        else (let k = twos (nat d) in show_int (n * 10 ^ k div d) @ ''e-'' @ show_nat k))"
| "num_text _ = ''null''"

fun commas :: "string list \<Rightarrow> string" where
  "commas [] = []"
| "commas [x] = x"
| "commas (x # y # r) = x @ CHR '','' # commas (y # r)"

fun json_stringify :: "json \<Rightarrow> string" where
  "json_stringify JNull = ''null''"
| "json_stringify (JBool b) = (if b then ''true'' else ''false'')"
| "json_stringify (JNum n) = num_text n"
| "json_stringify (JStr s) = json_quote s"
| "json_stringify (JArr vs) = CHR ''['' # commas (map json_stringify vs) @ '']''"
| "json_stringify (JObj kvs) =
     CHR ''{'' # commas (map (\<lambda>kv. json_quote (fst kv) @ CHR '':'' # json_stringify (snd kv)) kvs) @ ''}''"

section \<open>Parsing\<close>

definition is_json_ws :: "char \<Rightarrow> bool" where
  "is_json_ws c = (code_of c \<in> {9, 10, 13, 32})"

definition skip_ws :: "string \<Rightarrow> string" where
  "skip_ws = dropWhile is_json_ws"

definition hex4 :: "char \<Rightarrow> char \<Rightarrow> char \<Rightarrow> char \<Rightarrow> nat option" where
  "hex4 a b c d =
     (case (hex_val a, hex_val b, hex_val c, hex_val d) of
        (Some w, Some x, Some y, Some z) \<Rightarrow> Some (((w * 16 + x) * 16 + y) * 16 + z)
      | _ \<Rightarrow> None)"

definition utf8_of :: "nat \<Rightarrow> string" where
  "utf8_of n =
     (if n < 128 then [char_of n]
      else if n < 2048 then [char_of (192 + n div 64), char_of (128 + n mod 64)]
      else if n < 65536 then
        [char_of (224 + n div 4096), char_of (128 + n div 64 mod 64), char_of (128 + n mod 64)]
      else [char_of (240 + n div 262144), char_of (128 + n div 4096 mod 64),
            char_of (128 + n div 64 mod 64), char_of (128 + n mod 64)])"

definition unescape :: "char \<Rightarrow> char option" where
  "unescape e =
     (let k = code_of e in
      if k = 34 \<or> k = 92 \<or> k = 47 then Some e
      else if k = 98 then Some (char_of (8::nat)) else if k = 116 then Some (char_of (9::nat))
      else if k = 110 then Some (char_of (10::nat)) else if k = 102 then Some (char_of (12::nat))
      else if k = 114 then Some (char_of (13::nat)) else None)"

definition emit :: "string \<Rightarrow> (string \<times> string) option \<Rightarrow> (string \<times> string) option" where
  "emit t p = map_option (\<lambda>(s, r). (t @ s, r)) p"

text \<open>
  One escape sequence, after its backslash: the text it stands for and how many characters it
  takes.  Two \<^verbatim>\<open>\u\<close> escapes that form a surrogate pair are one character.
\<close>

definition pesc :: "string \<Rightarrow> (string \<times> nat) option" where
  "pesc r =
     (case r of
        [] \<Rightarrow> None
      | e # r1 \<Rightarrow>
        (if e \<noteq> CHR ''u'' then map_option (\<lambda>x. ([x], 1)) (unescape e)
         else
           (case r1 of
              h1 # h2 # h3 # h4 # r2 \<Rightarrow>
                (case hex4 h1 h2 h3 h4 of
                   None \<Rightarrow> None
                 | Some n \<Rightarrow>
                   (case r2 of
                      b1 # b2 # g1 # g2 # g3 # g4 # r3 \<Rightarrow>
                        (case hex4 g1 g2 g3 g4 of
                           Some m \<Rightarrow>
                             (if 55296 \<le> n \<and> n < 56320 \<and> b1 = CHR 0x5C \<and> b2 = CHR ''u''
                                 \<and> 56320 \<le> m \<and> m < 57344
                              then Some (utf8_of (65536 + (n - 55296) * 1024 + (m - 56320)), 11)
                              else Some (utf8_of n, 5))
                         | None \<Rightarrow> Some (utf8_of n, 5))
                    | _ \<Rightarrow> Some (utf8_of n, 5)))
            | _ \<Rightarrow> None)))"

text \<open>The rest of a string literal, after its opening quote.\<close>

function pstr :: "string \<Rightarrow> (string \<times> string) option" where
  "pstr [] = None"
| "pstr (c # r) =
     (if c = CHR 0x22 then Some ([], r)
      else if c = CHR 0x5C then
        (case pesc r of None \<Rightarrow> None | Some (t, k) \<Rightarrow> emit t (pstr (drop k r)))
      else if code_of c < 32 then None
      else emit [c] (pstr r))"
  by pat_completeness auto
termination
  by (relation "measure length") auto

definition pnum :: "string \<Rightarrow> (jsnum \<times> string) option" where
  "pnum s =
     (let (neg, s1) = (case s of c # r \<Rightarrow> if c = CHR ''-'' then (True, r) else (False, s) | [] \<Rightarrow> (False, s));
          (ip, r1) = span_digits s1
      in if ip = [] \<or> (1 < length ip \<and> hd ip = CHR ''0'') then None
         else
           let (ok, fp, r2) = (case r1 of
                 c # r \<Rightarrow> (if c = CHR ''.'' then (case span_digits r of (ds, r') \<Rightarrow> (ds \<noteq> [], ds, r'))
                          else (True, [], r1))
               | [] \<Rightarrow> (True, [], r1));
               (ex, r3) = split_exp r2;
               q = dec_value ip fp ex
           in if ok then Some (to_num (if neg then - q else q), r3) else None)"

definition plit :: "string \<Rightarrow> json \<Rightarrow> string \<Rightarrow> (json \<times> string) option" where
  "plit w v s = (if starts_with s w then Some (v, drop (length w) s) else None)"

fun pval :: "nat \<Rightarrow> string \<Rightarrow> (json \<times> string) option"
  and parr :: "nat \<Rightarrow> string \<Rightarrow> (json list \<times> string) option"
  and pobj :: "nat \<Rightarrow> string \<Rightarrow> ((string \<times> json) list \<times> string) option"
where
  "pval 0 s = None"
| "pval (Suc f) s =
     (case skip_ws s of
        [] \<Rightarrow> None
      | c # r \<Rightarrow>
        (if c = CHR 0x22 then map_option (\<lambda>(t, r'). (JStr t, r')) (pstr r)
         else if c = CHR ''['' then
           (case skip_ws r of
              [] \<Rightarrow> None
            | d # r' \<Rightarrow> if d = CHR '']'' then Some (JArr [], r')
                       else map_option (\<lambda>(vs, r''). (JArr vs, r'')) (parr f r))
         else if c = CHR ''{'' then
           (case skip_ws r of
              [] \<Rightarrow> None
            | d # r' \<Rightarrow> if d = CHR ''}'' then Some (JObj [], r')
                       else map_option (\<lambda>(kvs, r''). (JObj kvs, r'')) (pobj f r))
         else if c = CHR ''t'' then plit ''true'' (JBool True) (c # r)
         else if c = CHR ''f'' then plit ''false'' (JBool False) (c # r)
         else if c = CHR ''n'' then plit ''null'' JNull (c # r)
         else map_option (\<lambda>(n, r'). (JNum n, r')) (pnum (c # r))))"
| "parr 0 s = None"
| "parr (Suc f) s =
     (case pval f s of
        None \<Rightarrow> None
      | Some (v, r) \<Rightarrow>
        (case skip_ws r of
           [] \<Rightarrow> None
         | c # r' \<Rightarrow>
           (if c = CHR '','' then map_option (\<lambda>(vs, r''). (v # vs, r'')) (parr f r')
            else if c = CHR '']'' then Some ([v], r') else None)))"
| "pobj 0 s = None"
| "pobj (Suc f) s =
     (case skip_ws s of
        [] \<Rightarrow> None
      | q # r \<Rightarrow>
        (if q \<noteq> CHR 0x22 then None
         else
           (case pstr r of
              None \<Rightarrow> None
            | Some (k, r1) \<Rightarrow>
              (case skip_ws r1 of
                 [] \<Rightarrow> None
               | c # r2 \<Rightarrow>
                 (if c \<noteq> CHR '':'' then None
                  else
                    (case pval f r2 of
                       None \<Rightarrow> None
                     | Some (v, r3) \<Rightarrow>
                       (case skip_ws r3 of
                          [] \<Rightarrow> None
                        | d # r4 \<Rightarrow>
                          (if d = CHR '','' then map_option (\<lambda>(kvs, r'). ((k, v) # kvs, r')) (pobj f r4)
                           else if d = CHR ''}'' then Some ([(k, v)], r4) else None))))))))"

definition json_parse :: "string \<Rightarrow> json option" where
  "json_parse s =
     (case pval (2 * length s + 2) s of
        Some (v, r) \<Rightarrow> (if skip_ws r = [] then Some v else None)
      | None \<Rightarrow> None)"

section \<open>Remainders shrink, and the fuel is enough\<close>

lemma emit_eq_Some [simp]: "emit t p = Some (s, r) \<longleftrightarrow> (\<exists>s'. p = Some (s', r) \<and> s = t @ s')"
  by (cases p) (auto simp: emit_def)

lemma emit_Some [simp]: "emit t (Some (s, r)) = Some (t @ s, r)"
  by (simp add: emit_def)

lemma length_skip_ws: "length (skip_ws s) \<le> length s"
  by (simp add: skip_ws_def length_dropWhile_le)

lemma skip_ws_Cons_length: "skip_ws s = c # r \<Longrightarrow> length r < length s"
  using length_skip_ws [of s] by simp

lemma pstr_shorter: "pstr s = Some (t, r) \<Longrightarrow> length r < length s"
proof (induction s arbitrary: t r rule: pstr.induct)
  case (2 c r')
  then show ?case
    by (force split: if_splits option.splits)
qed simp

lemma span_digits_length: "span_digits s = (ds, r) \<Longrightarrow> length s = length ds + length r"
  by (auto simp: span_digits_def simp flip: length_append)

lemma split_exp_length: "split_exp s = (e, r) \<Longrightarrow> length r \<le> length s"
  by (auto simp: split_exp_def Let_def split: list.splits if_splits prod.splits
      dest!: span_digits_length)

lemma pnum_shorter: "pnum s = Some (n, r) \<Longrightarrow> length r < length s"
  by (auto simp: pnum_def Let_def Suc_le_eq simp flip: length_greater_0_conv
      split: list.splits if_splits prod.splits
      dest!: span_digits_length split_exp_length)

lemma plit_shorter: "plit w v s = Some (u, r) \<Longrightarrow> w \<noteq> [] \<Longrightarrow> length r < length s"
  by (cases s) (auto simp: plit_def starts_with_def split: if_splits)

text \<open>A parsed value leaves a strictly shorter rest.\<close>

lemma pval_shorter: "pval f s = Some (v, r) \<Longrightarrow> length r < length s"
  and parr_shorter: "parr f s = Some (vs, r) \<Longrightarrow> length r < length s"
  and pobj_shorter: "pobj f s = Some (kvs, r) \<Longrightarrow> length r < length s"
proof (induction f s and f s and f s arbitrary: v r and vs r and kvs r rule: pval_parr_pobj.induct)
  case (2 f s)
  then obtain c r0 where s: "skip_ws s = c # r0" by (auto split: list.splits)
  have "length r < Suc (length r0)"
    using "2.prems" "2.IH" [OF s] s
    by (fastforce split: if_splits list.splits dest: pstr_shorter plit_shorter pnum_shorter
        skip_ws_Cons_length)
  then show ?case using length_skip_ws [of s] s by simp
next
  case (4 f s)
  then show ?case
    by (fastforce split: if_splits list.splits option.splits prod.splits dest: skip_ws_Cons_length)
next
  case (6 f s)
  then show ?case
    by (fastforce split: if_splits list.splits option.splits prod.splits
        dest: skip_ws_Cons_length pstr_shorter)
qed simp_all

lemma fuel_step:
  "(\<forall>s. 2 * length s < f \<longrightarrow> pval (Suc f) s = pval f s) \<and>
   (\<forall>s. 2 * length s + 1 < f \<longrightarrow> parr (Suc f) s = parr f s) \<and>
   (\<forall>s. 2 * length s + 1 < f \<longrightarrow> pobj (Suc f) s = pobj f s)"
proof (induction f)
  case 0
  then show ?case by simp
next
  case (Suc f)
  then have IHv: "\<And>s. 2 * length s < f \<Longrightarrow> pval (Suc f) s = pval f s"
    and IHa: "\<And>s. 2 * length s + 1 < f \<Longrightarrow> parr (Suc f) s = parr f s"
    and IHo: "\<And>s. 2 * length s + 1 < f \<Longrightarrow> pobj (Suc f) s = pobj f s"
    by blast+
  have v: "pval (Suc (Suc f)) s = pval (Suc f) s" if "2 * length s < Suc f" for s
  proof (cases "skip_ws s")
    case (Cons c r)
    then have "2 * length r + 1 < f" using skip_ws_Cons_length [of s c r] that by linarith
    then have "parr (Suc f) r = parr f r" "pobj (Suc f) r = pobj f r"
      by (rule IHa, rule IHo)
    with Cons show ?thesis by (simp only: pval.simps list.case)
  qed simp
  have a: "parr (Suc (Suc f)) s = parr (Suc f) s" if "2 * length s + 1 < Suc f" for s
  proof -
    have e: "pval (Suc f) s = pval f s" using that by (intro IHv) simp
    have "parr (Suc f) r' = parr f r'" if "pval f s = Some (v, r)" "skip_ws r = c # r'" for v r c r'
      using pval_shorter [OF that(1)] skip_ws_Cons_length [OF that(2)] \<open>2 * length s + 1 < Suc f\<close>
      by (intro IHa) linarith
    then show ?thesis
      unfolding parr.simps e by (auto split: option.split list.split prod.split)
  qed
  have o: "pobj (Suc (Suc f)) s = pobj (Suc f) s" if l: "2 * length s + 1 < Suc f" for s
  proof -
    have e: "pval (Suc f) r2 = pval f r2"
      if "skip_ws s = q # r" "pstr r = Some (k, r1)" "skip_ws r1 = c # r2" for q r k r1 c r2
      using skip_ws_Cons_length [OF that(1)] pstr_shorter [OF that(2)] skip_ws_Cons_length [OF that(3)] l
      by (intro IHv) linarith
    have "pobj (Suc f) r4 = pobj f r4"
      if "skip_ws s = q # r" "pstr r = Some (k, r1)" "skip_ws r1 = c # r2"
         "pval f r2 = Some (v, r3)" "skip_ws r3 = d # r4" for q r k r1 c r2 v r3 d r4
      using skip_ws_Cons_length [OF that(1)] pstr_shorter [OF that(2)] skip_ws_Cons_length [OF that(3)]
        pval_shorter [OF that(4)] skip_ws_Cons_length [OF that(5)] l
      by (intro IHo) linarith
    with e show ?thesis
      unfolding pobj.simps by (auto split: option.split list.split prod.split)
  qed
  show ?case using v a o by blast
qed

theorem json_fuel_enough:
  "2 * length s < f \<Longrightarrow> pval (f + n) s = pval f s"
proof (induction n)
  case (Suc n)
  then show ?case using fuel_step [of "f + n"] by simp
qed simp

section \<open>Round trip\<close>

text \<open>Values whose numbers are safe integers: everything the program sends.\<close>

fun json_ok :: "json \<Rightarrow> bool" where
  "json_ok (JNum n) = is_safe_integer n"
| "json_ok (JArr vs) = (\<forall>v \<in> set vs. json_ok v)"
| "json_ok (JObj kvs) = (\<forall>kv \<in> set kvs. json_ok (snd kv))"
| "json_ok _ = True"

lemma hex_val_digit [simp]: "n < 16 \<Longrightarrow> hex_val (hex_digit n) = Some n"
  by (auto simp: hex_val_def hex_digit_def is_digit_def digit_of_def)

lemma hex_val_0 [simp]: "hex_val CHR ''0'' = Some 0"
  by (simp add: hex_val_def is_digit_def digit_of_def code_of_def)

lemma code_specials [simp]:
  "code_of CHR 0x22 = 34" "code_of CHR 0x5C = 92" "code_of CHR ''u'' = 117"
  "code_of CHR ''b'' = 98" "code_of CHR ''t'' = 116" "code_of CHR ''n'' = 110"
  "code_of CHR ''f'' = 102" "code_of CHR ''r'' = 114" "code_of CHR ''['' = 91"
  "code_of CHR ''{'' = 123" "code_of CHR '','' = 44" "code_of CHR '']'' = 93" "code_of CHR ''}'' = 125"
  "code_of CHR ''.'' = 46" "code_of CHR ''e'' = 101" "code_of CHR ''E'' = 69"
  by (simp_all add: code_of_def)

lemma pesc_control:
  assumes "k < 32"
  shows "pesc (CHR ''u'' # CHR ''0'' # CHR ''0'' # hex_digit (k div 16) # hex_digit (k mod 16) # r)
    = Some ([char_of k], 5)"
proof -
  have "hex4 CHR ''0'' CHR ''0'' (hex_digit (k div 16)) (hex_digit (k mod 16)) = Some k"
    using assms by (simp add: hex4_def)
  then show ?thesis
    using assms by (auto simp: pesc_def utf8_of_def split: list.split option.split)
qed

lemma pesc_simple: "e \<noteq> CHR ''u'' \<Longrightarrow> pesc (e # r) = map_option (\<lambda>x. ([x], 1)) (unescape e)"
  by (simp add: pesc_def)

lemma pstr_esc_char:
  "pstr (esc_char c @ r) = emit [c] (pstr r)"
proof (cases "code_of c < 32 \<or> code_of c = 34 \<or> code_of c = 92")
  case False
  then have "c \<noteq> CHR 0x22" "c \<noteq> CHR 0x5C" by auto
  with False show ?thesis by (simp add: esc_char_def Let_def)
next
  case True
  have n: "c = char_of n" if "code_of c = n" for n
    using that char_of_code_of by metis
  have q: "c = CHR 0x22" if "code_of c = 34" using that code_of_inj code_specials(1) by metis
  have b: "c = CHR 0x5C" if "code_of c = 92" using that code_of_inj code_specials(2) by metis
  show ?thesis
    using True
    by (auto simp: esc_char_def Let_def pesc_control pesc_simple unescape_def dest: n q b)
qed

lemma pstr_quoted: "pstr (concat (map esc_char s) @ CHR 0x22 # r) = Some (s, r)"
  by (induction s) (simp_all add: pstr_esc_char)

text \<open>What may follow a value inside a document.\<close>

definition stops :: "string \<Rightarrow> bool" where
  "stops r = (r = [] \<or> hd r \<in> {CHR '','', CHR '']'', CHR ''}''})"

lemma pnum_show_int:
  assumes "\<bar>n\<bar> \<le> max_safe" and "stops r"
  shows "pnum (show_int n @ r) = Some (js_int n, r)"
proof -
  have r: "r = [] \<or> \<not> is_digit (hd r)" and e: "split_exp r = (0, r)"
    using assms(2) by (auto simp: stops_def is_digit_def split_exp_def split: list.splits)
  have z: "\<not> (1 < length (show_nat m) \<and> hd (show_nat m) = CHR ''0'')" for m
    by (cases "m = 0") (use hd_show_nat [of m] in auto)
  have d: "hd (show_nat m) \<noteq> CHR ''-''" for m
    using show_nat_digits [of "hd (show_nat m)" m] by (auto simp: is_digit_def)
  have sp: "span_digits (show_nat m @ r) = (show_nat m, r)" for m
    using r by (rule span_show_nat)
  have fr: "(case r of c # t \<Rightarrow> if c = CHR ''.'' then F t else (True, [], r) | [] \<Rightarrow> (True, [], r))
      = (True, [], r)" for F
    using assms(2) by (auto simp: stops_def split: list.split)
  show ?thesis
  proof (cases "n < 0")
    case True
    then have "to_num (- dec_value (show_nat (nat (- n))) [] 0) = js_int n"
      using to_num_safe [OF assms(1)] by (simp add: dec_value_def)
    with True show ?thesis
      using z by (auto simp: show_int_def pnum_def sp fr e)
  next
    case False
    then have v: "to_num (dec_value (show_nat (nat n)) [] 0) = js_int n"
      using to_num_safe [OF assms(1)] by (simp add: dec_value_def)
    obtain c t where ct: "show_nat (nat n) = c # t" by (cases "show_nat (nat n)") auto
    then have "c \<noteq> CHR ''-''" using d [of "nat n"] by simp
    then have "pnum (show_nat (nat n) @ r) = Some (js_int n, r)"
      using z [of "nat n"] v sp [of "nat n"] by (auto simp: pnum_def ct fr e)
    with False show ?thesis by (simp add: show_int_def)
  qed
qed

text \<open>The first character of a printed value.\<close>

lemma show_int_hd: "show_int n \<noteq> []" "hd (show_int n) = CHR ''-'' \<or> is_digit (hd (show_int n))"
proof -
  have "is_digit (hd (show_nat m))" for m
    by (rule show_nat_digits [of _ m]) simp
  then show "hd (show_int n) = CHR ''-'' \<or> is_digit (hd (show_int n))"
    by (simp add: show_int_def)
qed (simp add: show_int_def)

lemma num_text_safe: "is_safe_integer n \<Longrightarrow> num_text n = show_int (int_of n) \<and> js_int (int_of n) = n"
proof -
  assume "is_safe_integer n"
  then have "is_integer n" by (simp add: is_safe_integer_def)
  then have "js_int (int_of n) = n" by (rule js_int_int_of)
  moreover have "num_text (js_int m) = show_int m" for m
    by (simp add: js_int_def)
  ultimately show ?thesis by metis
qed

definition opens :: "char \<Rightarrow> bool" where
  "opens c = (c \<notin> {CHR '','', CHR '']'', CHR ''}'', CHR '':''} \<and> \<not> is_json_ws c)"

lemma opens_special [simp]: "opens CHR 0x22" "opens CHR ''['' " "opens CHR ''{''"
    "opens CHR ''t''" "opens CHR ''f''" "opens CHR ''n''" "opens CHR ''-''"
  by (simp_all add: opens_def is_json_ws_def)

lemma opens_digit: "is_digit c \<Longrightarrow> opens c"
  by (auto simp: opens_def is_json_ws_def is_digit_def)

lemma stringify_hd:
  "json_ok v \<Longrightarrow> json_stringify v \<noteq> [] \<and> opens (hd (json_stringify v))"
proof (cases v)
  case (JNum n)
  moreover assume "json_ok v"
  ultimately have "json_stringify v = show_int (int_of n)"
    using num_text_safe by simp
  then show ?thesis
    using show_int_hd [of "int_of n"] opens_digit by auto
qed (auto simp: json_quote_def)

lemma skip_ws_opens: "s \<noteq> [] \<Longrightarrow> opens (hd s) \<Longrightarrow> skip_ws (s @ r) = s @ r"
  by (cases s) (auto simp: skip_ws_def opens_def)

lemma skip_ws_plain [simp]:
  "\<not> is_json_ws c \<Longrightarrow> skip_ws (c # r) = c # r"
  by (simp add: skip_ws_def)

lemma not_ws_punct [simp]:
  "\<not> is_json_ws CHR '',''" "\<not> is_json_ws CHR '']''" "\<not> is_json_ws CHR ''}''"
  "\<not> is_json_ws CHR '':''" "\<not> is_json_ws CHR 0x22" "\<not> is_json_ws CHR ''[''" "\<not> is_json_ws CHR ''{''"
  by (simp_all add: is_json_ws_def)

lemma commas_Cons: "commas (x # xs) = x @ (if xs = [] then [] else CHR '','' # commas xs)"
  by (cases xs) simp_all

lemma parr_commas:
  assumes "\<And>v f r. v \<in> set vs \<Longrightarrow> stops r \<Longrightarrow> length (json_stringify v) < f \<Longrightarrow>
      pval f (json_stringify v @ r) = Some (v, r)"
    and "\<forall>v \<in> set vs. json_ok v" and "vs \<noteq> []"
    and "length (commas (map json_stringify vs)) + 1 < f"
  shows "parr f (commas (map json_stringify vs) @ CHR '']'' # rest) = Some (vs, rest)"
  using assms
proof (induction vs arbitrary: f)
  case (Cons v vs)
  then obtain f' where f: "f = Suc f'" by (cases f) auto
  have ne: "json_stringify v \<noteq> []" using Cons.prems stringify_hd by simp
  show ?case
  proof (cases "vs = []")
    case True
    have "pval f' (json_stringify v @ CHR '']'' # rest) = Some (v, CHR '']'' # rest)"
      using Cons.prems(1) [of v "CHR '']'' # rest" f'] Cons.prems(4) True f
      by (simp add: stops_def)
    with True f show ?thesis by (simp add: skip_ws_def is_json_ws_def)
  next
    case False
    let ?r = "CHR '','' # commas (map json_stringify vs) @ CHR '']'' # rest"
    have l: "length (json_stringify v) + 1 + length (commas (map json_stringify vs)) < f'"
      using Cons.prems(4) False f by (simp add: commas_Cons)
    then have "pval f' (json_stringify v @ ?r) = Some (v, ?r)"
      using Cons.prems(1) [of v ?r f'] by (simp add: stops_def)
    moreover have "parr f' (commas (map json_stringify vs) @ CHR '']'' # rest) = Some (vs, rest)"
      using Cons.IH [of f'] Cons.prems(1,2) False l ne by (simp add: neq_Nil_conv)
    ultimately show ?thesis
      using False f by (simp add: commas_Cons skip_ws_def is_json_ws_def)
  qed
qed simp

abbreviation "member_text kv \<equiv> json_quote (fst kv) @ CHR '':'' # json_stringify (snd kv)"

lemma pobj_commas:
  assumes "\<And>kv f r. kv \<in> set kvs \<Longrightarrow> stops r \<Longrightarrow> length (json_stringify (snd kv)) < f \<Longrightarrow>
      pval f (json_stringify (snd kv) @ r) = Some (snd kv, r)"
    and "kvs \<noteq> []" and "length (commas (map member_text kvs)) + 1 < f"
  shows "pobj f (commas (map member_text kvs) @ CHR ''}'' # rest) = Some (kvs, rest)"
  using assms
proof (induction kvs arbitrary: f)
  case (Cons kv kvs)
  obtain k v where kv: "kv = (k, v)" by (cases kv)
  from Cons.prems obtain f' where f: "f = Suc f'" by (cases f) auto
  have q: "pstr (concat (map esc_char k) @ CHR 0x22 # t) = Some (k, t)" for t
    by (rule pstr_quoted)
  show ?case
  proof (cases "kvs = []")
    case True
    have "pval f' (json_stringify v @ CHR ''}'' # rest) = Some (v, CHR ''}'' # rest)"
      using Cons.prems(1) [of kv "CHR ''}'' # rest" f'] Cons.prems(3) True f kv
      by (simp add: stops_def)
    with True f kv show ?thesis by (simp add: json_quote_def q)
  next
    case False
    let ?r = "CHR '','' # commas (map member_text kvs) @ CHR ''}'' # rest"
    have l: "length (json_stringify v) + 3 + length (commas (map member_text kvs)) < f'"
      using Cons.prems(3) False f kv by (simp add: commas_Cons json_quote_def)
    then have "pval f' (json_stringify v @ ?r) = Some (v, ?r)"
      using Cons.prems(1) [of kv ?r f'] kv by (simp add: stops_def)
    moreover have "pobj f' (commas (map member_text kvs) @ CHR ''}'' # rest) = Some (kvs, rest)"
      using Cons.IH [of f'] Cons.prems(1) False l by simp
    ultimately show ?thesis
      using False f kv by (simp add: commas_Cons json_quote_def q)
  qed
qed simp

lemma pval_stringify:
  "json_ok v \<Longrightarrow> stops r \<Longrightarrow> length (json_stringify v) < f \<Longrightarrow>
   pval f (json_stringify v @ r) = Some (v, r)"
proof (induction v arbitrary: f r rule: json_stringify.induct)
  case (3 n)
  then obtain f' where f: "f = Suc f'" by (cases f) auto
  obtain m where n: "n = js_int m" "num_text n = show_int m" "\<bar>m\<bar> \<le> max_safe"
    using 3 num_text_safe [of n] by (auto simp: is_safe_integer_def) metis
  obtain c t where ct: "show_int m = c # t" "c = CHR ''-'' \<or> is_digit c"
    using show_int_hd [of m] by (cases "show_int m") auto
  then have c: "opens c" "c \<notin> {CHR 0x22, CHR ''['', CHR ''{'', CHR ''t'', CHR ''f'', CHR ''n''}"
    using opens_digit by (auto simp: is_digit_def)
  with ct have "skip_ws (show_int m @ r) = show_int m @ r"
    using skip_ws_opens [of "show_int m" r] by simp
  with ct c n f pnum_show_int [OF n(3) "3.prems"(2)] show ?case by simp
next
  case (4 s)
  then show ?case by (cases f) (simp_all add: json_quote_def pstr_quoted)
next
  case (5 vs)
  then obtain f' where f: "f = Suc f'" by (cases f) auto
  show ?case
  proof (cases "vs = []")
    case True
    with f show ?thesis by (simp add: skip_ws_def is_json_ws_def)
  next
    case False
    then obtain w ws where vs: "vs = w # ws" by (cases vs) auto
    have "\<exists>c t. commas (map json_stringify vs) = c # t \<and> opens c"
      using stringify_hd [of w] "5.prems"(1) vs
      by (cases "json_stringify w") (auto simp: commas_Cons)
    then obtain c t where ct: "commas (map json_stringify vs) = c # t" "opens c" by blast
    have "parr f' (commas (map json_stringify vs) @ CHR '']'' # r) = Some (vs, r)"
      using 5 False f by (intro parr_commas) auto
    with ct f show ?thesis by (auto simp: opens_def)
  qed
next
  case (6 kvs)
  then obtain f' where f: "f = Suc f'" by (cases f) auto
  show ?case
  proof (cases "kvs = []")
    case True
    with f show ?thesis by simp
  next
    case False
    then obtain t where ct: "commas (map member_text kvs) = CHR 0x22 # t"
      by (cases kvs) (auto simp: commas_Cons json_quote_def)
    have "pobj f' (commas (map member_text kvs) @ CHR ''}'' # r) = Some (kvs, r)"
      using 6 False f by (intro pobj_commas) auto
    with ct f show ?thesis by auto
  qed
qed (case_tac f; auto simp: plit_def starts_with_def skip_ws_def is_json_ws_def)+

theorem json_parse_stringify [wire_simps]: "json_ok v \<Longrightarrow> json_parse (json_stringify v) = Some v"
  using pval_stringify [of v "[]" "2 * length (json_stringify v) + 2"]
  by (simp add: json_parse_def stops_def skip_ws_def)

lemma jget_distinct: "distinct (map fst kvs) \<Longrightarrow> jget (JObj kvs) k = map_of kvs k"
  by (metis distinct_rev jget.simps(1) map_of_inject_set rev_map set_rev)

end
