(* ===== verification/Carriage.thy ===== *)
theory Carriage
  imports JsJson
begin

text \<open>
  The carriage convention of \<^verbatim>\<open>ts/services/personasCarriage.std.ts\<close>: how each kind of personas
  traffic is packed into an ordinary message body behind a five-character marker, and read
  back.  A body is \<open>string option\<close> (\<open>None\<close> for \<^verbatim>\<open>undefined\<close> and \<^verbatim>\<open>null\<close>).

  The locale \<open>marked_codec\<close> is the contract between an encoder, its decoder and the markers it
  owns; every codec of the module is interpreted.  The facts used elsewhere: each decoder
  inverts its encoder and rejects bodies of foreign markers, exactly the bodies of anonymous
  kinds ride the phantom identity, and a split history reassembles.
\<close>

section \<open>Markers\<close>

definition PERSONAS_MARKER :: string where "PERSONAS_MARKER = ''PZR2:''"
definition PERSONAS_POST_MARKER :: string where "PERSONAS_POST_MARKER = ''PZP2:''"
definition PERSONAS_POLL_MARKER :: string where "PERSONAS_POLL_MARKER = ''PZQ2:''"
definition PERSONAS_VOTE_MARKER :: string where "PERSONAS_VOTE_MARKER = ''PZV2:''"
definition PERSONAS_RATE_MARKER :: string where "PERSONAS_RATE_MARKER = ''PZE2:''"
definition PERSONAS_TOPIC_MARKER :: string where "PERSONAS_TOPIC_MARKER = ''PZT2:''"
definition PERSONAS_AUTHORSHIP_MARKER :: string where "PERSONAS_AUTHORSHIP_MARKER = ''PZU2:''"
definition PERSONAS_BADGE_MARKER :: string where "PERSONAS_BADGE_MARKER = ''PZB2:''"
definition PERSONAS_BADGE_PROOF_MARKER :: string where "PERSONAS_BADGE_PROOF_MARKER = ''PZG2:''"
definition PERSONAS_PHANTOM_BUNDLE_MARKER :: string where
  "PERSONAS_PHANTOM_BUNDLE_MARKER = ''PZK1:''"
definition PERSONAS_RESET_REQUEST_MARKER :: string where
  "PERSONAS_RESET_REQUEST_MARKER = ''PZX1:''"
definition PERSONAS_RELAY_MARKER :: string where "PERSONAS_RELAY_MARKER = ''PZY2:''"
definition PERSONAS_CATCH_UP_REQUEST_MARKER :: string where
  "PERSONAS_CATCH_UP_REQUEST_MARKER = ''PZC1:''"
definition PERSONAS_CATCH_UP_PART_MARKER :: string where
  "PERSONAS_CATCH_UP_PART_MARKER = ''PZH1:''"

definition PHANTOM_MARKERS :: "string list" where
  "PHANTOM_MARKERS =
     [PERSONAS_POST_MARKER, PERSONAS_POLL_MARKER, PERSONAS_VOTE_MARKER, PERSONAS_RATE_MARKER,
      PERSONAS_BADGE_MARKER, PERSONAS_AUTHORSHIP_MARKER, PERSONAS_BADGE_PROOF_MARKER]"

definition ALL_MARKERS :: "string list" where
  "ALL_MARKERS =
     [PERSONAS_MARKER, PERSONAS_POST_MARKER, PERSONAS_POLL_MARKER, PERSONAS_VOTE_MARKER,
      PERSONAS_RATE_MARKER, PERSONAS_BADGE_MARKER]"

lemmas marker_defs [wire_simps] =
  PERSONAS_MARKER_def PERSONAS_POST_MARKER_def PERSONAS_POLL_MARKER_def
  PERSONAS_VOTE_MARKER_def PERSONAS_RATE_MARKER_def PERSONAS_TOPIC_MARKER_def
  PERSONAS_AUTHORSHIP_MARKER_def PERSONAS_BADGE_MARKER_def PERSONAS_BADGE_PROOF_MARKER_def
  PERSONAS_PHANTOM_BUNDLE_MARKER_def PERSONAS_RESET_REQUEST_MARKER_def PERSONAS_RELAY_MARKER_def
  PERSONAS_CATCH_UP_REQUEST_MARKER_def PERSONAS_CATCH_UP_PART_MARKER_def

datatype PersonaChoice = PseudoChoice rat | RateChoice rat int | AnonChoice

definition MAX_PSEUDO :: int where "MAX_PSEUDO = 3"

section \<open>Bodies that are just base64\<close>

definition encodeRecordBody :: "string \<Rightarrow> string" where
  "encodeRecordBody bytes = PERSONAS_MARKER @ b64_encode bytes"

definition encodeBadgeBody :: "string \<Rightarrow> string" where
  "encodeBadgeBody bytes = PERSONAS_BADGE_MARKER @ b64_encode bytes"

definition encodeVoteBody :: "string \<Rightarrow> string" where
  "encodeVoteBody bytes = PERSONAS_VOTE_MARKER @ b64_encode bytes"

definition encodeRateBody :: "string \<Rightarrow> string" where
  "encodeRateBody bytes = PERSONAS_RATE_MARKER @ b64_encode bytes"

definition encodeAuthorshipProof :: "string \<Rightarrow> string" where
  "encodeAuthorshipProof proof = PERSONAS_AUTHORSHIP_MARKER @ b64_encode proof"

definition encodeBadgeProof :: "string \<Rightarrow> string" where
  "encodeBadgeProof proof = PERSONAS_BADGE_PROOF_MARKER @ b64_encode proof"

definition marked :: "string option \<Rightarrow> string \<Rightarrow> bool" where
  "marked body m = (case body of None \<Rightarrow> False | Some s \<Rightarrow> starts_with s m)"

definition decodeBadgeProof :: "string option \<Rightarrow> string option" where
  "decodeBadgeProof body =
     (if \<not> marked body PERSONAS_BADGE_PROOF_MARKER then None
      else Some (b64_decode (drop (length PERSONAS_BADGE_PROOF_MARKER) (the body))))"

definition decodeAuthorshipProof :: "string option \<Rightarrow> string option" where
  "decodeAuthorshipProof body =
     (if \<not> marked body PERSONAS_AUTHORSHIP_MARKER then None
      else Some (b64_decode (drop (length PERSONAS_AUTHORSHIP_MARKER) (the body))))"

text \<open>The JSON text behind a marker: \<^verbatim>\<open>marker + base64(utf8(JSON.stringify(v)))\<close>.\<close>

definition json_body :: "string \<Rightarrow> json \<Rightarrow> string" where
  "json_body m v = m @ b64_encode (json_stringify v)"

definition body_json :: "string \<Rightarrow> string \<Rightarrow> json option" where
  "body_json m s = json_parse (b64_decode (drop (length m) s))"

lemma body_json_body [wire_simps]: "json_ok v \<Longrightarrow> body_json m (json_body m v) = Some v"
  by (simp add: body_json_def json_body_def json_parse_stringify)

lemma marked_Some [wire_simps, simp]: "marked (Some (m @ s)) m"
  by (simp add: marked_def)

section \<open>Posts\<close>

definition truthy_str :: "string option \<Rightarrow> bool" where
  "truthy_str s = (s \<noteq> None \<and> s \<noteq> Some [])"

definition encodePostBody :: "string \<Rightarrow> string option \<Rightarrow> string option \<Rightarrow> string" where
  "encodePostBody bytes badge contextName =
     (let rec = b64_encode bytes in
      if \<not> truthy_str badge \<and> \<not> truthy_str contextName then PERSONAS_POST_MARKER @ rec
      else json_body PERSONAS_POST_MARKER
             (JObj ((''r'', JStr rec) # opt_member ''b'' JStr badge @ opt_member ''c'' JStr contextName)))"

record post_envelope =
  env_r :: string
  env_b :: "string option"
  env_c :: "string option"

definition parsePostEnvelope :: "string \<Rightarrow> post_envelope option" where
  "parsePostEnvelope body =
     (case body_json PERSONAS_POST_MARKER body of
        None \<Rightarrow> None
      | Some parsed \<Rightarrow>
        (case jget_str parsed ''r'' of
           None \<Rightarrow> None
         | Some r \<Rightarrow> Some \<lparr>env_r = r, env_b = jget_str parsed ''b'', env_c = jget_str parsed ''c''\<rparr>))"

definition decodePostBadge :: "string option \<Rightarrow> string option" where
  "decodePostBadge body =
     (if \<not> marked body PERSONAS_POST_MARKER then None
      else Option.bind (parsePostEnvelope (the body)) env_b)"

definition decodePostContextName :: "string option \<Rightarrow> string option" where
  "decodePostContextName body =
     (if \<not> marked body PERSONAS_POST_MARKER then None
      else Option.bind (parsePostEnvelope (the body)) env_c)"

section \<open>Polls\<close>

datatype poll_kind = BanPoll | StandardPoll

record PersonaPollDescriptor =
  pd_question :: string
  pd_options :: "string list"
  pd_kind :: poll_kind
  pd_silent :: bool

definition kind_text :: "poll_kind \<Rightarrow> string" where
  "kind_text k = (case k of BanPoll \<Rightarrow> ''ban'' | StandardPoll \<Rightarrow> ''standard'')"

definition encodePollBody :: "string \<Rightarrow> PersonaPollDescriptor \<Rightarrow> string" where
  "encodePollBody bytes descriptor =
     json_body PERSONAS_POLL_MARKER
       (JObj ([(''r'', JStr (b64_encode bytes)), (''q'', JStr (pd_question descriptor)),
               (''o'', JArr (map JStr (pd_options descriptor))),
               (''k'', JStr (kind_text (pd_kind descriptor)))]
              @ (if pd_silent descriptor then [(''s'', JBool True)] else [])))"

record poll_envelope =
  pe_r :: string
  pe_q :: string
  pe_o :: "json list"
  pe_k :: "json option"
  pe_s :: "json option"

definition parsePollEnvelope :: "string \<Rightarrow> poll_envelope option" where
  "parsePollEnvelope body =
     (case body_json PERSONAS_POLL_MARKER body of
        None \<Rightarrow> None
      | Some parsed \<Rightarrow>
        (case (jget_str parsed ''r'', jget_str parsed ''q'', jget parsed ''o'') of
           (Some r, Some q, Some (JArr os)) \<Rightarrow>
             Some \<lparr>pe_r = r, pe_q = q, pe_o = os, pe_k = jget parsed ''k'', pe_s = jget parsed ''s''\<rparr>
         | _ \<Rightarrow> None))"

text \<open>\<^verbatim>\<open>String(v)\<close> of a parsed value.\<close>

fun js_String :: "json \<Rightarrow> string" where
  "js_String JNull = ''null''"
| "js_String (JBool b) = (if b then ''true'' else ''false'')"
| "js_String (JNum n) =
     (case n of Fin _ \<Rightarrow> num_text n | PInf \<Rightarrow> ''Infinity'' | NInf \<Rightarrow> ''-Infinity'' | NaN \<Rightarrow> ''NaN'')"
| "js_String (JStr s) = s"
| "js_String (JArr vs) = commas (map (\<lambda>v. if v = JNull then [] else js_String v) vs)"
| "js_String (JObj _) = ''[object Object]''"

definition decodePollDescriptor :: "string option \<Rightarrow> PersonaPollDescriptor option" where
  "decodePollDescriptor body =
     (if \<not> marked body PERSONAS_POLL_MARKER then None
      else
        (case parsePollEnvelope (the body) of
           None \<Rightarrow> None
         | Some e \<Rightarrow>
           Some \<lparr>pd_question = pe_q e, pd_options = map js_String (pe_o e),
                 pd_kind = (if pe_k e = Some (JStr ''ban'') then BanPoll else StandardPoll),
                 pd_silent = (pe_s e = Some (JBool True))\<rparr>))"

section \<open>The record behind a body, and its routing\<close>

definition decodeRecordBody :: "string option \<Rightarrow> string option" where
  "decodeRecordBody body0 =
     (case body0 of
        None \<Rightarrow> None
      | Some body \<Rightarrow>
        (if body = [] then None
         else
           (case List.find (\<lambda>m. starts_with body m) ALL_MARKERS of
              None \<Rightarrow> None
            | Some marker \<Rightarrow>
              (if marker = PERSONAS_POLL_MARKER then
                 map_option (\<lambda>e. b64_decode (pe_r e)) (parsePollEnvelope body)
               else
                 (case (if marker = PERSONAS_POST_MARKER then parsePostEnvelope body else None) of
                    Some e \<Rightarrow> Some (b64_decode (env_r e))
                  | None \<Rightarrow> Some (b64_decode (drop (length marker) body)))))))"

definition isPersonaPhantomBody :: "string option \<Rightarrow> bool" where
  "isPersonaPhantomBody body =
     (case body of
        None \<Rightarrow> False
      | Some s \<Rightarrow> (if s = [] then False else list_ex (\<lambda>m. starts_with s m) PHANTOM_MARKERS))"

text \<open>The test \<^verbatim>\<open>/^PZ[A-Z][0-9]:/\<close>.\<close>

definition isPersonasCarriage :: "string option \<Rightarrow> bool" where
  "isPersonasCarriage body =
     (case body of
        Some (p # z # k # d # c # _) \<Rightarrow>
          p = CHR ''P'' \<and> z = CHR ''Z'' \<and> 65 \<le> code_of k \<and> code_of k \<le> 90 \<and> is_digit d \<and> c = CHR '':''
      | _ \<Rightarrow> False)"

section \<open>Topic announcements\<close>

record PersonaTopicAnnouncement =
  ta_name :: string
  ta_context :: rat

definition encodeTopicAnnouncement :: "PersonaTopicAnnouncement \<Rightarrow> string" where
  "encodeTopicAnnouncement a =
     json_body PERSONAS_TOPIC_MARKER
       (JObj [(''name'', JStr (ta_name a)), (''context'', JNum (Fin (ta_context a)))])"

definition decodeTopicAnnouncement :: "string option \<Rightarrow> PersonaTopicAnnouncement option" where
  "decodeTopicAnnouncement body =
     (if \<not> marked body PERSONAS_TOPIC_MARKER then None
      else
        (case body_json PERSONAS_TOPIC_MARKER (the body) of
           None \<Rightarrow> None
         | Some parsed \<Rightarrow>
           (case (jget_str parsed ''name'', jget_num parsed ''context'') of
              (Some name, Some (Fin c)) \<Rightarrow> Some \<lparr>ta_name = name, ta_context = c\<rparr>
            | _ \<Rightarrow> None)))"

section \<open>Phantom bundles\<close>

text \<open>
  The decoder checks \<^verbatim>\<open>schedule.periodMs > 0\<close>, a comparison that converts its operand, and
  hands the parsed value on; the period is therefore a \<open>json\<close> here, and \<open>js_to_number\<close> is the
  conversion.
\<close>

fun js_to_number :: "json \<Rightarrow> jsnum" where
  "js_to_number JNull = Fin 0"
| "js_to_number (JBool b) = Fin (if b then 1 else 0)"
| "js_to_number (JNum n) = n"
| "js_to_number (JStr s) = js_Number s"
| "js_to_number (JArr vs) = js_Number (js_String (JArr vs))"
| "js_to_number (JObj _) = NaN"

record PersonaPhantomBundleWire =
  pb_groupId :: string
  pb_trustRootPublic :: string
  pb_phantomIdentityKeyPair :: string
  pb_phantomCert :: string
  pb_distributionId :: string
  pb_skdm :: string
  pb_chainRecord :: string
  pb_anchorMs :: rat
  pb_periodMs :: json

definition phantom_wire_json :: "PersonaPhantomBundleWire \<Rightarrow> json" where
  "phantom_wire_json b =
     JObj [(''v'', JNum (Fin 2)), (''groupId'', JStr (pb_groupId b)),
           (''trustRootPublic'', JStr (pb_trustRootPublic b)),
           (''phantomIdentityKeyPair'', JStr (pb_phantomIdentityKeyPair b)),
           (''phantomCert'', JStr (pb_phantomCert b)),
           (''distributionId'', JStr (pb_distributionId b)), (''skdm'', JStr (pb_skdm b)),
           (''chainRecord'', JStr (pb_chainRecord b)),
           (''schedule'', JObj [(''anchorMs'', JNum (Fin (pb_anchorMs b))), (''periodMs'', pb_periodMs b)])]"

definition encodePhantomBundle :: "PersonaPhantomBundleWire \<Rightarrow> string" where
  "encodePhantomBundle b = json_body PERSONAS_PHANTOM_BUNDLE_MARKER (phantom_wire_json b)"

definition nonempty_str :: "json \<Rightarrow> string \<Rightarrow> string option" where
  "nonempty_str v k = (case jget_str v k of Some s \<Rightarrow> if s = [] then None else Some s | None \<Rightarrow> None)"

definition decodePhantomBundle :: "string option \<Rightarrow> PersonaPhantomBundleWire option" where
  "decodePhantomBundle body =
     (if \<not> marked body PERSONAS_PHANTOM_BUNDLE_MARKER then None
      else
        (case body_json PERSONAS_PHANTOM_BUNDLE_MARKER (the body) of
           None \<Rightarrow> None
         | Some parsed \<Rightarrow>
           (if jget parsed ''v'' \<noteq> Some (JNum (Fin 2)) then None
            else
              (case (nonempty_str parsed ''groupId'', nonempty_str parsed ''trustRootPublic'',
                     nonempty_str parsed ''phantomIdentityKeyPair'', nonempty_str parsed ''phantomCert'',
                     nonempty_str parsed ''distributionId'', nonempty_str parsed ''skdm'',
                     nonempty_str parsed ''chainRecord'', jget parsed ''schedule'') of
                 (Some g, Some t, Some i, Some c, Some d, Some k, Some r, Some sch) \<Rightarrow>
                   (case (jget_num sch ''anchorMs'', jget sch ''periodMs'') of
                      (Some (Fin a), Some p) \<Rightarrow>
                        (if num_pos (js_to_number p)
                         then Some \<lparr>pb_groupId = g, pb_trustRootPublic = t, pb_phantomIdentityKeyPair = i,
                                    pb_phantomCert = c, pb_distributionId = d, pb_skdm = k,
                                    pb_chainRecord = r, pb_anchorMs = a, pb_periodMs = p\<rparr>
                         else None)
                    | _ \<Rightarrow> None)
               | _ \<Rightarrow> None))))"

section \<open>Authorship claims of the unproved kind\<close>

record PersonaAuthorshipClaim =
  ac_first :: string
  ac_second :: string

definition decodeAuthorshipClaim :: "string option \<Rightarrow> PersonaAuthorshipClaim option" where
  "decodeAuthorshipClaim body =
     (if \<not> marked body PERSONAS_AUTHORSHIP_MARKER then None
      else
        (case body_json PERSONAS_AUTHORSHIP_MARKER (the body) of
           None \<Rightarrow> None
         | Some parsed \<Rightarrow>
           (case (jget_str parsed ''a'', jget_str parsed ''b'') of
              (Some a, Some b) \<Rightarrow> Some \<lparr>ac_first = a, ac_second = b\<rparr>
            | _ \<Rightarrow> None)))"

section \<open>Reset requests\<close>

record PersonaResetRequestWire =
  rr_a :: string
  rr_p :: "string option"
  rr_r :: "string option"

definition encodeResetRequest :: "PersonaResetRequestWire \<Rightarrow> string" where
  "encodeResetRequest q =
     json_body PERSONAS_RESET_REQUEST_MARKER
       (JObj ([(''a'', JStr (rr_a q)), (''p'', case rr_p q of None \<Rightarrow> JNull | Some p \<Rightarrow> JStr p)]
              @ opt_member ''r'' JStr (rr_r q)))"

text \<open>The test \<^verbatim>\<open>/^[0-9a-f]{32}$/\<close>.\<close>

definition is_lower_hex :: "char \<Rightarrow> bool" where
  "is_lower_hex c = (is_digit c \<or> 97 \<le> code_of c \<and> code_of c \<le> 102)"

definition is_account_hex :: "string \<Rightarrow> bool" where
  "is_account_hex s = (length s = 32 \<and> list_all is_lower_hex s)"

definition decodeResetRequest :: "string option \<Rightarrow> PersonaResetRequestWire option" where
  "decodeResetRequest body =
     (if \<not> marked body PERSONAS_RESET_REQUEST_MARKER then None
      else
        (case body_json PERSONAS_RESET_REQUEST_MARKER (the body) of
           None \<Rightarrow> None
         | Some parsed \<Rightarrow>
           (case jget_str parsed ''a'' of
              None \<Rightarrow> None
            | Some a \<Rightarrow>
              (if \<not> is_account_hex a
                  \<or> (jget parsed ''p'' \<notin> {None, Some JNull} \<and> jget_str parsed ''p'' = None)
                  \<or> (jget parsed ''r'' \<noteq> None \<and> jget_str parsed ''r'' = None)
               then None
               else Some \<lparr>rr_a = a, rr_p = jget_str parsed ''p'',
                          rr_r = (case jget_str parsed ''r'' of
                                    Some r \<Rightarrow> if r = [] then None else Some (utf16_take 200 r)
                                  | None \<Rightarrow> None)\<rparr>))))"

section \<open>Relayed records\<close>

definition encodeRelayBody :: "int \<Rightarrow> string \<Rightarrow> string" where
  "encodeRelayBody barrier rec = PERSONAS_RELAY_MARKER @ show_int barrier @ CHR '':'' # b64_encode rec"

definition decodeRelayBody :: "string option \<Rightarrow> (int \<times> string) option" where
  "decodeRelayBody body =
     (if \<not> marked body PERSONAS_RELAY_MARKER then None
      else
        (let rest = drop (length PERSONAS_RELAY_MARKER) (the body) in
         case index_of rest CHR '':'' of
           None \<Rightarrow> None
         | Some colon \<Rightarrow>
           (let barrier = js_Number (take colon rest) in
            if \<not> is_safe_integer barrier \<or> int_of barrier < 0 then None
            else
              (let rec = b64_decode (drop (colon + 1) rest) in
               if rec \<noteq> [] then Some (int_of barrier, rec) else None))))"

section \<open>Late-join catch-up\<close>

definition CATCH_UP_PART_DATA_CHARS :: nat where "CATCH_UP_PART_DATA_CHARS = 1400"

record PersonaCatchUpPartWire =
  cu_g :: string
  cu_s :: string
  cu_i :: int
  cu_n :: int
  cu_d :: string

definition encodeCatchUpRequest :: string where
  "encodeCatchUpRequest = json_body PERSONAS_CATCH_UP_REQUEST_MARKER (JObj [(''v'', JNum (Fin 1))])"

definition isCatchUpRequest :: "string option \<Rightarrow> bool" where
  "isCatchUpRequest body = marked body PERSONAS_CATCH_UP_REQUEST_MARKER"

definition part_count :: "string \<Rightarrow> nat" where
  "part_count data = max 1 ((length data + CATCH_UP_PART_DATA_CHARS - 1) div CATCH_UP_PART_DATA_CHARS)"

definition catch_up_wire :: "string \<Rightarrow> string \<Rightarrow> string \<Rightarrow> nat \<Rightarrow> PersonaCatchUpPartWire" where
  "catch_up_wire g s data i =
     \<lparr>cu_g = g, cu_s = s, cu_i = int i, cu_n = int (part_count data),
      cu_d = slice (i * CATCH_UP_PART_DATA_CHARS) ((i + 1) * CATCH_UP_PART_DATA_CHARS) data\<rparr>"

definition part_body :: "PersonaCatchUpPartWire \<Rightarrow> string" where
  "part_body w =
     json_body PERSONAS_CATCH_UP_PART_MARKER
       (JObj [(''g'', JStr (cu_g w)), (''s'', JStr (cu_s w)), (''i'', JNum (js_int (cu_i w))),
              (''n'', JNum (js_int (cu_n w))), (''d'', JStr (cu_d w))])"

definition encodeCatchUpParts :: "string \<Rightarrow> string \<Rightarrow> string \<Rightarrow> string list" where
  "encodeCatchUpParts groupId copyId history =
     (let data = b64_encode history
      in map (\<lambda>i. part_body (catch_up_wire groupId copyId data i)) [0..<part_count data])"

definition decodeCatchUpPart :: "string option \<Rightarrow> PersonaCatchUpPartWire option" where
  "decodeCatchUpPart body =
     (if \<not> marked body PERSONAS_CATCH_UP_PART_MARKER then None
      else
        (case body_json PERSONAS_CATCH_UP_PART_MARKER (the body) of
           None \<Rightarrow> None
         | Some parsed \<Rightarrow>
           (case (jget_str parsed ''g'', jget_str parsed ''s'', jget_str parsed ''d'',
                  jget_num parsed ''i'', jget_num parsed ''n'') of
              (Some g, Some s, Some d, Some i, Some n) \<Rightarrow>
                (if \<not> is_integer i \<or> \<not> is_integer n \<or> int_of n < 1 \<or> int_of n > 10000
                    \<or> int_of i < 0 \<or> int_of i \<ge> int_of n
                 then None
                 else Some \<lparr>cu_g = g, cu_s = s, cu_i = int_of i, cu_n = int_of n, cu_d = d\<rparr>)
            | _ \<Rightarrow> None)))"

section \<open>The codec contract\<close>

text \<open>
  What the receive path relies on: an encoder writes one of the markers it owns, its decoder
  answers for those markers only, and gives back what was encoded.
\<close>

locale marked_codec =
  fixes markers :: "string list"
    and ok :: "'a \<Rightarrow> bool"
    and enc :: "'a \<Rightarrow> string"
    and dec :: "string option \<Rightarrow> 'a option"
  assumes marker_length: "m \<in> set markers \<Longrightarrow> length m = 5"
    and enc_marked: "\<exists>m \<in> set markers. starts_with (enc x) m"
    and dec_marked: "dec b = Some x \<Longrightarrow> \<exists>s m. b = Some s \<and> m \<in> set markers \<and> starts_with s m"
    and dec_enc: "ok x \<Longrightarrow> dec (Some (enc x)) = Some x"
begin

lemma dec_undefined: "dec None = None"
  using dec_marked [of None] by (cases "dec None") auto

lemma enc_inj_ok: "ok x \<Longrightarrow> ok y \<Longrightarrow> enc x = enc y \<longleftrightarrow> x = y"
  by (metis dec_enc option.inject)

lemma dec_foreign:
  assumes "length m = 5" and "starts_with s m" and "m \<notin> set markers"
  shows "dec (Some s) = None"
proof (rule ccontr)
  assume "dec (Some s) \<noteq> None"
  then obtain x where "dec (Some s) = Some x" by auto
  then obtain m' where "m' \<in> set markers" "starts_with s m'"
    using dec_marked by blast
  with assms marker_length [of m'] have "m' = m"
    by (simp add: starts_with_def)
  with \<open>m' \<in> set markers\<close> assms(3) show False by simp
qed

end

text \<open>Two codecs with different markers never read each other's bodies.\<close>

locale codec_pair =
  a: marked_codec m1 ok1 enc1 dec1 + b: marked_codec m2 ok2 enc2 dec2
  for m1 ok1 and enc1 :: "'a \<Rightarrow> string" and dec1 and m2 ok2 and enc2 :: "'b \<Rightarrow> string" and dec2 +
  assumes disjoint: "set m1 \<inter> set m2 = {}"
begin

lemma no_confusion: "dec2 (Some (enc1 x)) = None" "dec1 (Some (enc2 y)) = None"
  using disjoint a.enc_marked [of x] b.enc_marked [of y] a.marker_length b.marker_length
    a.dec_foreign b.dec_foreign
  by (metis disjoint_iff)+

end

lemmas codec_defs =
  encodeRecordBody_def encodeBadgeBody_def encodeVoteBody_def encodeRateBody_def
  encodeAuthorshipProof_def encodeBadgeProof_def encodePollBody_def encodePostBody_def
  encodeTopicAnnouncement_def encodePhantomBundle_def encodeResetRequest_def encodeRelayBody_def
  part_body_def json_body_def

lemma find_marker_append:
  "length m = 5 \<Longrightarrow> (\<forall>k \<in> set ks. length k = 5) \<Longrightarrow>
   List.find (\<lambda>k. starts_with (m @ s) k) ks = (if m \<in> set ks then Some m else None)"
  by (induction ks) (auto simp: starts_with_append_iff)

lemma ALL_MARKERS_length: "m \<in> set ALL_MARKERS \<Longrightarrow> length m = 5"
  by (auto simp: ALL_MARKERS_def marker_defs)

lemma decodeRecordBody_marked:
  "decodeRecordBody b = Some x \<Longrightarrow> \<exists>s m. b = Some s \<and> m \<in> set ALL_MARKERS \<and> starts_with s m"
  by (auto simp: decodeRecordBody_def find_Some_iff nth_mem split: option.splits if_splits)
     (metis nth_mem)+

lemma decodeRecordBody_marker:
  assumes "m \<in> set ALL_MARKERS"
  shows "decodeRecordBody (Some (m @ s)) =
    (if m = PERSONAS_POLL_MARKER then map_option (\<lambda>e. b64_decode (pe_r e)) (parsePollEnvelope (m @ s))
     else case (if m = PERSONAS_POST_MARKER then parsePostEnvelope (m @ s) else None) of
            Some e \<Rightarrow> Some (b64_decode (env_r e)) | None \<Rightarrow> Some (b64_decode s))"
proof -
  have "List.find (\<lambda>k. starts_with (m @ s) k) ALL_MARKERS = Some m"
    using assms ALL_MARKERS_length by (simp add: find_marker_append)
  moreover have "m @ s \<noteq> []" "drop (length m) (m @ s) = s"
    using ALL_MARKERS_length [OF assms] by auto
  moreover define body where "body = m @ s"
  ultimately show ?thesis
    unfolding body_def [symmetric] by (simp only: decodeRecordBody_def option.case if_False)
qed

lemma decode_plain:
  assumes "m \<in> {PERSONAS_MARKER, PERSONAS_VOTE_MARKER, PERSONAS_RATE_MARKER, PERSONAS_BADGE_MARKER}"
  shows "decodeRecordBody (Some (m @ b64_encode bs)) = Some bs"
proof -
  have "m \<in> set ALL_MARKERS" "m \<noteq> PERSONAS_POLL_MARKER" "m \<noteq> PERSONAS_POST_MARKER"
    using assms by (auto simp: ALL_MARKERS_def marker_defs)
  then show ?thesis by (simp add: decodeRecordBody_marker)
qed

lemma decodeRecordBody_codec:
  assumes "m \<in> {PERSONAS_MARKER, PERSONAS_VOTE_MARKER, PERSONAS_RATE_MARKER, PERSONAS_BADGE_MARKER}"
    and "\<And>bs. enc bs = m @ b64_encode bs"
  shows "marked_codec ALL_MARKERS (\<lambda>_. True) enc decodeRecordBody"
proof
  have "m \<in> set ALL_MARKERS" using assms(1) by (auto simp: ALL_MARKERS_def)
  then show "\<exists>m \<in> set ALL_MARKERS. starts_with (enc x) m" for x
    using assms(2) by (intro bexI [of _ m]) auto
  show "decodeRecordBody (Some (enc x)) = Some x" for x
    using assms decode_plain by simp
qed (use ALL_MARKERS_length decodeRecordBody_marked in auto)

interpretation record_codec: marked_codec ALL_MARKERS "\<lambda>_. True" encodeRecordBody decodeRecordBody
  by (rule decodeRecordBody_codec [of PERSONAS_MARKER]) (simp_all add: encodeRecordBody_def)

interpretation badge_codec: marked_codec ALL_MARKERS "\<lambda>_. True" encodeBadgeBody decodeRecordBody
  by (rule decodeRecordBody_codec [of PERSONAS_BADGE_MARKER]) (simp_all add: encodeBadgeBody_def)

interpretation vote_codec: marked_codec ALL_MARKERS "\<lambda>_. True" encodeVoteBody decodeRecordBody
  by (rule decodeRecordBody_codec [of PERSONAS_VOTE_MARKER]) (simp_all add: encodeVoteBody_def)

interpretation rate_codec: marked_codec ALL_MARKERS "\<lambda>_. True" encodeRateBody decodeRecordBody
  by (rule decodeRecordBody_codec [of PERSONAS_RATE_MARKER]) (simp_all add: encodeRateBody_def)

lemma poll_envelope_roundtrip:
  "parsePollEnvelope (encodePollBody bytes d) =
     Some \<lparr>pe_r = b64_encode bytes, pe_q = pd_question d, pe_o = map JStr (pd_options d),
           pe_k = Some (JStr (kind_text (pd_kind d))),
           pe_s = (if pd_silent d then Some (JBool True) else None)\<rparr>"
  unfolding parsePollEnvelope_def encodePollBody_def
  by (subst body_json_body) (auto simp: jget_str_def)

lemma encodePollBody_marked: "marked (Some (encodePollBody bytes d)) PERSONAS_POLL_MARKER"
  by (simp add: encodePollBody_def json_body_def)

lemma kind_text_ban [simp]: "kind_text k = ''ban'' \<longleftrightarrow> k = BanPoll"
  by (cases k) (simp_all add: kind_text_def)

interpretation poll_record_codec:
  marked_codec ALL_MARKERS "\<lambda>_. True" "\<lambda>bytes. encodePollBody bytes d" decodeRecordBody for d
proof
  show "\<exists>m \<in> set ALL_MARKERS. starts_with (encodePollBody x d) m" for x
    by (intro bexI [of _ PERSONAS_POLL_MARKER]) (simp_all add: codec_defs ALL_MARKERS_def)
  have "PERSONAS_POLL_MARKER \<in> set ALL_MARKERS" by (simp add: ALL_MARKERS_def)
  then show "decodeRecordBody (Some (encodePollBody x d)) = Some x" for x
    using poll_envelope_roundtrip [of x d] decodeRecordBody_marker [of PERSONAS_POLL_MARKER]
    by (simp add: encodePollBody_def json_body_def)
qed (use ALL_MARKERS_length decodeRecordBody_marked in auto)

interpretation poll_descriptor_codec:
  marked_codec "[PERSONAS_POLL_MARKER]" "\<lambda>_. True" "encodePollBody bytes" decodePollDescriptor for bytes
proof
  show "decodePollDescriptor (Some (encodePollBody bytes x)) = Some x" for x
    using poll_envelope_roundtrip [of bytes x] encodePollBody_marked [of bytes x]
    by (cases x; cases "pd_kind x") (auto simp: decodePollDescriptor_def o_def)
  show "\<exists>s m. b = Some s \<and> m \<in> set [PERSONAS_POLL_MARKER] \<and> starts_with s m"
    if "decodePollDescriptor b = Some x" for b x
    using that by (auto simp: decodePollDescriptor_def marked_def split: if_splits option.splits)
qed (auto simp: codec_defs marker_defs starts_with_def)

text \<open>A post round trips in both its shapes; a plain one must not itself read as an envelope.\<close>

definition post_unambiguous :: "string \<times> string option \<times> string option \<Rightarrow> bool" where
  "post_unambiguous p =
     (case p of (bytes, badge, ctx) \<Rightarrow>
        truthy_str badge \<or> truthy_str ctx
        \<or> (case json_parse bytes of Some v \<Rightarrow> jget_str v ''r'' = None | None \<Rightarrow> True))"

lemma post_envelope_roundtrip:
  "truthy_str badge \<or> truthy_str ctx \<Longrightarrow>
   parsePostEnvelope (encodePostBody bytes badge ctx) =
     Some \<lparr>env_r = b64_encode bytes, env_b = badge, env_c = ctx\<rparr>"
  unfolding parsePostEnvelope_def encodePostBody_def
  by (simp add: Let_def, subst body_json_body)
     (auto simp: opt_member_def jget_str_def split: option.split)

lemma plain_post_envelope:
  "\<not> truthy_str badge \<Longrightarrow> \<not> truthy_str ctx \<Longrightarrow>
   parsePostEnvelope (encodePostBody bytes badge ctx) =
     (case json_parse bytes of None \<Rightarrow> None | Some v \<Rightarrow>
        (case jget_str v ''r'' of None \<Rightarrow> None
         | Some r \<Rightarrow> Some \<lparr>env_r = r, env_b = jget_str v ''b'', env_c = jget_str v ''c''\<rparr>))"
  by (simp add: parsePostEnvelope_def encodePostBody_def body_json_def Let_def)

lemma encodePostBody_marked: "\<exists>s. encodePostBody bytes badge ctx = PERSONAS_POST_MARKER @ s"
  by (simp add: encodePostBody_def json_body_def Let_def)

lemma decode_post:
  assumes "post_unambiguous (bytes, badge, ctx)"
  shows "decodeRecordBody (Some (encodePostBody bytes badge ctx)) = Some bytes"
proof -
  obtain s where s: "encodePostBody bytes badge ctx = PERSONAS_POST_MARKER @ s"
    using encodePostBody_marked by blast
  have m: "PERSONAS_POST_MARKER \<in> set ALL_MARKERS" "PERSONAS_POST_MARKER \<noteq> PERSONAS_POLL_MARKER"
    by (simp_all add: ALL_MARKERS_def marker_defs)
  show ?thesis
  proof (cases "truthy_str badge \<or> truthy_str ctx")
    case True
    then show ?thesis
      using post_envelope_roundtrip [OF True, of bytes] m s by (simp add: decodeRecordBody_marker)
  next
    case False
    then have "encodePostBody bytes badge ctx = PERSONAS_POST_MARKER @ b64_encode bytes"
      by (simp add: encodePostBody_def)
    moreover from False assms have "parsePostEnvelope (encodePostBody bytes badge ctx) = None"
      by (auto simp: plain_post_envelope post_unambiguous_def split: option.splits)
    ultimately show ?thesis
      using m by (simp add: decodeRecordBody_marker)
  qed
qed

interpretation post_codec:
  marked_codec ALL_MARKERS "\<lambda>bytes. post_unambiguous (bytes, badge, ctx)"
    "\<lambda>bytes. encodePostBody bytes badge ctx" decodeRecordBody for badge ctx
proof
  show "\<exists>m \<in> set ALL_MARKERS. starts_with (encodePostBody x badge ctx) m" for x
    using encodePostBody_marked [of x badge ctx]
    by (intro bexI [of _ PERSONAS_POST_MARKER]) (auto simp: ALL_MARKERS_def)
qed (use ALL_MARKERS_length decodeRecordBody_marked decode_post in auto)


section \<open>The other codecs\<close>

lemma dec_needs_marker:
  "marked b m \<Longrightarrow> \<exists>s k. b = Some s \<and> k \<in> set [m] \<and> starts_with s k"
  by (auto simp: marked_def split: option.splits)

lemma json_body_marked [simp]: "marked (Some (json_body m v)) m" "starts_with (json_body m v) m"
  by (simp_all add: json_body_def)

interpretation authorship_codec:
  marked_codec "[PERSONAS_AUTHORSHIP_MARKER]" "\<lambda>_. True" encodeAuthorshipProof decodeAuthorshipProof
proof
  show "\<exists>s m. b = Some s \<and> m \<in> set [PERSONAS_AUTHORSHIP_MARKER] \<and> starts_with s m"
    if "decodeAuthorshipProof b = Some x" for b x
    using that by (intro dec_needs_marker) (auto simp: decodeAuthorshipProof_def split: if_splits)
qed (auto simp: codec_defs decodeAuthorshipProof_def PERSONAS_AUTHORSHIP_MARKER_def starts_with_def marked_def)

interpretation badge_proof_codec:
  marked_codec "[PERSONAS_BADGE_PROOF_MARKER]" "\<lambda>_. True" encodeBadgeProof decodeBadgeProof
proof
  show "\<exists>s m. b = Some s \<and> m \<in> set [PERSONAS_BADGE_PROOF_MARKER] \<and> starts_with s m"
    if "decodeBadgeProof b = Some x" for b x
    using that by (intro dec_needs_marker) (auto simp: decodeBadgeProof_def split: if_splits)
qed (auto simp: codec_defs decodeBadgeProof_def PERSONAS_BADGE_PROOF_MARKER_def starts_with_def marked_def)

definition topic_ok :: "PersonaTopicAnnouncement \<Rightarrow> bool" where
  "topic_ok a = is_safe_integer (Fin (ta_context a))"

interpretation topic_codec:
  marked_codec "[PERSONAS_TOPIC_MARKER]" topic_ok encodeTopicAnnouncement decodeTopicAnnouncement
proof
  show "decodeTopicAnnouncement (Some (encodeTopicAnnouncement x)) = Some x" if "topic_ok x" for x
    using that
    by (simp add: decodeTopicAnnouncement_def encodeTopicAnnouncement_def body_json_body topic_ok_def
        jget_str_def jget_num_def)
  show "\<exists>s m. b = Some s \<and> m \<in> set [PERSONAS_TOPIC_MARKER] \<and> starts_with s m"
    if "decodeTopicAnnouncement b = Some x" for b x
    using that by (intro dec_needs_marker) (auto simp: decodeTopicAnnouncement_def split: if_splits)
qed (simp_all add: encodeTopicAnnouncement_def PERSONAS_TOPIC_MARKER_def)

definition bundle_ok :: "PersonaPhantomBundleWire \<Rightarrow> bool" where
  "bundle_ok b =
     (pb_groupId b \<noteq> [] \<and> pb_trustRootPublic b \<noteq> [] \<and> pb_phantomIdentityKeyPair b \<noteq> []
      \<and> pb_phantomCert b \<noteq> [] \<and> pb_distributionId b \<noteq> [] \<and> pb_skdm b \<noteq> [] \<and> pb_chainRecord b \<noteq> []
      \<and> is_safe_integer (Fin (pb_anchorMs b)) \<and> json_ok (pb_periodMs b)
      \<and> num_pos (js_to_number (pb_periodMs b)))"

lemma safe_2 [simp]: "is_safe_integer (Fin 2)"
  using is_integer_js_int [of 2] int_of_js_int [of 2]
  by (simp add: is_safe_integer_def js_int_def max_safe_def)

lemma bundle_roundtrip:
  assumes "bundle_ok x"
  shows "decodePhantomBundle (Some (encodePhantomBundle x)) = Some x"
  using assms unfolding encodePhantomBundle_def phantom_wire_json_def bundle_ok_def
  by (simp add: decodePhantomBundle_def body_json_body jget_str_def jget_num_def nonempty_str_def)

interpretation bundle_codec:
  marked_codec "[PERSONAS_PHANTOM_BUNDLE_MARKER]" bundle_ok encodePhantomBundle decodePhantomBundle
proof
  show "\<exists>s m. b = Some s \<and> m \<in> set [PERSONAS_PHANTOM_BUNDLE_MARKER] \<and> starts_with s m"
    if "decodePhantomBundle b = Some x" for b x
    using that by (intro dec_needs_marker) (auto simp: decodePhantomBundle_def split: if_splits)
qed (simp_all add: encodePhantomBundle_def PERSONAS_PHANTOM_BUNDLE_MARKER_def
      bundle_roundtrip [unfolded encodePhantomBundle_def PERSONAS_PHANTOM_BUNDLE_MARKER_def])

definition reset_ok :: "PersonaResetRequestWire \<Rightarrow> bool" where
  "reset_ok q =
     (is_account_hex (rr_a q)
      \<and> (case rr_r q of None \<Rightarrow> True | Some r \<Rightarrow> r \<noteq> [] \<and> utf16_length r \<le> 200))"

lemma reset_roundtrip:
  assumes "reset_ok x"
  shows "decodeResetRequest (Some (encodeResetRequest x)) = Some x"
  using assms unfolding encodeResetRequest_def reset_ok_def
  by (cases "rr_p x"; cases "rr_r x")
     (simp_all add: decodeResetRequest_def body_json_body jget_str_def opt_member_def utf16_take_all)

interpretation reset_codec:
  marked_codec "[PERSONAS_RESET_REQUEST_MARKER]" reset_ok encodeResetRequest decodeResetRequest
proof
  show "\<exists>s m. b = Some s \<and> m \<in> set [PERSONAS_RESET_REQUEST_MARKER] \<and> starts_with s m"
    if "decodeResetRequest b = Some x" for b x
    using that by (intro dec_needs_marker) (auto simp: decodeResetRequest_def split: if_splits)
  show "\<exists>m \<in> set [PERSONAS_RESET_REQUEST_MARKER]. starts_with (encodeResetRequest x) m" for x
    by (simp add: encodeResetRequest_def)
qed (auto simp: PERSONAS_RESET_REQUEST_MARKER_def intro: reset_roundtrip)

definition relay_ok :: "int \<times> string \<Rightarrow> bool" where
  "relay_ok p = (0 \<le> fst p \<and> fst p \<le> max_safe \<and> snd p \<noteq> [])"

lemma show_int_no_colon: "0 \<le> n \<Longrightarrow> CHR '':'' \<notin> set (show_int n)"
  using show_nat_digits [of "CHR '':''"] by (auto simp: show_int_def is_digit_def code_of_def)

lemma relay_roundtrip:
  assumes "relay_ok (b, r)"
  shows "decodeRelayBody (Some (encodeRelayBody b r)) = Some (b, r)"
proof -
  have "index_of (show_int b @ CHR '':'' # b64_encode r) CHR '':'' = Some (length (show_int b))"
    using assms by (intro index_of_append show_int_no_colon) (simp add: relay_ok_def)
  with assms show ?thesis
    by (simp add: decodeRelayBody_def encodeRelayBody_def relay_ok_def js_Number_show_int is_safe_integer_def)
qed

interpretation relay_codec:
  marked_codec "[PERSONAS_RELAY_MARKER]" relay_ok "\<lambda>(b, r). encodeRelayBody b r" decodeRelayBody
proof
  show "\<exists>s m. b = Some s \<and> m \<in> set [PERSONAS_RELAY_MARKER] \<and> starts_with s m"
    if "decodeRelayBody b = Some x" for b x
    using that by (intro dec_needs_marker) (auto simp: decodeRelayBody_def split: if_splits)
qed (auto simp: encodeRelayBody_def intro: relay_roundtrip [unfolded encodeRelayBody_def],
      simp add: PERSONAS_RELAY_MARKER_def)

definition part_ok :: "PersonaCatchUpPartWire \<Rightarrow> bool" where
  "part_ok w = (0 \<le> cu_i w \<and> cu_i w < cu_n w \<and> cu_n w \<le> 10000)"

lemma part_roundtrip:
  assumes "part_ok w"
  shows "decodeCatchUpPart (Some (part_body w)) = Some w"
  using assms unfolding part_body_def part_ok_def
  by (simp add: decodeCatchUpPart_def body_json_body jget_str_def jget_num_def is_safe_integer_def max_safe_def)

interpretation part_codec:
  marked_codec "[PERSONAS_CATCH_UP_PART_MARKER]" part_ok part_body decodeCatchUpPart
proof
  show "\<exists>s m. b = Some s \<and> m \<in> set [PERSONAS_CATCH_UP_PART_MARKER] \<and> starts_with s m"
    if "decodeCatchUpPart b = Some x" for b x
    using that by (intro dec_needs_marker) (auto simp: decodeCatchUpPart_def split: if_splits)
  show "\<exists>m \<in> set [PERSONAS_CATCH_UP_PART_MARKER]. starts_with (part_body x) m" for x
    by (simp add: part_body_def)
qed (auto simp: PERSONAS_CATCH_UP_PART_MARKER_def intro: part_roundtrip)


text \<open>No control message is ever taken for a record, nor a record for a control message.\<close>

lemma foreign_markers [simp]:
  "m \<in> {PERSONAS_TOPIC_MARKER, PERSONAS_AUTHORSHIP_MARKER, PERSONAS_BADGE_PROOF_MARKER,
         PERSONAS_PHANTOM_BUNDLE_MARKER, PERSONAS_RESET_REQUEST_MARKER, PERSONAS_RELAY_MARKER,
         PERSONAS_CATCH_UP_REQUEST_MARKER, PERSONAS_CATCH_UP_PART_MARKER} \<Longrightarrow>
   set ALL_MARKERS \<inter> set [m] = {}"
  by (auto simp: ALL_MARKERS_def marker_defs)

interpretation record_topic: codec_pair ALL_MARKERS "\<lambda>_. True" encodeRecordBody decodeRecordBody
  "[PERSONAS_TOPIC_MARKER]" topic_ok encodeTopicAnnouncement decodeTopicAnnouncement
  by unfold_locales (rule foreign_markers, simp)

interpretation record_authorship: codec_pair ALL_MARKERS "\<lambda>_. True" encodeRecordBody decodeRecordBody
  "[PERSONAS_AUTHORSHIP_MARKER]" "\<lambda>_. True" encodeAuthorshipProof decodeAuthorshipProof
  by unfold_locales (rule foreign_markers, simp)

interpretation record_badge_proof: codec_pair ALL_MARKERS "\<lambda>_. True" encodeRecordBody decodeRecordBody
  "[PERSONAS_BADGE_PROOF_MARKER]" "\<lambda>_. True" encodeBadgeProof decodeBadgeProof
  by unfold_locales (rule foreign_markers, simp)

interpretation record_bundle: codec_pair ALL_MARKERS "\<lambda>_. True" encodeRecordBody decodeRecordBody
  "[PERSONAS_PHANTOM_BUNDLE_MARKER]" bundle_ok encodePhantomBundle decodePhantomBundle
  by unfold_locales (rule foreign_markers, simp)

interpretation record_reset: codec_pair ALL_MARKERS "\<lambda>_. True" encodeRecordBody decodeRecordBody
  "[PERSONAS_RESET_REQUEST_MARKER]" reset_ok encodeResetRequest decodeResetRequest
  by unfold_locales (rule foreign_markers, simp)

interpretation record_relay: codec_pair ALL_MARKERS "\<lambda>_. True" encodeRecordBody decodeRecordBody
  "[PERSONAS_RELAY_MARKER]" relay_ok "\<lambda>(b, r). encodeRelayBody b r" decodeRelayBody
  by unfold_locales (rule foreign_markers, simp)

interpretation record_part: codec_pair ALL_MARKERS "\<lambda>_. True" encodeRecordBody decodeRecordBody
  "[PERSONAS_CATCH_UP_PART_MARKER]" part_ok part_body decodeCatchUpPart
  by unfold_locales (rule foreign_markers, simp)

interpretation authorship_badge_proof:
  codec_pair "[PERSONAS_AUTHORSHIP_MARKER]" "\<lambda>_. True" encodeAuthorshipProof decodeAuthorshipProof
    "[PERSONAS_BADGE_PROOF_MARKER]" "\<lambda>_. True" encodeBadgeProof decodeBadgeProof
  by unfold_locales (simp add: marker_defs)

section \<open>Routing\<close>

lemma phantom_marker:
  assumes "length m = 5"
  shows "isPersonaPhantomBody (Some (m @ s)) \<longleftrightarrow> m \<in> set PHANTOM_MARKERS"
proof -
  have "\<forall>k \<in> set PHANTOM_MARKERS. length k = 5" by (auto simp: PHANTOM_MARKERS_def marker_defs)
  then have "list_ex (\<lambda>k. starts_with (m @ s) k) PHANTOM_MARKERS \<longleftrightarrow> m \<in> set PHANTOM_MARKERS"
    using assms by (auto simp: list_ex_iff starts_with_append_iff)
  moreover have "m @ s \<noteq> []" using assms by auto
  ultimately show ?thesis by (auto simp: isPersonaPhantomBody_def)
qed

lemma markers_length [simp]:
  "length PERSONAS_MARKER = 5" "length PERSONAS_POST_MARKER = 5" "length PERSONAS_POLL_MARKER = 5"
  "length PERSONAS_VOTE_MARKER = 5" "length PERSONAS_RATE_MARKER = 5" "length PERSONAS_BADGE_MARKER = 5"
  "length PERSONAS_TOPIC_MARKER = 5" "length PERSONAS_AUTHORSHIP_MARKER = 5"
  "length PERSONAS_BADGE_PROOF_MARKER = 5" "length PERSONAS_PHANTOM_BUNDLE_MARKER = 5"
  "length PERSONAS_RESET_REQUEST_MARKER = 5" "length PERSONAS_RELAY_MARKER = 5"
  "length PERSONAS_CATCH_UP_REQUEST_MARKER = 5" "length PERSONAS_CATCH_UP_PART_MARKER = 5"
  by (simp_all add: marker_defs)

lemma carriage_marker:
  "m \<in> set (ALL_MARKERS @ PHANTOM_MARKERS @
      [PERSONAS_TOPIC_MARKER, PERSONAS_PHANTOM_BUNDLE_MARKER, PERSONAS_RESET_REQUEST_MARKER,
       PERSONAS_RELAY_MARKER, PERSONAS_CATCH_UP_REQUEST_MARKER, PERSONAS_CATCH_UP_PART_MARKER]) \<Longrightarrow>
   isPersonasCarriage (Some (m @ s))"
  by (auto simp: ALL_MARKERS_def PHANTOM_MARKERS_def marker_defs isPersonasCarriage_def code_of_def is_digit_def)

section \<open>Splitting a history\<close>

lemma concat_slices:
  "concat (map (\<lambda>i. slice (i * k) ((i + 1) * k) d) [0..<n]) = take (n * k) d"
proof (induction n)
  case (Suc n)
  have "take (n * k) d @ take k (drop (n * k) d) = take (n * k + k) d" by (simp add: take_add)
  with Suc show ?case by (simp add: slice_def algebra_simps)
qed simp

lemma part_count_covers: "length data \<le> part_count data * CATCH_UP_PART_DATA_CHARS"
  unfolding part_count_def CATCH_UP_PART_DATA_CHARS_def by simp

lemma length_slice: "length (slice (i * k) ((i + 1) * k) d) \<le> k"
  by (simp add: slice_def)

lemma parts_concat:
  "concat (map (\<lambda>i. cu_d (catch_up_wire g s data i)) [0..<part_count data]) = data"
  using concat_slices [of CATCH_UP_PART_DATA_CHARS data "part_count data"] part_count_covers [of data]
  by (simp add: catch_up_wire_def)

lemma parts_decode:
  assumes "part_count data \<le> 10000" and "i < part_count data"
  shows "decodeCatchUpPart (Some (part_body (catch_up_wire g s data i))) = Some (catch_up_wire g s data i)"
  using assms by (intro part_roundtrip) (simp add: part_ok_def catch_up_wire_def)

section \<open>Properties\<close>

text \<open>C38. Every kind of body that carries a ledger record gives the record's bytes back: the
  attributable record, badge request, vote, rating and poll of any bytes, and a poll also its
  whole display descriptor.\<close>
theorem record_bodies_roundtrip:
  "decodeRecordBody (Some (encodeRecordBody bytes)) = Some bytes
   \<and> decodeRecordBody (Some (encodeBadgeBody bytes)) = Some bytes
   \<and> decodeRecordBody (Some (encodeVoteBody bytes)) = Some bytes
   \<and> decodeRecordBody (Some (encodeRateBody bytes)) = Some bytes
   \<and> decodeRecordBody (Some (encodePollBody bytes d)) = Some bytes
   \<and> decodePollDescriptor (Some (encodePollBody bytes d)) = Some d"
  using record_codec.dec_enc badge_codec.dec_enc vote_codec.dec_enc rate_codec.dec_enc
    poll_record_codec.dec_enc poll_descriptor_codec.dec_enc
  by simp

text \<open>C39. A post that carries a badge claim or a context name (a non-empty one) gives back its
  record bytes, its badge and its context name.\<close>
theorem post_body_roundtrip:
  assumes "truthy_str badge \<or> truthy_str ctx"
  shows "decodeRecordBody (Some (encodePostBody bytes badge ctx)) = Some bytes
    \<and> decodePostBadge (Some (encodePostBody bytes badge ctx)) = badge
    \<and> decodePostContextName (Some (encodePostBody bytes badge ctx)) = ctx"
proof -
  have "marked (Some (encodePostBody bytes badge ctx)) PERSONAS_POST_MARKER"
    using encodePostBody_marked [of bytes badge ctx] by auto
  with assms show ?thesis
    using decode_post [of bytes badge ctx]
    by (auto simp: decodePostBadge_def decodePostContextName_def post_envelope_roundtrip post_unambiguous_def)
qed

theorem post_body_roundtrip_witness:
  "truthy_str (Some ''Regular'') \<and>
   decodePostBadge (Some (encodePostBody ''rec'' (Some ''Regular'') None)) = Some ''Regular''"
  using post_body_roundtrip [of "Some ''Regular''" None "''rec''"] by (simp add: truthy_str_def)

text \<open>A plain post (no badge, no context name) gives back its record bytes and neither badge
  nor context, unless the bytes are themselves JSON text with a string member \<open>r\<close>; the two
  shapes share one marker and that is the only confusion between them.\<close>

theorem plain_post_roundtrip:
  assumes "\<not> truthy_str badge" and "\<not> truthy_str ctx"
    and "\<forall>v. json_parse bytes = Some v \<longrightarrow> jget_str v ''r'' = None"
  shows "decodeRecordBody (Some (encodePostBody bytes badge ctx)) = Some bytes
    \<and> decodePostBadge (Some (encodePostBody bytes badge ctx)) = None
    \<and> decodePostContextName (Some (encodePostBody bytes badge ctx)) = None"
proof -
  from assms have "parsePostEnvelope (encodePostBody bytes badge ctx) = None"
    by (simp add: plain_post_envelope split: option.split)
  with assms show ?thesis
    using decode_post [of bytes badge ctx]
    by (auto simp: decodePostBadge_def decodePostContextName_def post_unambiguous_def split: option.splits)
qed

theorem plain_post_roundtrip_witness:
  "json_parse [char_of (1::nat), char_of (2::nat)] = None
   \<and> decodeRecordBody (Some (encodePostBody [char_of (1::nat), char_of (2::nat)] None None))
     = Some [char_of (1::nat), char_of (2::nat)]"
proof -
  have "json_parse [char_of (1::nat), char_of (2::nat)] = None" by code_simp
  then show ?thesis
    using plain_post_roundtrip [of None None "[char_of (1::nat), char_of (2::nat)]"]
    by (simp add: truthy_str_def)
qed

text \<open>C40. The control messages give back what was encoded: topic announcement, phantom bundle,
  reset request, relayed record with its barrier, catch-up part, authorship and badge proofs.
  The side conditions are what the senders guarantee (integers in the safe range, non-empty
  fields, a 32-digit account, a reason of at most 200 units).\<close>
theorem control_bodies_roundtrip:
  "(topic_ok t \<longrightarrow> decodeTopicAnnouncement (Some (encodeTopicAnnouncement t)) = Some t)
   \<and> (bundle_ok b \<longrightarrow> decodePhantomBundle (Some (encodePhantomBundle b)) = Some b)
   \<and> (reset_ok q \<longrightarrow> decodeResetRequest (Some (encodeResetRequest q)) = Some q)
   \<and> (0 \<le> n \<and> n \<le> max_safe \<and> rec \<noteq> [] \<longrightarrow>
        decodeRelayBody (Some (encodeRelayBody n rec)) = Some (n, rec))
   \<and> decodeAuthorshipProof (Some (encodeAuthorshipProof bytes)) = Some bytes
   \<and> decodeBadgeProof (Some (encodeBadgeProof bytes)) = Some bytes"
  using topic_codec.dec_enc bundle_codec.dec_enc reset_codec.dec_enc
    relay_codec.dec_enc [of "(n, rec)"] authorship_codec.dec_enc badge_proof_codec.dec_enc
  by (simp add: relay_ok_def)

theorem control_bodies_roundtrip_witness:
  "decodeTopicAnnouncement (Some (encodeTopicAnnouncement \<lparr>ta_name = ''pets'', ta_context = 3\<rparr>))
     = Some \<lparr>ta_name = ''pets'', ta_context = 3\<rparr>
   \<and> decodeRelayBody (Some (encodeRelayBody 5 ''rec'')) = Some (5, ''rec'')"
proof -
  have "topic_ok \<lparr>ta_name = ''pets'', ta_context = 3\<rparr>" by code_simp
  then show ?thesis
    using control_bodies_roundtrip [of "\<lparr>ta_name = ''pets'', ta_context = 3\<rparr>" _ _ 5 "''rec''"]
    by (simp add: max_safe_def)
qed


text \<open>No control message is fed to the ledger as a record, whatever it carries.\<close>

theorem control_bodies_are_not_records:
  "decodeRecordBody (Some (encodeTopicAnnouncement t)) = None
   \<and> decodeRecordBody (Some (encodePhantomBundle b)) = None
   \<and> decodeRecordBody (Some (encodeResetRequest q)) = None
   \<and> decodeRecordBody (Some (encodeRelayBody n bytes)) = None
   \<and> decodeRecordBody (Some (encodeAuthorshipProof bytes)) = None
   \<and> decodeRecordBody (Some (encodeBadgeProof bytes)) = None
   \<and> decodeRecordBody (Some encodeCatchUpRequest) = None
   \<and> decodeRecordBody (Some (part_body w)) = None"
proof -
  have "decodeRecordBody (Some encodeCatchUpRequest) = None"
    by (rule record_codec.dec_foreign [of PERSONAS_CATCH_UP_REQUEST_MARKER])
       (simp_all add: encodeCatchUpRequest_def, simp add: ALL_MARKERS_def marker_defs)
  then show ?thesis
    using record_topic.no_confusion(2) record_bundle.no_confusion(2) record_reset.no_confusion(2)
      record_relay.no_confusion(2) [of "(n, bytes)"] record_authorship.no_confusion(2)
      record_badge_proof.no_confusion(2) record_part.no_confusion(2)
    by simp
qed

text \<open>A history copy of at most 10,000 parts survives the split: every part body decodes, to
  a part of the same group and copy that states the number of parts and carries at most 1,400
  characters; the indices are 0, 1, 2, ... in order, and the data put together in that order
  decodes to the history.\<close>

theorem catch_up_parts_reassemble:
  assumes "part_count (b64_encode history) \<le> 10000"
  shows "\<exists>ws. map (\<lambda>body. decodeCatchUpPart (Some body)) (encodeCatchUpParts g s history) = map Some ws
    \<and> map cu_i ws = map int [0..<length ws]
    \<and> list_all (\<lambda>w. cu_g w = g \<and> cu_s w = s \<and> cu_n w = int (length ws) \<and> length (cu_d w) \<le> 1400) ws
    \<and> b64_decode (concat (map cu_d ws)) = history"
proof (intro exI conjI)
  let ?data = "b64_encode history"
  let ?ws = "map (catch_up_wire g s ?data) [0..<part_count ?data]"
  show "map (\<lambda>body. decodeCatchUpPart (Some body)) (encodeCatchUpParts g s history) = map Some ?ws"
    using assms by (simp add: encodeCatchUpParts_def Let_def parts_decode)
  show "map cu_i ?ws = map int [0..<length ?ws]"
    by (simp add: catch_up_wire_def)
  show "list_all (\<lambda>w. cu_g w = g \<and> cu_s w = s \<and> cu_n w = int (length ?ws) \<and> length (cu_d w) \<le> 1400) ?ws"
    using length_slice [of _ CATCH_UP_PART_DATA_CHARS ?data]
    by (simp add: catch_up_wire_def list_all_iff CATCH_UP_PART_DATA_CHARS_def)
  have "map cu_d ?ws = map (\<lambda>i. cu_d (catch_up_wire g s ?data i)) [0..<part_count ?data]" by simp
  then show "b64_decode (concat (map cu_d ?ws)) = history"
    by (simp only: parts_concat b64_decode_encode)
qed

theorem catch_up_parts_reassemble_witness:
  "part_count (b64_encode ''history'') \<le> 10000
   \<and> (\<exists>ws. map (\<lambda>body. decodeCatchUpPart (Some body)) (encodeCatchUpParts ''g'' ''s'' ''history'') = map Some ws
        \<and> b64_decode (concat (map cu_d ws)) = ''history'')"
proof -
  have "part_count (b64_encode ''history'') \<le> 10000" by code_simp
  then show ?thesis using catch_up_parts_reassemble [of "''history''" "''g''" "''s''"] by blast
qed

end
