(* ===== verification/Phantom.thy ===== *)
theory Phantom
  imports Carriage
begin

text \<open>
  \<^verbatim>\<open>ts/services/personasPhantom.preload.ts\<close> and \<^verbatim>\<open>ts/services/personasPhantomCert.std.ts\<close>: the
  bundles (shared phantom identities) this account holds, one per personas group, and how they
  are minted, adopted, kept pending and stored.

  The module's variables are the record \<open>phantom\<close>; item storage is the record \<open>items\<close>, whose
  values are the JSON texts the code writes.  What the code takes from elsewhere is the record
  \<open>env\<close>: the clock, this account, the conversations, the environment variables, and libsignal's
  deserialisation (a key or certificate is identified with its serialised bytes; the functions
  give \<open>None\<close> where libsignal throws).  SHA-256 is the parameter \<open>env_sha256\<close>.

  A promise-returning function is one definition per stretch between awaits that other code can
  observe: \<open>mintPhantomBundle\<close> is split at its \<^verbatim>\<open>await generateBundle\<close>, the others run their
  check and their update without an await in between.
\<close>

section \<open>Conversations and environment\<close>

record member =
  mb_conversationId :: string
  mb_serviceId :: "string option"
  mb_isMe :: bool
  mb_title :: string
  mb_profileKey :: "string option"

record conversation =
  cv_groupId :: "string option"
  cv_isGroupV2 :: bool
  cv_left :: bool
  cv_terminated :: bool
  cv_weAreAdmin :: bool
  cv_admins :: "string list"
  cv_title :: string
  cv_members :: "member list"

definition hasMember :: "conversation \<Rightarrow> string \<Rightarrow> bool" where
  "hasMember c aci = list_ex (\<lambda>m. mb_serviceId m = Some aci) (cv_members c)"

record libsignal =
  ls_identity :: "string \<Rightarrow> string option"
  ls_cert :: "string \<Rightarrow> string option"
  ls_skdm :: "string \<Rightarrow> string option"
  ls_senderKeyRecord :: "string \<Rightarrow> string option"

record env =
  env_now :: int
  env_PERSONAS_AUTO_REGISTER :: "string option"
  env_PERSONAS_KEYS_DIR :: "string option"
  env_PERSONAS_BARRIER_PERIOD_MS :: "string option"
  env_ourAci :: "string option"
  env_conversations :: "(string, conversation) jsmap"
  env_libsignal :: libsignal
  env_sha256 :: "string \<Rightarrow> string"

definition isPersonasMode :: "env \<Rightarrow> bool" where
  "isPersonasMode e = (truthy_str (env_PERSONAS_AUTO_REGISTER e) \<or> truthy_str (env_PERSONAS_KEYS_DIR e))"

section \<open>Accepted certificates\<close>

definition PHANTOM_SENDER_ACI :: string where
  "PHANTOM_SENDER_ACI = ''9f9f9f9f-0000-4000-8000-00000000face''"

fun equalBytes_from :: "string \<Rightarrow> string \<Rightarrow> bool" where
  "equalBytes_from (x # xs) (y # ys) = (if x \<noteq> y then False else equalBytes_from xs ys)"
| "equalBytes_from _ _ = True"

definition equalBytes :: "string \<Rightarrow> string \<Rightarrow> bool" where
  "equalBytes a b = (if length a \<noteq> length b then False else equalBytes_from a b)"

definition isExpectedPhantomCertificate :: "string list \<Rightarrow> string \<Rightarrow> bool" where
  "isExpectedPhantomCertificate expected bytes = list_ex (\<lambda>known. equalBytes known bytes) expected"

definition addExpectedPhantomCertificate :: "string \<Rightarrow> string list \<Rightarrow> string list" where
  "addExpectedPhantomCertificate bytes expected =
     (if \<not> list_ex (\<lambda>known. equalBytes known bytes) expected then expected @ [bytes] else expected)"

definition hasAnyPhantomCertificate :: "string list \<Rightarrow> bool" where
  "hasAnyPhantomCertificate expected = (length expected > 0)"

lemma equalBytes_iff [simp]: "equalBytes a b \<longleftrightarrow> a = b"
proof -
  have "equalBytes_from a b \<longleftrightarrow> a = b" if "length a = length b"
    using that by (induction a b rule: list_induct2) auto
  then show ?thesis by (auto simp: equalBytes_def)
qed

lemma isExpected_iff [simp]: "isExpectedPhantomCertificate es c \<longleftrightarrow> c \<in> set es"
  by (auto simp: isExpectedPhantomCertificate_def list_ex_iff)

lemma addExpected_set [simp]: "set (addExpectedPhantomCertificate c es) = insert c (set es)"
  by (auto simp: addExpectedPhantomCertificate_def list_ex_iff)

lemma addExpected_distinct: "distinct es \<Longrightarrow> distinct (addExpectedPhantomCertificate c es)"
  by (auto simp: addExpectedPhantomCertificate_def list_ex_iff)

section \<open>Bundles\<close>

record SerializedBundle =
  sb_groupId :: string
  sb_trustRootPublic :: string
  sb_phantomIdentityKeyPair :: string
  sb_phantomCert :: string
  sb_distributionId :: string
  sb_skdm :: string
  sb_sendKeyRecord :: string
  sb_schedule :: json

record PhantomMaterial =
  pm_groupId :: string
  pm_trustRootPublicBase64 :: string
  pm_phantomIdentity :: string
  pm_phantomCert :: string
  pm_distributionId :: string
  pm_skdm :: string
  pm_initialSendKeyRecord :: string
  pm_schedule :: json

definition MAX_PERSONAS_GROUPS :: nat where "MAX_PERSONAS_GROUPS = 3"
definition MAX_PENDING_BUNDLES :: nat where "MAX_PENDING_BUNDLES = 8"
definition DEFAULT_BARRIER_PERIOD_MS :: rat where "DEFAULT_BARRIER_PERIOD_MS = 10000"

definition bundleFingerprint :: "env \<Rightarrow> PhantomMaterial \<Rightarrow> string" where
  "bundleFingerprint e mat = take 16 (env_sha256 e (pm_trustRootPublicBase64 mat))"

text \<open>\<^verbatim>\<open>JSON.stringify(bundle)\<close> and back; a stored text with a missing or non-text field counts as
  unreadable.\<close>

definition bundle_to_json :: "SerializedBundle \<Rightarrow> json" where
  "bundle_to_json b =
     JObj [(''groupId'', JStr (sb_groupId b)), (''trustRootPublic'', JStr (sb_trustRootPublic b)),
           (''phantomIdentityKeyPair'', JStr (sb_phantomIdentityKeyPair b)),
           (''phantomCert'', JStr (sb_phantomCert b)), (''distributionId'', JStr (sb_distributionId b)),
           (''skdm'', JStr (sb_skdm b)), (''sendKeyRecord'', JStr (sb_sendKeyRecord b)),
           (''schedule'', sb_schedule b)]"

definition bundle_of_json :: "json \<Rightarrow> SerializedBundle option" where
  "bundle_of_json v =
     (case (jget_str v ''groupId'', jget_str v ''trustRootPublic'', jget_str v ''phantomIdentityKeyPair'',
            jget_str v ''phantomCert'', jget_str v ''distributionId'', jget_str v ''skdm'',
            jget_str v ''sendKeyRecord'', jget v ''schedule'') of
        (Some g, Some t, Some i, Some c, Some d, Some k, Some r, Some sch) \<Rightarrow>
          Some \<lparr>sb_groupId = g, sb_trustRootPublic = t, sb_phantomIdentityKeyPair = i, sb_phantomCert = c,
                sb_distributionId = d, sb_skdm = k, sb_sendKeyRecord = r, sb_schedule = sch\<rparr>
      | _ \<Rightarrow> None)"

definition read_bundle :: "string \<Rightarrow> SerializedBundle option" where
  "read_bundle json = Option.bind (json_parse json) bundle_of_json"

definition deserialize :: "env \<Rightarrow> SerializedBundle \<Rightarrow> PhantomMaterial option" where
  "deserialize e b =
     (case ls_identity (env_libsignal e) (b64_decode (sb_phantomIdentityKeyPair b)) of
        None \<Rightarrow> None
      | Some identity \<Rightarrow>
        (case ls_cert (env_libsignal e) (b64_decode (sb_phantomCert b)) of
           None \<Rightarrow> None
         | Some cert \<Rightarrow>
           (case ls_skdm (env_libsignal e) (b64_decode (sb_skdm b)) of
              None \<Rightarrow> None
            | Some skdm \<Rightarrow>
                Some \<lparr>pm_groupId = sb_groupId b, pm_trustRootPublicBase64 = sb_trustRootPublic b,
                      pm_phantomIdentity = identity, pm_phantomCert = cert,
                      pm_distributionId = sb_distributionId b, pm_skdm = skdm,
                      pm_initialSendKeyRecord = b64_decode (sb_sendKeyRecord b),
                      pm_schedule = sb_schedule b\<rparr>)))"

section \<open>State\<close>

record pending_bundle =
  pe_wire :: PersonaPhantomBundleWire
  pe_from :: string
  pe_conversationId :: string

record items =
  it_personasPhantomBundles :: "string option"
  it_personasPhantomBundle :: "string option"
  it_personasPhantomSentTo :: "string list option"
  it_personasPhantomChains :: "string list option"
  it_personasPhantomChain :: "string option"
  it_personasPhantomPending :: "string option"

definition items0 :: items where
  "items0 = \<lparr>it_personasPhantomBundles = None, it_personasPhantomBundle = None, it_personasPhantomSentTo = None,
     it_personasPhantomChains = None, it_personasPhantomChain = None, it_personasPhantomPending = None\<rparr>"

record phantom =
  ph_held :: "(string, PhantomMaterial \<times> string) jsmap"
  ph_loaded :: bool
  ph_pending :: "(string, pending_bundle) jsmap"
  ph_expected :: "string list"
  ph_lastSentAt :: "(string, int) jsmap"
  ph_distributing :: bool
  ph_items :: items
  ph_chains :: "(string, string) jsmap"
  ph_ready :: "PhantomMaterial list"

text \<open>A new process on given storage and sender-key store.\<close>

definition phantom_boot :: "items \<Rightarrow> (string, string) jsmap \<Rightarrow> phantom" where
  "phantom_boot it chs =
     \<lparr>ph_held = [], ph_loaded = False, ph_pending = [], ph_expected = [], ph_lastSentAt = [],
      ph_distributing = False, ph_items = it, ph_chains = chs, ph_ready = []\<rparr>"

definition held_mat :: "phantom \<Rightarrow> string \<Rightarrow> PhantomMaterial option" where
  "held_mat p g = map_option fst (map_get (ph_held p) g)"

section \<open>Queries\<close>

definition live :: "env \<Rightarrow> string \<Rightarrow> bool" where
  "live e groupId =
     (case map_get (env_conversations e) groupId of
        None \<Rightarrow> False
      | Some c \<Rightarrow>
          (if cv_left c \<or> cv_terminated c then False
           else (case env_ourAci e of None \<Rightarrow> True | Some aci \<Rightarrow> hasMember c aci)))"

definition liveGroupIds :: "env \<Rightarrow> phantom \<Rightarrow> string list" where
  "liveGroupIds e p = filter (live e) (map_keys (ph_held p))"

definition atGroupLimit :: "env \<Rightarrow> phantom \<Rightarrow> bool" where
  "atGroupLimit e p = (length (liveGroupIds e p) \<ge> MAX_PERSONAS_GROUPS)"

definition allPhantomMaterial :: "phantom \<Rightarrow> PhantomMaterial list" where
  "allPhantomMaterial p = map (fst \<circ> snd) (ph_held p)"

definition hasPhantomMaterial :: "phantom \<Rightarrow> string option \<Rightarrow> bool" where
  "hasPhantomMaterial p g = (case g of None \<Rightarrow> False | Some k \<Rightarrow> map_has (ph_held p) k)"

definition getPersonasGroupIds :: "phantom \<Rightarrow> string list" where
  "getPersonasGroupIds p = map_keys (ph_held p)"

definition isPersonasGroup :: "phantom \<Rightarrow> conversation option \<Rightarrow> bool" where
  "isPersonasGroup p c =
     (case Option.bind c cv_groupId of None \<Rightarrow> False | Some g \<Rightarrow> map_has (ph_held p) g)"

datatype PersonasGroupStanding = StandingThis | StandingNone | StandingFull "string list"

definition personasGroupStanding :: "env \<Rightarrow> phantom \<Rightarrow> conversation option \<Rightarrow> PersonasGroupStanding" where
  "personasGroupStanding e p c =
     (if isPersonasGroup p c then StandingThis
      else if \<not> atGroupLimit e p then StandingNone
      else StandingFull
             (map (\<lambda>g. case map_get (env_conversations e) g of None \<Rightarrow> ''a group'' | Some k \<Rightarrow> cv_title k)
                (liveGroupIds e p)))"

text \<open>\<^verbatim>\<open>groupId ? held.get(groupId)?.mat : undefined\<close>: the empty id is falsy.\<close>

definition mat_for :: "phantom \<Rightarrow> string option \<Rightarrow> PhantomMaterial option" where
  "mat_for p g = (case g of None \<Rightarrow> None | Some k \<Rightarrow> if k = [] then None else held_mat p k)"

definition getPhantomBundleFingerprint :: "env \<Rightarrow> phantom \<Rightarrow> string option \<Rightarrow> string option" where
  "getPhantomBundleFingerprint e p g = map_option (bundleFingerprint e) (mat_for p g)"

definition getPhantomSchedule :: "phantom \<Rightarrow> string option \<Rightarrow> json option" where
  "getPhantomSchedule p g = map_option pm_schedule (mat_for p g)"

definition getPhantomTrustRootsBase64 :: "phantom \<Rightarrow> string list" where
  "getPhantomTrustRootsBase64 p = map (pm_trustRootPublicBase64 \<circ> fst \<circ> snd) (ph_held p)"

definition isFellowGroupMember :: "env \<Rightarrow> string \<Rightarrow> string \<Rightarrow> bool" where
  "isFellowGroupMember e conversationId groupId =
     (case map_get (env_conversations e) groupId of
        None \<Rightarrow> False
      | Some grp \<Rightarrow>
          cv_isGroupV2 grp \<and> \<not> cv_left grp
          \<and> list_ex (\<lambda>m. mb_conversationId m = conversationId) (cv_members grp))"

section \<open>Holding, storing and loading\<close>

definition activate :: "env \<Rightarrow> string \<Rightarrow> phantom \<Rightarrow> (PhantomMaterial \<times> phantom) option" where
  "activate e json p =
     (case Option.bind (read_bundle json) (deserialize e) of
        None \<Rightarrow> None
      | Some mat \<Rightarrow>
          Some (mat, p\<lparr>ph_held := map_set (ph_held p) (pm_groupId mat) (mat, json),
                       ph_expected := addExpectedPhantomCertificate (pm_phantomCert mat) (ph_expected p)\<rparr>))"

definition saveHeld :: "phantom \<Rightarrow> phantom" where
  "saveHeld p =
     p\<lparr>ph_items := (ph_items p)\<lparr>it_personasPhantomBundles :=
          Some (json_stringify (JObj (map (\<lambda>(g, mat, json). (g, JStr json)) (ph_held p))))\<rparr>\<rparr>"

text \<open>\<^verbatim>\<open>Object.entries(v)\<close>, \<^verbatim>\<open>Object.values(v)\<close>: \<open>None\<close> where they throw; the characters of a text
  and the elements of an array carry no usable entry here.\<close>

definition obj_entries :: "json \<Rightarrow> (string \<times> json) list option" where
  "obj_entries v =
     (case v of
        JNull \<Rightarrow> None
      | JObj kvs \<Rightarrow> Some (fold (\<lambda>(k, x) m. map_set m k x) kvs [])
      | JArr vs \<Rightarrow> Some (map (\<lambda>x. ([], x)) vs)
      | _ \<Rightarrow> Some [])"

definition js_truthy :: "json option \<Rightarrow> bool" where
  "js_truthy v =
     (case v of
        None \<Rightarrow> False
      | Some JNull \<Rightarrow> False
      | Some (JBool b) \<Rightarrow> b
      | Some (JNum n) \<Rightarrow> n \<noteq> Fin 0 \<and> n \<noteq> NaN
      | Some (JStr s) \<Rightarrow> s \<noteq> []
      | Some _ \<Rightarrow> True)"

definition pending_to_json :: "pending_bundle \<Rightarrow> json" where
  "pending_to_json q =
     JObj [(''wire'', phantom_wire_json (pe_wire q)), (''from'', JStr (pe_from q)),
           (''conversationId'', JStr (pe_conversationId q))]"

definition wire_of_json :: "json \<Rightarrow> PersonaPhantomBundleWire option" where
  "wire_of_json v =
     (case (jget_str v ''groupId'', jget_str v ''trustRootPublic'', jget_str v ''phantomIdentityKeyPair'',
            jget_str v ''phantomCert'', jget_str v ''distributionId'', jget_str v ''skdm'',
            jget_str v ''chainRecord'', jget v ''schedule'') of
        (Some g, Some t, Some i, Some c, Some d, Some k, Some r, Some sch) \<Rightarrow>
          (case (jget_num sch ''anchorMs'', jget sch ''periodMs'') of
             (Some (Fin a), Some per) \<Rightarrow>
               Some \<lparr>pb_groupId = g, pb_trustRootPublic = t, pb_phantomIdentityKeyPair = i, pb_phantomCert = c,
                     pb_distributionId = d, pb_skdm = k, pb_chainRecord = r, pb_anchorMs = a, pb_periodMs = per\<rparr>
           | _ \<Rightarrow> None)
      | _ \<Rightarrow> None)"

definition pending_of_json :: "json \<Rightarrow> pending_bundle option" where
  "pending_of_json v =
     (case (Option.bind (jget v ''wire'') wire_of_json, jget_str v ''from'', jget_str v ''conversationId'') of
        (Some w, Some f, Some c) \<Rightarrow> Some \<lparr>pe_wire = w, pe_from = f, pe_conversationId = c\<rparr>
      | _ \<Rightarrow> None)"

definition savePending :: "phantom \<Rightarrow> phantom" where
  "savePending p =
     p\<lparr>ph_items := (ph_items p)\<lparr>it_personasPhantomPending :=
          Some (json_stringify (JObj (map (\<lambda>(k, q). (k, pending_to_json q)) (ph_pending p))))\<rparr>\<rparr>"

definition loadPending :: "phantom \<Rightarrow> phantom" where
  "loadPending p =
     (if \<not> truthy_str (it_personasPhantomPending (ph_items p)) then p
      else
        (case Option.bind (json_parse (the (it_personasPhantomPending (ph_items p)))) obj_entries of
           None \<Rightarrow> p
         | Some kvs \<Rightarrow>
             p\<lparr>ph_pending := fold (\<lambda>(k, v) m. case pending_of_json v of None \<Rightarrow> m | Some q \<Rightarrow> map_set m k q)
                               kvs (ph_pending p)\<rparr>))"

definition activate_all :: "env \<Rightarrow> json list \<Rightarrow> phantom \<Rightarrow> phantom" where
  "activate_all e vs p =
     fold (\<lambda>v q. case activate e (js_String v) q of None \<Rightarrow> q | Some (_, q') \<Rightarrow> q') vs p"

text \<open>The two halves of \<^verbatim>\<open>loadHeld\<close>'s try block; \<open>None\<close> is a throw, which ends the block.\<close>

definition load_bundles :: "env \<Rightarrow> phantom \<Rightarrow> phantom option" where
  "load_bundles e p =
     (if \<not> truthy_str (it_personasPhantomBundles (ph_items p)) then Some p
      else
        (case Option.bind (json_parse (the (it_personasPhantomBundles (ph_items p)))) obj_entries of
           None \<Rightarrow> None
         | Some kvs \<Rightarrow> Some (activate_all e (map snd kvs) p)))"

definition load_single :: "env \<Rightarrow> phantom \<Rightarrow> phantom" where
  "load_single e p =
     (if \<not> truthy_str (it_personasPhantomBundle (ph_items p)) then p
      else
        (let single = the (it_personasPhantomBundle (ph_items p)) in
         case json_parse single of
           None \<Rightarrow> p
         | Some JNull \<Rightarrow> p
         | Some v \<Rightarrow>
             (if js_truthy (jget v ''groupId'') then
                (case activate e single p of
                   None \<Rightarrow> p
                 | Some (_, p1) \<Rightarrow>
                     (let p2 = saveHeld p1 in p2\<lparr>ph_items := (ph_items p2)\<lparr>it_personasPhantomBundle := None\<rparr>\<rparr>))
              else p\<lparr>ph_items := (ph_items p)\<lparr>it_personasPhantomSentTo := None, it_personasPhantomBundle := None\<rparr>\<rparr>)))"

definition loadHeld :: "env \<Rightarrow> phantom \<Rightarrow> phantom" where
  "loadHeld e p =
     (if ph_loaded p \<or> \<not> isPersonasMode e then p
      else
        (let p1 = loadPending (p\<lparr>ph_loaded := True\<rparr>) in
         case load_bundles e p1 of None \<Rightarrow> p1 | Some p2 \<Rightarrow> load_single e p2))"

definition ensurePhantomMaterial :: "env \<Rightarrow> string option \<Rightarrow> phantom \<Rightarrow> PhantomMaterial option \<times> phantom" where
  "ensurePhantomMaterial e g p = (let q = loadHeld e p in (mat_for q g, q))"

section \<open>The member's copy of the shared chain\<close>

definition CHAIN_MARKER_VERSION :: string where "CHAIN_MARKER_VERSION = ''full-v1''"

definition set_add :: "string list \<Rightarrow> string \<Rightarrow> string list" where
  "set_add xs x = (if x \<in> set xs then xs else xs @ [x])"

definition chain_marker :: "env \<Rightarrow> PhantomMaterial \<Rightarrow> string" where
  "chain_marker e mat = bundleFingerprint e mat @ CHR '':'' # CHAIN_MARKER_VERSION"

definition installed_markers :: "phantom \<Rightarrow> string list" where
  "installed_markers p =
     (let installed = remdups (case it_personasPhantomChains (ph_items p) of None \<Rightarrow> [] | Some xs \<Rightarrow> xs) in
      if truthy_str (it_personasPhantomChain (ph_items p))
      then set_add installed (the (it_personasPhantomChain (ph_items p))) else installed)"

definition installOneChain :: "env \<Rightarrow> PhantomMaterial \<Rightarrow> phantom \<Rightarrow> phantom" where
  "installOneChain e mat p =
     (case env_ourAci e of
        None \<Rightarrow> p
      | Some _ \<Rightarrow>
        (let marker = chain_marker e mat;
             installed = installed_markers p;
             existing = map_get (ph_chains p) (pm_distributionId mat) in
         if existing \<noteq> None \<and> marker \<in> set installed then p
         else
           (let removed = (if existing \<noteq> None then map_del (ph_chains p) (pm_distributionId mat) else ph_chains p) in
            case ls_senderKeyRecord (env_libsignal e) (pm_initialSendKeyRecord mat) of
              None \<Rightarrow> p\<lparr>ph_chains := removed\<rparr>
            | Some rec \<Rightarrow>
                p\<lparr>ph_chains := map_set removed (pm_distributionId mat) rec,
                  ph_items := (ph_items p)\<lparr>it_personasPhantomChains := Some (set_add installed marker)\<rparr>\<rparr>)))"

definition installPhantomChain :: "env \<Rightarrow> string option \<Rightarrow> phantom \<Rightarrow> phantom" where
  "installPhantomChain e g p =
     (let q = loadHeld e p;
          targets = (if truthy_str g then (case held_mat q (the g) of None \<Rightarrow> [] | Some mat \<Rightarrow> [mat])
                     else allPhantomMaterial q)
      in fold (installOneChain e) targets q)"

section \<open>Minting and adopting\<close>

definition commitBundle :: "env \<Rightarrow> string \<Rightarrow> phantom \<Rightarrow> PhantomMaterial option \<times> phantom" where
  "commitBundle e json p =
     (case activate e json p of
        None \<Rightarrow> (None, p)
      | Some (mat, p1) \<Rightarrow>
          (let p2 = installPhantomChain e (Some (pm_groupId mat)) (saveHeld p1) in
           (Some mat, p2\<lparr>ph_ready := ph_ready p2 @ [mat]\<rparr>)))"

text \<open>What libsignal and the random source yield while a bundle is minted.\<close>

record fresh_keys =
  fk_trustRootPublic :: string
  fk_phantomIdentity :: string
  fk_phantomCert :: string
  fk_distributionId :: string
  fk_skdm :: string
  fk_sendKeyRecord :: "string option"

definition minted_period :: "env \<Rightarrow> jsnum" where
  "minted_period e =
     (let period = (case env_PERSONAS_BARRIER_PERIOD_MS e of None \<Rightarrow> NaN | Some s \<Rightarrow> js_Number s) in
      if num_pos period then period else Fin DEFAULT_BARRIER_PERIOD_MS)"

definition generateBundle :: "env \<Rightarrow> fresh_keys \<Rightarrow> string \<Rightarrow> SerializedBundle option" where
  "generateBundle e k groupId =
     (case fk_sendKeyRecord k of
        None \<Rightarrow> None
      | Some rec \<Rightarrow>
          Some \<lparr>sb_groupId = groupId, sb_trustRootPublic = b64_encode (fk_trustRootPublic k),
                sb_phantomIdentityKeyPair = b64_encode (fk_phantomIdentity k),
                sb_phantomCert = b64_encode (fk_phantomCert k), sb_distributionId = fk_distributionId k,
                sb_skdm = b64_encode (fk_skdm k), sb_sendKeyRecord = b64_encode rec,
                sb_schedule = JObj [(''anchorMs'', JNum (js_int (env_now e))),
                                    (''periodMs'', JNum (minted_period e))]\<rparr>)"

datatype mint_begun = MintRefused | MintExisting PhantomMaterial | MintGenerate string

definition mint_begin :: "env \<Rightarrow> string option \<Rightarrow> phantom \<Rightarrow> mint_begun \<times> phantom" where
  "mint_begin e g p =
     (if \<not> isPersonasMode e \<or> \<not> truthy_str g then (MintRefused, p)
      else
        (let (existing, q) = ensurePhantomMaterial e g p in
         case existing of
           Some mat \<Rightarrow> (MintExisting mat, q)
         | None \<Rightarrow> if atGroupLimit e q then (MintRefused, q) else (MintGenerate (the g), q)))"

definition mint_finish :: "env \<Rightarrow> fresh_keys \<Rightarrow> string \<Rightarrow> phantom \<Rightarrow> PhantomMaterial option \<times> phantom" where
  "mint_finish e k groupId p =
     (case generateBundle e k groupId of
        None \<Rightarrow> (None, p)
      | Some b \<Rightarrow> commitBundle e (json_stringify (bundle_to_json b)) p)"

definition mintPhantomBundle :: "env \<Rightarrow> fresh_keys \<Rightarrow> string option \<Rightarrow> phantom \<Rightarrow> PhantomMaterial option \<times> phantom" where
  "mintPhantomBundle e k g p =
     (case mint_begin e g p of
        (MintRefused, q) \<Rightarrow> (None, q)
      | (MintExisting mat, q) \<Rightarrow> (Some mat, q)
      | (MintGenerate groupId, q) \<Rightarrow> mint_finish e k groupId q)"

datatype AdoptResult = Adopted | Duplicate | Conflict | Full | Disabled

definition wire_bundle :: "PersonaPhantomBundleWire \<Rightarrow> SerializedBundle" where
  "wire_bundle w =
     \<lparr>sb_groupId = pb_groupId w, sb_trustRootPublic = pb_trustRootPublic w,
      sb_phantomIdentityKeyPair = pb_phantomIdentityKeyPair w, sb_phantomCert = pb_phantomCert w,
      sb_distributionId = pb_distributionId w, sb_skdm = pb_skdm w, sb_sendKeyRecord = pb_chainRecord w,
      sb_schedule = JObj [(''anchorMs'', JNum (Fin (pb_anchorMs w))), (''periodMs'', pb_periodMs w)]\<rparr>"

text \<open>The result \<open>None\<close> is a rejected promise: key material libsignal cannot read.\<close>

definition adoptPhantomBundle :: "env \<Rightarrow> PersonaPhantomBundleWire \<Rightarrow> phantom \<Rightarrow> AdoptResult option \<times> phantom" where
  "adoptPhantomBundle e wire p =
     (if \<not> isPersonasMode e then (Some Disabled, p)
      else
        (let (existing, q) = ensurePhantomMaterial e (Some (pb_groupId wire)) p in
         case existing of
           Some mat \<Rightarrow>
             (if pm_trustRootPublicBase64 mat = pb_trustRootPublic wire
                 \<and> b64_encode (pm_phantomCert mat) = pb_phantomCert wire
              then (Some Duplicate, q) else (Some Conflict, q))
         | None \<Rightarrow>
             (if atGroupLimit e q then (Some Full, q)
              else
                (case commitBundle e (json_stringify (bundle_to_json (wire_bundle wire))) q of
                   (None, r) \<Rightarrow> (None, r)
                 | (Some _, r) \<Rightarrow> (Some Adopted, r)))))"

section \<open>Pending bundles\<close>

definition pending_key :: "string \<Rightarrow> PersonaPhantomBundleWire \<Rightarrow> string" where
  "pending_key conversationId wire = conversationId @ CHR '':'' # pb_groupId wire"

definition holdPendingBundle :: "string \<Rightarrow> PersonaPhantomBundleWire \<Rightarrow> string \<Rightarrow> phantom \<Rightarrow> phantom" where
  "holdPendingBundle conversationId wire from p =
     (let key = pending_key conversationId wire in
      if \<not> map_has (ph_pending p) key \<and> length (ph_pending p) \<ge> MAX_PENDING_BUNDLES then p
      else savePending
             (p\<lparr>ph_pending := map_set (ph_pending p) key
                  \<lparr>pe_wire = wire, pe_from = from, pe_conversationId = conversationId\<rparr>\<rparr>))"

definition retry_one :: "env \<Rightarrow> string \<times> pending_bundle \<Rightarrow> phantom \<Rightarrow> (bool \<times> phantom) option \<times> phantom" where
  "retry_one e kq p =
     (case kq of (key, q) \<Rightarrow>
        (let drop_it = (\<lambda>r. r\<lparr>ph_pending := map_del (ph_pending r) key\<rparr>) in
         if map_has (ph_held p) (pb_groupId (pe_wire q)) then (Some (True, drop_it p), p)
         else if isFellowGroupMember e (pe_conversationId q) (pb_groupId (pe_wire q)) then
           (case adoptPhantomBundle e (pe_wire q) p of
              (None, r) \<Rightarrow> (None, r)
            | (Some Full, r) \<Rightarrow> (Some (False, r), r)
            | (Some _, r) \<Rightarrow> (Some (True, drop_it r), r))
         else (Some (False, p), p)))"

text \<open>The loop over a snapshot of the pending bundles; the first component is \<open>False\<close> when an
  adoption threw, which leaves the loop at once.\<close>

fun retry_loop :: "env \<Rightarrow> (string \<times> pending_bundle) list \<Rightarrow> bool \<Rightarrow> phantom \<Rightarrow> bool \<times> bool \<times> phantom" where
  "retry_loop e [] changed p = (True, changed, p)"
| "retry_loop e (kq # rest) changed p =
     (case retry_one e kq p of
        (None, r) \<Rightarrow> (False, changed, r)
      | (Some (c, r), _) \<Rightarrow> retry_loop e rest (changed \<or> c) r)"

definition retryPendingBundles :: "env \<Rightarrow> phantom \<Rightarrow> bool \<times> phantom" where
  "retryPendingBundles e p =
     (case retry_loop e (ph_pending p) False p of
        (ok, changed, r) \<Rightarrow> (ok, if ok \<and> changed then savePending r else r))"

text \<open>The receive path's use of the two (\<^verbatim>\<open>ts/messages/handleDataMessage.preload.ts\<close>).\<close>

definition receiveBundle :: "env \<Rightarrow> string \<Rightarrow> PersonaPhantomBundleWire \<Rightarrow> string \<Rightarrow> phantom \<Rightarrow> phantom" where
  "receiveBundle e conversationId wire from p =
     (if isFellowGroupMember e conversationId (pb_groupId wire) then
        (case adoptPhantomBundle e wire p of
           (Some Full, q) \<Rightarrow> holdPendingBundle conversationId wire from q
         | (_, q) \<Rightarrow> q)
      else holdPendingBundle conversationId wire from p)"

section \<open>Frame lemmas\<close>

lemma saveHeld_frame [simp]:
  "ph_held (saveHeld p) = ph_held p" "ph_loaded (saveHeld p) = ph_loaded p"
  "ph_pending (saveHeld p) = ph_pending p" "ph_expected (saveHeld p) = ph_expected p"
  by (simp_all add: saveHeld_def)

lemma savePending_frame [simp]:
  "ph_held (savePending p) = ph_held p" "ph_loaded (savePending p) = ph_loaded p"
  "ph_pending (savePending p) = ph_pending p" "ph_expected (savePending p) = ph_expected p"
  by (simp_all add: savePending_def)

lemma installOneChain_frame [simp]:
  "ph_held (installOneChain e m p) = ph_held p" "ph_loaded (installOneChain e m p) = ph_loaded p"
  "ph_pending (installOneChain e m p) = ph_pending p" "ph_expected (installOneChain e m p) = ph_expected p"
  by (simp_all add: installOneChain_def Let_def split: option.split)

lemma loadHeld_loaded [simp]: "ph_loaded p \<Longrightarrow> loadHeld e p = p"
  by (simp add: loadHeld_def)

lemma install_fold_frame [simp]:
  "ph_held (fold (installOneChain e) ms p) = ph_held p"
  "ph_loaded (fold (installOneChain e) ms p) = ph_loaded p"
  "ph_pending (fold (installOneChain e) ms p) = ph_pending p"
  "ph_expected (fold (installOneChain e) ms p) = ph_expected p"
  by (induction ms arbitrary: p) simp_all

lemma installPhantomChain_frame [simp]:
  assumes "ph_loaded p"
  shows "ph_held (installPhantomChain e g p) = ph_held p" "ph_loaded (installPhantomChain e g p)"
    "ph_pending (installPhantomChain e g p) = ph_pending p"
    "ph_expected (installPhantomChain e g p) = ph_expected p"
  using assms by (simp_all add: installPhantomChain_def Let_def)

section \<open>Committing a bundle\<close>

definition wire_ok :: "PersonaPhantomBundleWire \<Rightarrow> bool" where
  "wire_ok w = (pb_groupId w \<noteq> [] \<and> is_safe_integer (Fin (pb_anchorMs w)) \<and> json_ok (pb_periodMs w))"

lemma bundle_json_roundtrip:
  "json_ok (sb_schedule b) \<Longrightarrow>
   read_bundle (json_stringify (bundle_to_json b)) = Some b"
  by (simp add: read_bundle_def json_parse_stringify bundle_to_json_def bundle_of_json_def jget_str_def
      del: json_stringify.simps)

lemma wire_bundle_roundtrip:
  "wire_ok w \<Longrightarrow>
   read_bundle (json_stringify (bundle_to_json (wire_bundle w))) = Some (wire_bundle w)"
  by (rule bundle_json_roundtrip) (simp add: wire_ok_def wire_bundle_def)

lemma deserialize_fields:
  "deserialize e b = Some mat \<Longrightarrow>
     pm_groupId mat = sb_groupId b \<and> pm_trustRootPublicBase64 mat = sb_trustRootPublic b
     \<and> pm_distributionId mat = sb_distributionId b \<and> pm_schedule mat = sb_schedule b
     \<and> ls_cert (env_libsignal e) (b64_decode (sb_phantomCert b)) = Some (pm_phantomCert mat)"
  by (auto simp: deserialize_def split: option.splits)

lemma commit_cases:
  assumes "ph_loaded p"
    and "read_bundle json = Some b"
  obtains (fail) "deserialize e b = None" "commitBundle e json p = (None, p)"
  | (commits) mat q where "deserialize e b = Some mat" "commitBundle e json p = (Some mat, q)"
      "ph_held q = map_set (ph_held p) (sb_groupId b) (mat, json)"
      "ph_loaded q" "ph_pending q = ph_pending p"
      "ph_expected q = addExpectedPhantomCertificate (pm_phantomCert mat) (ph_expected p)"
proof (cases "deserialize e b")
  case None
  with assms fail show ?thesis by (simp add: commitBundle_def activate_def)
next
  case (Some mat)
  then have "pm_groupId mat = sb_groupId b" using deserialize_fields by blast
  with Some assms show ?thesis
    by (intro commits [of mat "snd (commitBundle e json p)"])
       (simp_all add: commitBundle_def activate_def Let_def)
qed

lemma adopt_cases:
  assumes "ph_loaded p" and "wire_ok w"
  obtains (same) r where "adoptPhantomBundle e w p = (r, p)"
      "r = Some Adopted \<Longrightarrow> False" "r = Some Full \<Longrightarrow> held_mat p (pb_groupId w) = None"
  | (adopted) mat q where "adoptPhantomBundle e w p = (Some Adopted, q)"
      "held_mat p (pb_groupId w) = None" "\<not> atGroupLimit e p"
      "deserialize e (wire_bundle w) = Some mat"
      "ph_held q = map_set (ph_held p) (pb_groupId w)
         (mat, json_stringify (bundle_to_json (wire_bundle w)))"
      "ph_loaded q" "ph_pending q = ph_pending p"
      "ph_expected q = addExpectedPhantomCertificate (pm_phantomCert mat) (ph_expected p)"
proof -
  have g: "mat_for p (Some (pb_groupId w)) = held_mat p (pb_groupId w)"
    using assms(2) by (simp add: mat_for_def wire_ok_def)
  consider "\<not> isPersonasMode e \<or> held_mat p (pb_groupId w) \<noteq> None \<or> atGroupLimit e p"
    | "isPersonasMode e" "held_mat p (pb_groupId w) = None" "\<not> atGroupLimit e p" by blast
  then show thesis
  proof cases
    case 1
    with assms(1) g show thesis
      by (intro same [of "fst (adoptPhantomBundle e w p)"])
         (auto simp: adoptPhantomBundle_def ensurePhantomMaterial_def Let_def split: option.splits if_splits)
  next
    case 2
    show thesis
    proof (rule commit_cases [OF assms(1) wire_bundle_roundtrip [OF assms(2)], of e])
      assume "commitBundle e (json_stringify (bundle_to_json (wire_bundle w))) p = (None, p)"
      with 2 assms(1) g show thesis
        by (intro same [of None]) (simp_all add: adoptPhantomBundle_def ensurePhantomMaterial_def)
    next
      fix mat q
      assume "deserialize e (wire_bundle w) = Some mat"
        and "commitBundle e (json_stringify (bundle_to_json (wire_bundle w))) p = (Some mat, q)"
        and "ph_held q = map_set (ph_held p) (sb_groupId (wire_bundle w))
               (mat, json_stringify (bundle_to_json (wire_bundle w)))"
        and "ph_loaded q" "ph_pending q = ph_pending p"
          "ph_expected q = addExpectedPhantomCertificate (pm_phantomCert mat) (ph_expected p)"
      with 2 assms(1) g show thesis
        by (intro adopted [of q mat])
           (simp_all add: adoptPhantomBundle_def ensurePhantomMaterial_def wire_bundle_def)
    qed
  qed
qed


section \<open>Running on the receive path and the sweep\<close>

text \<open>What happens to the bundles after boot: a bundle arrives in a 1:1 chat, or the sweep
  retries the pending ones; each under the environment of its moment.\<close>

datatype bundle_event = Arrives env string PersonaPhantomBundleWire string | Sweeps env

fun bundle_step :: "bundle_event \<Rightarrow> phantom \<Rightarrow> phantom" where
  "bundle_step (Arrives e c w from) p = receiveBundle e c w from p"
| "bundle_step (Sweeps e) p = snd (retryPendingBundles e p)"

fun event_env :: "bundle_event \<Rightarrow> env" where
  "event_env (Arrives e _ _ _) = e"
| "event_env (Sweeps e) = e"

fun event_ok :: "bundle_event \<Rightarrow> bool" where
  "event_ok (Arrives _ _ w _) = wire_ok w"
| "event_ok (Sweeps _) = True"

definition phantom_inv :: "phantom \<Rightarrow> bool" where
  "phantom_inv p =
     (ph_loaded p \<and> map_wf (ph_held p) \<and> map_wf (ph_pending p)
      \<and> length (ph_pending p) \<le> MAX_PENDING_BUNDLES
      \<and> (\<forall>kq \<in> set (ph_pending p). wire_ok (pe_wire (snd kq)))
      \<and> (\<forall>(g, mat, j) \<in> set (ph_held p). pm_groupId mat = g \<and> pm_phantomCert mat \<in> set (ph_expected p)))"

text \<open>One step towards later states: nothing held is replaced, and what is new came through the
  membership check and below the limit.\<close>

definition grows :: "env \<Rightarrow> phantom \<Rightarrow> phantom \<Rightarrow> bool" where
  "grows e p q =
     ((\<forall>g mat. held_mat p g = Some mat \<longrightarrow> held_mat q g = Some mat)
      \<and> (\<forall>g. held_mat p g = None \<and> held_mat q g \<noteq> None \<longrightarrow> (\<exists>c. isFellowGroupMember e c g))
      \<and> (length (liveGroupIds e p) \<le> MAX_PERSONAS_GROUPS \<longrightarrow> length (liveGroupIds e q) \<le> MAX_PERSONAS_GROUPS))"

lemma grows_refl: "ph_held q = ph_held p \<Longrightarrow> grows e p q"
  by (auto simp: grows_def held_mat_def liveGroupIds_def)

lemma grows_trans: "grows e p q \<Longrightarrow> grows e q r \<Longrightarrow> grows e p r"
  unfolding grows_def by (metis option.exhaust)

lemma grows_held: "grows e p q \<Longrightarrow> ph_held q' = ph_held q \<Longrightarrow> grows e p q'"
  by (auto simp: grows_def held_mat_def liveGroupIds_def)

lemma length_filter_map_set:
  "length (filter P (map_keys (map_set m k v))) \<le> Suc (length (filter P (map_keys m)))"
  unfolding map_keys_def map_set_def by (induction m) auto

lemma adopt_grows:
  assumes "ph_loaded p" "wire_ok w" "isFellowGroupMember e c (pb_groupId w)"
  shows "grows e p (snd (adoptPhantomBundle e w p))"
  using assms(1,2)
proof (cases rule: adopt_cases [of p w e])
  case (same r)
  then show ?thesis by (simp add: grows_refl)
next
  case (adopted mat q)
  have "length (liveGroupIds e q) \<le> Suc (length (liveGroupIds e p))"
    unfolding liveGroupIds_def adopted(5) by (rule length_filter_map_set)
  with adopted assms(3) show ?thesis
    by (auto simp: grows_def held_mat_def atGroupLimit_def)
qed

lemma hold_held [simp]: "ph_held (holdPendingBundle c w f p) = ph_held p"
  by (simp add: holdPendingBundle_def Let_def)

lemma grows_frame [simp]:
  "grows e p (q\<lparr>ph_pending := x\<rparr>) = grows e p q" "grows e p (savePending q) = grows e p q"
  "grows e p (holdPendingBundle c w f q) = grows e p q"
  by (simp_all add: grows_def held_mat_def liveGroupIds_def)

lemma adopt_inv:
  assumes "phantom_inv p" "wire_ok w"
  shows "phantom_inv (snd (adoptPhantomBundle e w p))"
proof -
  have "ph_loaded p" using assms(1) by (simp add: phantom_inv_def)
  then show ?thesis using assms(2)
  proof (cases rule: adopt_cases [of p w e])
    case (adopted mat q)
    have "pm_groupId mat = pb_groupId w"
      using deserialize_fields [OF adopted(4)] by (simp add: wire_bundle_def)
    with adopted assms(1) show ?thesis
      by (auto simp: phantom_inv_def dest!: map_set_entries)
  qed (use assms in simp)
qed

lemma hold_inv: "phantom_inv p \<Longrightarrow> wire_ok w \<Longrightarrow> phantom_inv (holdPendingBundle c w f p)"
  by (auto simp: phantom_inv_def holdPendingBundle_def Let_def length_map_set dest!: map_set_entries)

lemma drop_pending_inv: "phantom_inv p \<Longrightarrow> phantom_inv (p\<lparr>ph_pending := map_del (ph_pending p) k\<rparr>)"
  using length_map_del_le [of "ph_pending p" k]
  by (auto simp: phantom_inv_def dest!: map_del_entries)

lemma retry_loop_ok:
  assumes "phantom_inv p" "\<forall>kq \<in> set ks. wire_ok (pe_wire (snd kq))"
  shows "phantom_inv (snd (snd (retry_loop e ks ch p))) \<and> grows e p (snd (snd (retry_loop e ks ch p)))"
  using assms
proof (induction ks arbitrary: ch p)
  case (Cons kq ks)
  obtain key q where kq: "kq = (key, q)" by (cases kq)
  have w: "wire_ok (pe_wire q)" and l: "ph_loaded p"
    using Cons.prems kq by (auto simp: phantom_inv_def)
  have step: "phantom_inv r \<and> grows e p r" if "retry_one e kq p = (Some (c, r), x) \<or> retry_one e kq p = (None, r)" for c r x
    using that Cons.prems(1) kq adopt_inv [OF Cons.prems(1) w, of e] adopt_grows [OF l w, of e]
    by (auto simp: retry_one_def Let_def grows_refl intro!: drop_pending_inv
             split: if_splits prod.splits option.splits AdoptResult.splits
             elim: grows_held)
  show ?case
  proof (cases "retry_one e kq p")
    case (Pair a r)
    show ?thesis
    proof (cases a)
      case None
      with Pair step [of _ r] show ?thesis by simp
    next
      case (Some cr)
      obtain c r' where cr: "cr = (c, r')" by (cases cr)
      with Some Pair have "phantom_inv r' \<and> grows e p r'" using step by blast
      moreover have "phantom_inv (snd (snd (retry_loop e ks (ch \<or> c) r')))
          \<and> grows e r' (snd (snd (retry_loop e ks (ch \<or> c) r')))"
        using calculation Cons.prems(2) by (intro Cons.IH) auto
      ultimately show ?thesis using Pair Some cr grows_trans by auto
    qed
  qed
qed (simp add: grows_refl)

lemma bundle_step_ok:
  assumes "phantom_inv p" "event_ok ev"
  shows "phantom_inv (bundle_step ev p) \<and> grows (event_env ev) p (bundle_step ev p)"
proof (cases ev)
  case (Arrives e c w f)
  have w: "wire_ok w" and l: "ph_loaded p" using assms Arrives by (auto simp: phantom_inv_def)
  show ?thesis
    using Arrives adopt_inv [OF assms(1) w, of e] adopt_grows [OF l w, of e c] hold_inv [OF _ w]
      assms(1)
    by (auto simp: receiveBundle_def grows_refl elim: grows_held
             split: prod.splits option.splits AdoptResult.splits)
next
  case (Sweeps e)
  have "\<forall>kq \<in> set (ph_pending p). wire_ok (pe_wire (snd kq))" using assms(1) by (simp add: phantom_inv_def)
  from retry_loop_ok [OF assms(1) this, of e False] show ?thesis
    using Sweeps by (auto simp: retryPendingBundles_def phantom_inv_def split: prod.split elim: grows_held)
qed

lemma bundle_run_ok:
  "phantom_inv p \<Longrightarrow> list_all event_ok evs \<Longrightarrow>
   phantom_inv (fold bundle_step evs p)
   \<and> (\<forall>g mat. held_mat p g = Some mat \<longrightarrow> held_mat (fold bundle_step evs p) g = Some mat)"
proof (induction evs arbitrary: p)
  case (Cons ev evs)
  have "phantom_inv (bundle_step ev p) \<and> grows (event_env ev) p (bundle_step ev p)"
    using Cons.prems by (intro bundle_step_ok) auto
  with Cons show ?case by (auto simp: grows_def)
qed simp

section \<open>Restart\<close>

text \<open>Every held bundle is stored as a text that reads back as it.\<close>

definition stored_ok :: "env \<Rightarrow> phantom \<Rightarrow> bool" where
  "stored_ok e p =
     (map_wf (ph_held p)
      \<and> (\<forall>(g, mat, j) \<in> set (ph_held p).
           Option.bind (read_bundle j) (deserialize e) = Some mat \<and> pm_groupId mat = g))"

lemma map_set_fresh: "\<not> map_has m k \<Longrightarrow> map_set m k v = m @ [(k, v)]"
  unfolding map_set_def map_has_def by (induction m) (auto split: if_splits)

lemma fold_map_set_distinct:
  "distinct (map fst (m @ kvs)) \<Longrightarrow> fold (\<lambda>(k, x) m. map_set m k x) kvs m = m @ kvs"
proof (induction kvs arbitrary: m)
  case (Cons kv kvs)
  then have "\<not> map_has m (fst kv)" by (auto simp: map_has_def map_of_eq_None_iff)
  with Cons show ?case by (cases kv) (auto simp: map_set_fresh)
qed simp

lemma activate_all_held:
  assumes "stored_ok e p" and "ph_held p = xs @ ys"
  shows "ph_held q = xs \<Longrightarrow> ph_held (activate_all e (map (\<lambda>(g, mat, j). JStr j) ys) q) = xs @ ys"
  using assms(2)
proof (induction ys arbitrary: xs q)
  case (Cons y ys)
  obtain g mat j where y: "y = (g, mat, j)" by (cases y)
  with assms(1) Cons.prems have j: "Option.bind (read_bundle j) (deserialize e) = Some mat"
      and g: "pm_groupId mat = g" and d: "distinct (map fst (xs @ y # ys))"
    by (auto simp: stored_ok_def map_wf_def)
  have "\<not> map_has xs g" using d y by (auto simp: map_has_def map_of_eq_None_iff)
  with Cons.IH [of "snd (the (activate e j q))" "xs @ [y]"] Cons.prems j g y show ?case
    by (simp add: activate_all_def activate_def map_set_fresh)
qed (simp add: activate_all_def)

lemma loadPending_frame [simp]:
  "ph_held (loadPending p) = ph_held p" "ph_items (loadPending p) = ph_items p"
  by (simp_all add: loadPending_def split: option.split)

lemma activate_items: "activate e j p = Some (m, q) \<Longrightarrow> ph_items q = ph_items p"
  by (auto simp: activate_def split: option.splits)

lemma activate_all_items: "ph_items (activate_all e vs p) = ph_items p"
proof -
  have "ph_items (case activate e (js_String v) q of None \<Rightarrow> q | Some (_, q') \<Rightarrow> q') = ph_items q" for v q
    by (auto split: option.split dest: activate_items)
  then show ?thesis unfolding activate_all_def
    by (induction vs arbitrary: p) simp_all
qed

lemma held_json_entries:
  assumes "map_wf (ph_held p)"
  shows "Option.bind (json_parse (the (it_personasPhantomBundles (ph_items (saveHeld p))))) obj_entries
    = Some (map (\<lambda>(g, mat, j). (g, JStr j)) (ph_held p))"
proof -
  let ?kvs = "map (\<lambda>(g, mat, j). (g, JStr j)) (ph_held p)"
  have "json_ok (JObj ?kvs)" by auto
  then have "json_parse (json_stringify (JObj ?kvs)) = Some (JObj ?kvs)" by (rule json_parse_stringify)
  moreover have keys: "map fst ?kvs = map fst (ph_held p)" by auto
  have "distinct (map fst ?kvs)" using assms unfolding keys map_wf_def .
  then have "fold (\<lambda>(k, x) m. map_set m k x) ?kvs [] = ?kvs"
    using fold_map_set_distinct [of "[]" ?kvs] by simp
  ultimately show ?thesis by (simp add: saveHeld_def obj_entries_def del: json_stringify.simps)
qed

lemma adopt_stored_ok:
  assumes "ph_loaded p" "wire_ok w" "stored_ok e p"
  shows "stored_ok e (snd (adoptPhantomBundle e w p))"
  using assms(1,2)
proof (cases rule: adopt_cases [of p w e])
  case (adopted mat q)
  have "pm_groupId mat = pb_groupId w"
    using deserialize_fields [OF adopted(4)] by (simp add: wire_bundle_def)
  with adopted assms(3) wire_bundle_roundtrip [OF assms(2)] show ?thesis
    by (auto simp: stored_ok_def simp del: json_stringify.simps dest!: map_set_entries)
qed (use assms in simp)

lemma adopt_succeeds:
  assumes "ph_loaded p" "wire_ok w" "isPersonasMode e" "held_mat p (pb_groupId w) = None"
    "\<not> atGroupLimit e p" "deserialize e (wire_bundle w) = Some mat"
  shows "adoptPhantomBundle e w p = (Some Adopted, snd (adoptPhantomBundle e w p))
    \<and> held_mat (snd (adoptPhantomBundle e w p)) (pb_groupId w) = Some mat"
proof -
  have g: "mat_for p (Some (pb_groupId w)) = None"
    using assms by (simp add: mat_for_def wire_ok_def)
  from assms(1) wire_bundle_roundtrip [OF assms(2)] show ?thesis
  proof (cases rule: commit_cases [where e = e])
    case (commits m q)
    with assms g show ?thesis
      by (simp add: adoptPhantomBundle_def ensurePhantomMaterial_def held_mat_def wire_bundle_def)
  qed (use assms(6) in simp)
qed

lemma installOneChain_single [simp]:
  "it_personasPhantomBundle (ph_items (installOneChain e m p)) = it_personasPhantomBundle (ph_items p)"
  by (simp add: installOneChain_def Let_def split: option.split)

lemma commit_single:
  assumes "ph_loaded p"
  shows "it_personasPhantomBundle (ph_items (snd (commitBundle e j p))) = it_personasPhantomBundle (ph_items p)"
proof -
  have "it_personasPhantomBundle (ph_items (fold (installOneChain e) ms q)) = it_personasPhantomBundle (ph_items q)"
    for ms q by (induction ms arbitrary: q) simp_all
  with assms show ?thesis
    by (auto simp: commitBundle_def installPhantomChain_def Let_def saveHeld_def activate_def split: option.split)
qed

lemma adopt_single:
  "ph_loaded p \<Longrightarrow>
   it_personasPhantomBundle (ph_items (snd (adoptPhantomBundle e w p))) = it_personasPhantomBundle (ph_items p)"
  using commit_single [of p e]
  by (auto simp: adoptPhantomBundle_def ensurePhantomMaterial_def split: option.split prod.split)
     (metis snd_conv)+

section \<open>A concrete group\<close>

definition demo_env :: env where
  "demo_env =
     \<lparr>env_now = 1000, env_PERSONAS_AUTO_REGISTER = Some ''1'', env_PERSONAS_KEYS_DIR = None,
      env_PERSONAS_BARRIER_PERIOD_MS = None, env_ourAci = Some ''me'',
      env_conversations =
        [(''G'', \<lparr>cv_groupId = Some ''G'', cv_isGroupV2 = True, cv_left = False, cv_terminated = False,
                 cv_weAreAdmin = True, cv_admins = [''me''], cv_title = ''G'',
                 cv_members = [\<lparr>mb_conversationId = ''c0'', mb_serviceId = Some ''me'', mb_isMe = True, mb_title = ''Me'', mb_profileKey = Some ''k''\<rparr>,
                               \<lparr>mb_conversationId = ''c1'', mb_serviceId = Some ''alice'', mb_isMe = False, mb_title = ''Alice'', mb_profileKey = None\<rparr>]\<rparr>)],
      env_libsignal = \<lparr>ls_identity = (\<lambda>b. if b = [] then None else Some b),
                       ls_cert = (\<lambda>b. if b = [] then None else Some b),
                       ls_skdm = (\<lambda>b. if b = [] then None else Some b),
                       ls_senderKeyRecord = (\<lambda>b. if b = [] then None else Some b)\<rparr>,
      env_sha256 = (\<lambda>s. s)\<rparr>"

definition demo_wire :: PersonaPhantomBundleWire where
  "demo_wire =
     \<lparr>pb_groupId = ''G'', pb_trustRootPublic = ''AQID'', pb_phantomIdentityKeyPair = ''AQID'',
      pb_phantomCert = ''AQID'', pb_distributionId = ''d'', pb_skdm = ''AQID'', pb_chainRecord = ''AQID'',
      pb_anchorMs = 1000, pb_periodMs = JNum (Fin 10000)\<rparr>"

definition demo_keys :: fresh_keys where
  "demo_keys = \<lparr>fk_trustRootPublic = ''r'', fk_phantomIdentity = ''i'', fk_phantomCert = ''c'',
     fk_distributionId = ''e'', fk_skdm = ''k'', fk_sendKeyRecord = Some ''s''\<rparr>"

definition demo_start :: phantom where
  "demo_start = (phantom_boot items0 [])\<lparr>ph_loaded := True\<rparr>"

definition demo_held :: phantom where
  "demo_held = snd (adoptPhantomBundle demo_env demo_wire demo_start)"

lemma demo_start_inv: "phantom_inv demo_start"
  by (simp add: phantom_inv_def demo_start_def phantom_boot_def MAX_PENDING_BUNDLES_def)

lemma demo_wire_ok: "wire_ok demo_wire"
  by code_simp

lemma demo_held_inv: "phantom_inv demo_held"
  unfolding demo_held_def by (rule adopt_inv [OF demo_start_inv demo_wire_ok])

lemma demo_start_facts:
  "ph_loaded demo_start" "isPersonasMode demo_env" "held_mat demo_start ''G'' = None"
  "\<not> atGroupLimit demo_env demo_start" "stored_ok demo_env demo_start" "pb_groupId demo_wire = ''G''"
  "it_personasPhantomBundle (ph_items demo_start) = None" "isFellowGroupMember demo_env ''c1'' ''G''"
  by code_simp+

lemma demo_deserialize:
  "\<exists>mat. deserialize demo_env (wire_bundle demo_wire) = Some mat \<and> pm_trustRootPublicBase64 mat = ''AQID''"
proof -
  have "case deserialize demo_env (wire_bundle demo_wire) of None \<Rightarrow> False
      | Some mat \<Rightarrow> pm_trustRootPublicBase64 mat = ''AQID''"
    by code_simp
  then show ?thesis by (auto split: option.splits)
qed

lemma demo_adopts:
  "adoptPhantomBundle demo_env demo_wire demo_start = (Some Adopted, demo_held)"
  "map_option pm_trustRootPublicBase64 (held_mat demo_held ''G'') = Some ''AQID''"
proof -
  obtain mat where m: "deserialize demo_env (wire_bundle demo_wire) = Some mat"
      "pm_trustRootPublicBase64 mat = ''AQID''"
    using demo_deserialize by blast
  have n: "held_mat demo_start (pb_groupId demo_wire) = None" using demo_start_facts(3,6) by simp
  from adopt_succeeds [OF demo_start_facts(1) demo_wire_ok demo_start_facts(2) n demo_start_facts(4) m(1)]
  show "adoptPhantomBundle demo_env demo_wire demo_start = (Some Adopted, demo_held)"
    "map_option pm_trustRootPublicBase64 (held_mat demo_held ''G'') = Some ''AQID''"
    using m(2) demo_start_facts(6) by (simp_all add: demo_held_def)
qed

lemma demo_held_mat: "held_mat demo_held ''G'' \<noteq> None" "stored_ok demo_env demo_held"
  "it_personasPhantomBundle (ph_items demo_held) = None"
  using demo_adopts(2) adopt_stored_ok [OF demo_start_facts(1) demo_wire_ok demo_start_facts(5)]
    adopt_single [OF demo_start_facts(1), of demo_env demo_wire] demo_start_facts(7)
  by (auto simp: demo_held_def)

section \<open>Properties\<close>

text \<open>C1. First bundle wins, for good: after boot, whatever bundles arrive from whomever and
  however often the pending ones are retried, a group's phantom material is never replaced.\<close>
theorem first_bundle_wins:
  assumes "phantom_inv p" and "list_all event_ok evs" and "held_mat p g = Some mat"
  shows "held_mat (fold bundle_step evs p) g = Some mat"
  using bundle_run_ok [OF assms(1,2)] assms(3) by blast

theorem first_bundle_wins_witness:
  "\<exists>mat. held_mat demo_held ''G'' = Some mat
     \<and> held_mat (fold bundle_step [Arrives demo_env ''c1'' demo_wire ''alice'', Sweeps demo_env] demo_held) ''G'' = Some mat"
proof -
  obtain mat where m: "held_mat demo_held ''G'' = Some mat" using demo_held_mat(1) by auto
  show ?thesis
    using first_bundle_wins [OF demo_held_inv _ m, of "[Arrives demo_env ''c1'' demo_wire ''alice'', Sweeps demo_env]"]
      m demo_wire_ok
    by simp
qed





text \<open>C36. Restart: the bundles a member holds when it saves are exactly those a new process loads,
  in the same order.\<close>
theorem bundles_survive_restart:
  assumes "isPersonasMode e" and "stored_ok e p" and "it_personasPhantomBundle (ph_items p) = None"
  shows "ph_held (loadHeld e (phantom_boot (ph_items (saveHeld p)) chs)) = ph_held p"
proof -
  let ?q = "loadPending (phantom_boot (ph_items (saveHeld p)) chs\<lparr>ph_loaded := True\<rparr>)"
  have items: "ph_items ?q = ph_items (saveHeld p)" "ph_held ?q = []" by (simp_all add: phantom_boot_def)
  have ne: "truthy_str (it_personasPhantomBundles (ph_items (saveHeld p)))"
    by (simp add: saveHeld_def truthy_str_def)
  have wf: "map_wf (ph_held p)" using assms(2) by (simp add: stored_ok_def)
  let ?r = "activate_all e (map snd (map (\<lambda>(g, mat, j). (g, JStr j)) (ph_held p))) ?q"
  have "load_bundles e ?q = Some ?r"
    using ne items held_json_entries [OF wf] by (simp add: load_bundles_def)
  moreover have "ph_held ?r = ph_held p"
    using activate_all_held [OF assms(2), of "[]" "ph_held p" ?q] items
    by (simp add: comp_def case_prod_unfold)
  moreover have "load_single e ?r = ?r"
    using assms(3) items by (simp add: load_single_def activate_all_items saveHeld_def truthy_str_def)
  ultimately show ?thesis
    using assms(1) by (simp add: loadHeld_def phantom_boot_def Let_def)
qed

theorem bundles_survive_restart_witness:
  "held_mat demo_held ''G'' \<noteq> None
   \<and> ph_held (loadHeld demo_env (phantom_boot (ph_items (saveHeld demo_held)) [])) = ph_held demo_held"
  using bundles_survive_restart [OF demo_start_facts(2) demo_held_mat(2,3), of "[]"] demo_held_mat(1) by simp

text \<open>Minting checks for an existing bundle before its keys are generated, not after: a bundle
  adopted for the group in between is replaced by the minted one.\<close>

theorem mint_replaces_concurrent_adoption:
  assumes "mint_begin e (Some g) p = (MintGenerate g, q)"
    and "adoptPhantomBundle e w q = (Some Adopted, r)"
    and "ph_loaded r" and "is_safe_integer (js_int (env_now e))" and "is_safe_integer (minted_period e)"
    and "generateBundle e k g = Some b" and "deserialize e b = Some mat"
  shows "held_mat (snd (mint_finish e k g r)) g = Some mat"
proof -
  have b: "sb_groupId b = g" "json_ok (sb_schedule b)"
    using assms(4-6) by (auto simp: generateBundle_def split: option.splits)
  from assms(3) bundle_json_roundtrip [OF b(2)] show ?thesis
  proof (cases rule: commit_cases [where e = e])
    case fail
    with assms(7) show ?thesis by simp
  next
    case (commits m s)
    with b(1) assms(6,7) show ?thesis by (simp add: mint_finish_def held_mat_def)
  qed
qed

theorem mint_replaces_concurrent_adoption_witness:
  "\<exists>m1 m2. held_mat demo_held ''G'' = Some m1
     \<and> held_mat (snd (mint_finish demo_env demo_keys ''G'' demo_held)) ''G'' = Some m2
     \<and> pm_trustRootPublicBase64 m1 \<noteq> pm_trustRootPublicBase64 m2"
proof -
  obtain b mat where bm: "generateBundle demo_env demo_keys ''G'' = Some b" "deserialize demo_env b = Some mat"
      "pm_trustRootPublicBase64 mat \<noteq> ''AQID''"
  proof -
    have "case generateBundle demo_env demo_keys ''G'' of None \<Rightarrow> False | Some b \<Rightarrow>
        (case deserialize demo_env b of None \<Rightarrow> False | Some mat \<Rightarrow> pm_trustRootPublicBase64 mat \<noteq> ''AQID'')"
      by code_simp
    then show thesis using that by (auto split: option.splits)
  qed
  have pre: "mint_begin demo_env (Some ''G'') demo_start = (MintGenerate ''G'', demo_start)"
    "is_safe_integer (js_int (env_now demo_env))" "is_safe_integer (minted_period demo_env)"
    by code_simp+
  have l: "ph_loaded demo_held" using demo_held_inv by (simp add: phantom_inv_def)
  show ?thesis
    using mint_replaces_concurrent_adoption [OF pre(1) demo_adopts(1) l pre(2,3) bm(1,2)] bm(3) demo_adopts(2)
    by auto
qed

text \<open>A pending bundle whose key material libsignal cannot read stops the whole sweep: when it
  is the first pending entry, comes from a fellow member and there is room, the retry throws
  before any later pending bundle is tried, and nothing changes, so the next sweep stops there
  again.\<close>

theorem unreadable_pending_bundle_blocks_sweep:
  assumes "ph_loaded p" and "isPersonasMode e" and "ph_pending p = (key, q) # rest" and "wire_ok (pe_wire q)"
    and "held_mat p (pb_groupId (pe_wire q)) = None" and "\<not> atGroupLimit e p"
    and "isFellowGroupMember e (pe_conversationId q) (pb_groupId (pe_wire q))"
    and "deserialize e (wire_bundle (pe_wire q)) = None"
  shows "retryPendingBundles e p = (False, p)"
proof -
  have "\<not> map_has (ph_held p) (pb_groupId (pe_wire q))"
    using assms(5) by (simp add: held_mat_def map_has_get)
  moreover have "adoptPhantomBundle e (pe_wire q) p = (None, p)"
    using assms(1) wire_bundle_roundtrip [OF assms(4)]
  proof (cases rule: commit_cases [where e = e])
    case fail
    with assms(1,2,4,5,6) show ?thesis
      by (simp add: adoptPhantomBundle_def ensurePhantomMaterial_def mat_for_def wire_ok_def)
  qed (use assms(8) in simp)
  ultimately show ?thesis
    using assms(3,7) by (simp add: retryPendingBundles_def retry_one_def)
qed

theorem unreadable_pending_bundle_blocks_sweep_witness:
  "let p = demo_start\<lparr>ph_pending := [(''c1:G'', \<lparr>pe_wire = demo_wire\<lparr>pb_skdm := []\<rparr>, pe_from = ''alice'',
                                       pe_conversationId = ''c1''\<rparr>)]\<rparr>
   in retryPendingBundles demo_env p = (False, p)"
  unfolding Let_def
  by (rule unreadable_pending_bundle_blocks_sweep [where rest = "[]" and key = "''c1:G''"
        and q = "\<lparr>pe_wire = demo_wire\<lparr>pb_skdm := []\<rparr>, pe_from = ''alice'', pe_conversationId = ''c1''\<rparr>"])
     (code_simp+)?

end
