(* ===== verification/Persistence.thy ===== *)
theory Persistence
  imports Phantom
begin

text \<open>
  \<^verbatim>\<open>ts/services/personasPersistence.preload.ts\<close>: keeping a member's state on disk, encrypted.

  The storage directory is a map from folders to files.  AES-256-GCM is the parameter record
  \<open>aead\<close>; what the code relies on is \<open>aead_ok\<close> (opening what was sealed under the same key, nonce
  and associated data gives it back; the tag has 16 bytes).  The lists other modules register
  are records \<open>extra\<close> over the application state \<open>'a\<close>, in registration order.  How the file
  operations of a call turn out is a parameter of the call.

  The locale \<open>persisted_extra\<close> is the contract of a registered list; every module that registers
  one interprets it.
\<close>

section \<open>Extras\<close>

record 'a extra =
  ex_name :: string
  ex_snapshot :: "'a \<Rightarrow> string \<Rightarrow> json option"
  ex_restore :: "string \<Rightarrow> json \<Rightarrow> 'a \<Rightarrow> 'a"

definition registerPersistedExtra :: "'a extra \<Rightarrow> 'a extra list \<Rightarrow> 'a extra list" where
  "registerPersistedExtra x xs =
     map snd (map_set (map (\<lambda>y. (ex_name y, y)) xs) (ex_name x) x)"

locale persisted_extra =
  fixes snapshot :: "'st \<Rightarrow> string \<Rightarrow> json option"
    and restore :: "string \<Rightarrow> json \<Rightarrow> 'st \<Rightarrow> 'st"
    and view :: "'st \<Rightarrow> string \<Rightarrow> 'v"
    and sane :: "'st \<Rightarrow> string \<Rightarrow> bool"
    and blank :: "'st \<Rightarrow> string \<Rightarrow> bool"
  assumes snapshot_json_ok: "sane st g \<Longrightarrow> snapshot st g = Some j \<Longrightarrow> json_ok j"
    and restore_snapshot: "sane st g \<Longrightarrow> blank st' g \<Longrightarrow> snapshot st g = Some j \<Longrightarrow> view (restore g j st') g = view st g"
    and restore_frame: "g' \<noteq> g \<Longrightarrow> view (restore g j st) g' = view st g'"
begin

lemma snapshot_survives_disk:
  assumes "sane st g" and "blank st' g" and "snapshot st g = Some j" and "json_parse (json_stringify j) = Some j'"
  shows "view (restore g j' st') g = view st g"
  using assms snapshot_json_ok restore_snapshot by (metis json_parse_stringify option.inject)

lemma restore_other_groups: "g' \<notin> set gs \<Longrightarrow> view (fold (\<lambda>g. restore g j) gs st) g' = view st g'"
  by (induction gs arbitrary: st) (auto simp: restore_frame)

end

section \<open>State\<close>

record aead =
  seal :: "string \<Rightarrow> string \<Rightarrow> string \<Rightarrow> string \<Rightarrow> string \<times> string"
  unseal :: "string \<Rightarrow> string \<Rightarrow> string \<Rightarrow> string \<Rightarrow> string \<Rightarrow> string option"

definition aead_ok :: "aead \<Rightarrow> bool" where
  "aead_ok ae =
     (\<forall>k iv ad plain. length (fst (seal ae k iv ad plain)) = 16
        \<and> unseal ae k iv ad (fst (seal ae k iv ad plain)) (snd (seal ae k iv ad plain)) = Some plain)"

definition MAGIC :: string where "MAGIC = ''PZS1''"
definition IV_BYTES :: nat where "IV_BYTES = 12"
definition TAG_BYTES :: nat where "TAG_BYTES = 16"

type_synonym disk = "(string, (string, string) jsmap) jsmap"

record GroupState =
  gs_folder :: string
  gs_lastMemberState :: "string option"

record persistence =
  ps_storage :: "string option"
  ps_initialized :: bool
  ps_groups :: "(string, GroupState) jsmap"
  ps_disk :: disk

definition initPersonasPersistence :: "string option \<Rightarrow> persistence \<Rightarrow> persistence" where
  "initPersonasPersistence key ps =
     (if ps_initialized ps then ps
      else (case key of
              Some k \<Rightarrow> ps\<lparr>ps_initialized := True, ps_storage := Some k\<rparr>
            | None \<Rightarrow> ps\<lparr>ps_initialized := True\<rparr>))"

definition groupDir :: "persistence \<Rightarrow> string \<Rightarrow> string option" where
  "groupDir ps g =
     (case (ps_storage ps, map_get (ps_groups ps) g) of
        (Some _, Some st) \<Rightarrow> Some (gs_folder st)
      | _ \<Rightarrow> None)"

definition folder_files :: "disk \<Rightarrow> string \<Rightarrow> (string, string) jsmap" where
  "folder_files d f = (case map_get d f of None \<Rightarrow> [] | Some fs \<Rightarrow> fs)"

definition file_at :: "disk \<Rightarrow> string \<Rightarrow> string \<Rightarrow> string option" where
  "file_at d f n = map_get (folder_files d f) n"

definition write_file :: "string \<Rightarrow> string \<Rightarrow> string \<Rightarrow> disk \<Rightarrow> disk" where
  "write_file f n bytes d = map_set d f (map_set (folder_files d f) n bytes)"

definition remove_file :: "string \<Rightarrow> string \<Rightarrow> disk \<Rightarrow> disk" where
  "remove_file f n d = (if map_has d f then map_set d f (map_del (folder_files d f) n) else d)"

section \<open>Opening a group's folder\<close>

datatype open_io = OpenOk | MkdirFails | RemoveFailsAfter nat

definition keep_folders :: "env \<Rightarrow> phantom \<Rightarrow> string \<Rightarrow> string list" where
  "keep_folders e p folder =
     set_add (remdups (map (\<lambda>fp. fp @ ''-v3'')
       (List.map_filter (\<lambda>g. getPhantomBundleFingerprint e p (Some g)) (getPersonasGroupIds p)))) folder"

definition prune :: "string list \<Rightarrow> string list \<Rightarrow> disk \<Rightarrow> disk" where
  "prune keep entries d = fold (\<lambda>entry d. if entry \<in> set keep then d else map_del d entry) entries d"

definition openPersonasGroupState :: "env \<Rightarrow> phantom \<Rightarrow> open_io \<Rightarrow> string \<Rightarrow> string \<Rightarrow> persistence \<Rightarrow>
    string option \<times> persistence" where
  "openPersonasGroupState e p io groupId folder ps =
     (case ps_storage ps of
        None \<Rightarrow> (None, ps)
      | Some _ \<Rightarrow>
        (let ps1 = ps\<lparr>ps_groups := map_set (ps_groups ps) groupId
                        \<lparr>gs_folder = folder, gs_lastMemberState = None\<rparr>\<rparr>;
             made = (if map_has (ps_disk ps) folder then ps_disk ps else map_set (ps_disk ps) folder []);
             keep = keep_folders e p folder;
             failed = ps1\<lparr>ps_groups := map_del (ps_groups ps1) groupId\<rparr> in
         case io of
           MkdirFails \<Rightarrow> (None, failed)
         | RemoveFailsAfter n \<Rightarrow> (None, failed\<lparr>ps_disk := prune keep (take n (map_keys made)) made\<rparr>)
         | OpenOk \<Rightarrow> (Some (folder @ ''/journal.bin''),
                      ps1\<lparr>ps_disk := prune keep (map_keys made) made\<rparr>)))"

section \<open>Saving\<close>

definition state_aad :: "string \<Rightarrow> string" where
  "state_aad folder = ''personas-state|'' @ folder"

definition state_json :: "'a extra list \<Rightarrow> 'a \<Rightarrow> string \<Rightarrow> string option \<Rightarrow> json" where
  "state_json xs app groupId mem =
     JObj (opt_member ''member'' (\<lambda>m. JStr (b64_encode m)) mem
           @ [(''extras'', JObj (List.map_filter
                (\<lambda>x. map_option (\<lambda>j. (ex_name x, j)) (ex_snapshot x app groupId)) xs))])"

definition state_file :: "aead \<Rightarrow> string \<Rightarrow> string \<Rightarrow> string \<Rightarrow> json \<Rightarrow> string" where
  "state_file ae key iv folder v =
     (let (tag, body) = seal ae key iv (state_aad folder) (json_stringify v) in MAGIC @ iv @ tag @ body)"

text \<open>How a save goes: every file operation succeeds; one of them fails and the old file is then
  deleted; one fails and so does deleting, which throws.\<close>

datatype save_io = SaveOk | SaveFails | SaveFailsAndDelete
datatype save_result = Saved | Refused | Raised

definition savePersonasState :: "aead \<Rightarrow> 'a extra list \<Rightarrow> 'a \<Rightarrow> save_io \<Rightarrow> string \<Rightarrow> string \<Rightarrow> string option \<Rightarrow>
    persistence \<Rightarrow> save_result \<times> persistence" where
  "savePersonasState ae xs app io iv groupId memberState ps =
     (let ps1 = (case (map_get (ps_groups ps) groupId, memberState) of
                   (Some st, Some m) \<Rightarrow>
                     ps\<lparr>ps_groups := map_set (ps_groups ps) groupId (st\<lparr>gs_lastMemberState := Some m\<rparr>)\<rparr>
                 | _ \<Rightarrow> ps) in
      case (ps_storage ps1, map_get (ps_groups ps1) groupId) of
        (Some key, Some st) \<Rightarrow>
          (let folder = gs_folder st;
               bytes = state_file ae key iv folder (state_json xs app groupId (gs_lastMemberState st)) in
           case io of
             SaveOk \<Rightarrow> (Saved, ps1\<lparr>ps_disk := remove_file folder ''state.bin.tmp''
                                   (write_file folder ''state.bin'' bytes (ps_disk ps1))\<rparr>)
           | SaveFails \<Rightarrow> (Refused, ps1\<lparr>ps_disk := remove_file folder ''state.bin.tmp''
                                   (remove_file folder ''state.bin'' (ps_disk ps1))\<rparr>)
           | SaveFailsAndDelete \<Rightarrow> (Raised, ps1))
      | _ \<Rightarrow> (Saved, ps1))"

definition personasExtrasChanged :: "aead \<Rightarrow> 'a extra list \<Rightarrow> 'a \<Rightarrow> save_io \<Rightarrow> string \<Rightarrow> string option \<Rightarrow>
    persistence \<Rightarrow> persistence" where
  "personasExtrasChanged ae xs app io iv groupId ps =
     (case groupId of
        None \<Rightarrow> ps
      | Some g \<Rightarrow>
          (if g \<noteq> [] \<and> Option.bind (map_get (ps_groups ps) g) gs_lastMemberState \<noteq> None
           then snd (savePersonasState ae xs app io iv g None ps) else ps))"

section \<open>Loading\<close>

definition open_state_file :: "aead \<Rightarrow> string \<Rightarrow> string \<Rightarrow> string \<Rightarrow> json option" where
  "open_state_file ae key folder raw =
     (if length raw < length MAGIC + IV_BYTES + TAG_BYTES \<or> take 4 raw \<noteq> MAGIC then None
      else
        (let iv = take IV_BYTES (drop 4 raw);
             tag = take TAG_BYTES (drop (4 + IV_BYTES) raw)
         in Option.bind (unseal ae key iv (state_aad folder) tag (drop (4 + IV_BYTES + TAG_BYTES) raw)) json_parse))"

text \<open>\<^verbatim>\<open>parsed.extras && name in parsed.extras\<close>: \<open>Inl\<close> is the throw of \<^verbatim>\<open>in\<close> on a primitive.\<close>

definition stored_extra :: "json \<Rightarrow> string \<Rightarrow> unit + json option" where
  "stored_extra parsed name =
     (case jget parsed ''extras'' of
        Some (JObj kvs) \<Rightarrow> Inr (jget (JObj kvs) name)
      | Some (JArr _) \<Rightarrow> Inr None
      | v \<Rightarrow> if js_truthy v then Inl () else Inr None)"

fun restore_extras :: "'a extra list \<Rightarrow> string \<Rightarrow> json \<Rightarrow> 'a \<Rightarrow> bool \<times> 'a" where
  "restore_extras [] g parsed app = (True, app)"
| "restore_extras (x # xs) g parsed app =
     (case stored_extra parsed (ex_name x) of
        Inl _ \<Rightarrow> (False, app)
      | Inr None \<Rightarrow> restore_extras xs g parsed app
      | Inr (Some j) \<Rightarrow> restore_extras xs g parsed (ex_restore x g j app))"

text \<open>\<^verbatim>\<open>parsed.member\<close>: \<open>Inl\<close> where \<^verbatim>\<open>Buffer.from\<close> throws.\<close>

definition stored_member :: "json \<Rightarrow> unit + string option" where
  "stored_member parsed =
     (case jget parsed ''member'' of
        Some (JStr s) \<Rightarrow> Inr (if s = [] then None else Some (b64_decode s))
      | v \<Rightarrow> if js_truthy v then Inl () else Inr None)"

definition set_aside :: "bool \<Rightarrow> int \<Rightarrow> string \<Rightarrow> disk \<Rightarrow> disk" where
  "set_aside renameOk now folder d =
     (if renameOk then
        (case file_at d folder ''state.bin'' of
           None \<Rightarrow> d
         | Some bytes \<Rightarrow> write_file folder (''state.bin.unreadable-'' @ show_int now) bytes
                           (remove_file folder ''state.bin'' d))
      else d)"

definition loadPersonasState :: "aead \<Rightarrow> 'a extra list \<Rightarrow> bool \<Rightarrow> int \<Rightarrow> string \<Rightarrow> 'a \<times> persistence \<Rightarrow>
    string option \<times> 'a \<times> persistence" where
  "loadPersonasState ae xs renameOk now groupId ap =
     (case ap of (app, ps) \<Rightarrow>
      (case (ps_storage ps, map_get (ps_groups ps) groupId) of
        (Some key, Some st) \<Rightarrow>
          (let folder = gs_folder st;
               unreadable = ps\<lparr>ps_disk := set_aside renameOk now folder (ps_disk ps)\<rparr> in
           case file_at (ps_disk ps) folder ''state.bin'' of
             None \<Rightarrow> (None, app, ps)
           | Some raw \<Rightarrow>
               (case open_state_file ae key folder raw of
                  None \<Rightarrow> (None, app, unreadable)
                | Some parsed \<Rightarrow>
                    (if parsed = JNull then (None, app, unreadable)
                     else
                       (case restore_extras xs groupId parsed app of
                          (False, app') \<Rightarrow> (None, app', unreadable)
                        | (True, app') \<Rightarrow>
                            (case stored_member parsed of
                               Inl _ \<Rightarrow> (None, app', unreadable)
                             | Inr m \<Rightarrow>
                                 (m, app', ps\<lparr>ps_groups := map_set (ps_groups ps) groupId
                                               (st\<lparr>gs_lastMemberState := m\<rparr>)\<rparr>))))))
      | _ \<Rightarrow> (None, app, ps)))"

section \<open>Files\<close>

lemma folder_files_set [simp]: "folder_files (map_set d f fs) f' = (if f' = f then fs else folder_files d f')"
  by (simp add: folder_files_def)

lemma file_at_write [simp]:
  "file_at (write_file f n b d) f' n' = (if f' = f \<and> n' = n then Some b else file_at d f' n')"
  by (simp add: file_at_def write_file_def)

lemma file_at_remove [simp]:
  "file_at (remove_file f n d) f' n' = (if f' = f \<and> n' = n then None else file_at d f' n')"
  by (auto simp: file_at_def remove_file_def map_has_get folder_files_def)

lemma open_state_file_seal:
  assumes "aead_ok ae" and "length iv = IV_BYTES" and "json_ok v"
  shows "open_state_file ae key folder (state_file ae key iv folder v) = Some v"
proof -
  obtain tag body where tb: "seal ae key iv (state_aad folder) (json_stringify v) = (tag, body)"
    by (cases "seal ae key iv (state_aad folder) (json_stringify v)")
  have "length tag = 16 \<and> unseal ae key iv (state_aad folder) tag body = Some (json_stringify v)"
    using assms(1) tb unfolding aead_ok_def by (metis fst_conv snd_conv)
  moreover have "drop (4 + IV_BYTES + TAG_BYTES) (MAGIC @ iv @ tag @ body) = body"
    using calculation assms(2) by (simp add: MAGIC_def IV_BYTES_def TAG_BYTES_def)
  ultimately show ?thesis
    using assms(2,3) tb
    by (simp add: open_state_file_def state_file_def MAGIC_def IV_BYTES_def TAG_BYTES_def json_parse_stringify)
qed

definition extras_ok :: "'a extra list \<Rightarrow> 'a \<Rightarrow> string \<Rightarrow> bool" where
  "extras_ok xs app g =
     (distinct (map ex_name xs) \<and> (\<forall>x \<in> set xs. \<forall>j. ex_snapshot x app g = Some j \<longrightarrow> json_ok j))"

lemma state_json_ok: "extras_ok xs app g \<Longrightarrow> json_ok (state_json xs app g m)"
  by (auto simp: state_json_def extras_ok_def opt_member_def List.map_filter_def split: option.split)

lemma state_json_member: "stored_member (state_json xs app g m) = Inr (case m of None \<Rightarrow> None | Some s \<Rightarrow> if s = [] then None else Some s)"
  by (simp add: stored_member_def state_json_def opt_member_def js_truthy_def split: option.split)

lemma state_json_extra:
  assumes "distinct (map ex_name xs)" and "x \<in> set xs"
  shows "stored_extra (state_json xs app g m) (ex_name x) = Inr (ex_snapshot x app g)"
proof -
  let ?kvs = "List.map_filter (\<lambda>x. map_option (\<lambda>j. (ex_name x, j)) (ex_snapshot x app g)) xs"
  have d: "distinct (map fst ?kvs)"
    using assms(1) by (induction xs) (auto simp: map_filter_simps List.map_filter_def split: option.split)
  have "map_of ?kvs (ex_name x) = ex_snapshot x app g"
    using assms
  proof (induction xs)
    case (Cons y xs)
    have "map_of (List.map_filter (\<lambda>x. map_option (\<lambda>j. (ex_name x, j)) (ex_snapshot x app g)) xs) (ex_name y) = None"
      using Cons.prems(1) by (auto simp: map_of_eq_None_iff List.map_filter_def)
    moreover have "z \<in> set xs \<Longrightarrow> ex_name z \<noteq> ex_name y" for z using Cons.prems(1) by (auto dest: sym)
    ultimately show ?case using Cons by (auto simp: map_filter_simps split: option.split)
  qed simp
  then have "jget (JObj ?kvs) (ex_name x) = ex_snapshot x app g"
    unfolding jget_distinct [OF d] .
  moreover have "jget (state_json xs app g m) ''extras'' = Some (JObj ?kvs)"
    by (simp add: state_json_def opt_member_def split: option.split)
  ultimately show ?thesis by (simp add: stored_extra_def del: jget.simps)
qed

text \<open>What loading does to the application state, spelled out per extra.\<close>

definition restored :: "'a extra list \<Rightarrow> 'a \<Rightarrow> string \<Rightarrow> 'a \<Rightarrow> 'a" where
  "restored xs saved g app =
     fold (\<lambda>x a. case ex_snapshot x saved g of None \<Rightarrow> a | Some j \<Rightarrow> ex_restore x g j a) xs app"

lemma restore_extras_state:
  assumes "distinct (map ex_name xs)" "set ys \<subseteq> set xs"
  shows "restore_extras ys g (state_json xs saved g m) app = (True, restored ys saved g app)"
  using assms(2)
  by (induction ys arbitrary: app)
     (auto simp: restored_def state_json_extra [OF assms(1)] split: option.split)

section \<open>A run of saves\<close>

record 'a save_call =
  sc_app :: 'a
  sc_io :: save_io
  sc_iv :: string
  sc_member :: "string option"

definition do_save :: "aead \<Rightarrow> 'a extra list \<Rightarrow> string \<Rightarrow> 'a save_call \<Rightarrow> persistence \<Rightarrow> persistence" where
  "do_save ae xs g c ps = snd (savePersonasState ae xs (sc_app c) (sc_io c) (sc_iv c) g (sc_member c) ps)"

definition latest_member :: "string option \<Rightarrow> 'a save_call list \<Rightarrow> string option" where
  "latest_member m0 cs = fold (\<lambda>c m. case sc_member c of None \<Rightarrow> m | Some x \<Rightarrow> Some x) cs m0"

text \<open>The file of the group is absent, or holds the member state saved last.\<close>

definition current_or_absent :: "aead \<Rightarrow> 'a extra list \<Rightarrow> string \<Rightarrow> string \<Rightarrow> string \<Rightarrow> string option \<Rightarrow> persistence \<Rightarrow> bool" where
  "current_or_absent ae xs g key folder m ps =
     (file_at (ps_disk ps) folder ''state.bin'' = None
      \<or> (\<exists>app iv. extras_ok xs app g \<and> length iv = IV_BYTES
           \<and> file_at (ps_disk ps) folder ''state.bin'' = Some (state_file ae key iv folder (state_json xs app g m))))"

definition group_open :: "persistence \<Rightarrow> string \<Rightarrow> string \<Rightarrow> string \<Rightarrow> string option \<Rightarrow> bool" where
  "group_open ps g key folder m =
     (ps_storage ps = Some key \<and> map_get (ps_groups ps) g = Some \<lparr>gs_folder = folder, gs_lastMemberState = m\<rparr>)"

definition call_ok :: "'a extra list \<Rightarrow> string \<Rightarrow> 'a save_call \<Rightarrow> bool" where
  "call_ok xs g c = (sc_io c \<noteq> SaveFailsAndDelete \<and> length (sc_iv c) = IV_BYTES \<and> extras_ok xs (sc_app c) g)"

lemma save_open_group:
  assumes "group_open ps g key folder m"
  shows "savePersonasState ae xs app io iv g mem ps =
    (let m' = (case mem of None \<Rightarrow> m | Some x \<Rightarrow> Some x);
         ps1 = (if mem = None then ps
                else ps\<lparr>ps_groups := map_set (ps_groups ps) g \<lparr>gs_folder = folder, gs_lastMemberState = m'\<rparr>\<rparr>);
         bytes = state_file ae key iv folder (state_json xs app g m')
     in case io of
          SaveOk \<Rightarrow> (Saved, ps1\<lparr>ps_disk := remove_file folder ''state.bin.tmp''
                                (write_file folder ''state.bin'' bytes (ps_disk ps))\<rparr>)
        | SaveFails \<Rightarrow> (Refused, ps1\<lparr>ps_disk := remove_file folder ''state.bin.tmp''
                                (remove_file folder ''state.bin'' (ps_disk ps))\<rparr>)
        | SaveFailsAndDelete \<Rightarrow> (Raised, ps1))"
  using assms by (cases mem) (simp_all add: savePersonasState_def group_open_def Let_def split: save_io.split)

lemma do_save_step:
  assumes "group_open ps g key folder m" and "call_ok xs g c"
  shows "group_open (do_save ae xs g c ps) g key folder (latest_member m [c])
    \<and> current_or_absent ae xs g key folder (latest_member m [c]) (do_save ae xs g c ps)"
proof -
  note eq = save_open_group [OF assms(1), of ae xs "sc_app c" "sc_io c" "sc_iv c" "sc_member c"]
  have "sc_io c = SaveOk \<or> sc_io c = SaveFails"
    using assms(2) by (cases "sc_io c") (simp_all add: call_ok_def)
  moreover have "group_open (do_save ae xs g c ps) g key folder (latest_member m [c])"
    using assms(1) unfolding do_save_def eq
    by (cases "sc_member c"; cases "sc_io c") (simp_all add: group_open_def latest_member_def Let_def)
  moreover have "current_or_absent ae xs g key folder (latest_member m [c]) (do_save ae xs g c ps)"
    if "sc_io c = SaveFails"
    using that unfolding do_save_def eq by (simp add: current_or_absent_def Let_def)
  moreover have "current_or_absent ae xs g key folder (latest_member m [c]) (do_save ae xs g c ps)"
    if "sc_io c = SaveOk"
    using that assms(2) unfolding do_save_def eq current_or_absent_def
    by (intro disjI2 exI [of _ "sc_app c"] exI [of _ "sc_iv c"])
       (simp add: Let_def latest_member_def call_ok_def)
  ultimately show ?thesis by blast
qed

lemma latest_member_Cons: "latest_member m (c # cs) = latest_member (latest_member m [c]) cs"
  by (simp add: latest_member_def)

lemma do_saves:
  assumes "group_open ps g key folder m" and "list_all (call_ok xs g) cs"
  shows "group_open (fold (do_save ae xs g) cs ps) g key folder (latest_member m cs)
    \<and> (cs \<noteq> [] \<longrightarrow> current_or_absent ae xs g key folder (latest_member m cs) (fold (do_save ae xs g) cs ps))"
  using assms
proof (induction cs arbitrary: ps m)
  case (Cons c cs)
  have "group_open (do_save ae xs g c ps) g key folder (latest_member m [c])
      \<and> current_or_absent ae xs g key folder (latest_member m [c]) (do_save ae xs g c ps)"
    using Cons.prems by (intro do_save_step) auto
  with Cons.IH [of "do_save ae xs g c ps" "latest_member m [c]"] Cons.prems(2)
  show ?case
    by (cases "cs = []") (simp_all add: latest_member_Cons [of m c cs] latest_member_def [of _ "[]"])
qed (simp add: latest_member_def)

lemma load_current:
  assumes "aead_ok ae" and "distinct (map ex_name xs)" and "group_open ps g key folder m0"
    and "current_or_absent ae xs g key folder m qs" and "ps_disk ps = ps_disk qs"
  shows "fst (loadPersonasState ae xs r now g (app, ps)) = None
    \<or> fst (loadPersonasState ae xs r now g (app, ps)) = m"
  using assms(4) unfolding current_or_absent_def
proof (elim disjE exE conjE)
  assume "file_at (ps_disk qs) folder ''state.bin'' = None"
  then show ?thesis using assms(3,5) by (simp add: loadPersonasState_def group_open_def Let_def)
next
  fix sapp iv
  assume f: "extras_ok xs sapp g" "length iv = IV_BYTES"
    "file_at (ps_disk qs) folder ''state.bin'' = Some (state_file ae key iv folder (state_json xs sapp g m))"
  have "open_state_file ae key folder (state_file ae key iv folder (state_json xs sapp g m)) = Some (state_json xs sapp g m)"
    using assms(1) f(1,2) state_json_ok by (intro open_state_file_seal) auto
  moreover have "state_json xs sapp g m \<noteq> JNull" by (simp add: state_json_def)
  ultimately show ?thesis
    using assms(3,5) f(3) restore_extras_state [OF assms(2) subset_refl, of g sapp m app]
    by (simp add: loadPersonasState_def group_open_def Let_def state_json_member split: option.split)
qed

section \<open>Properties\<close>

text \<open>C11. Saving and restarting gives everything back: after a successful save, a new process with
  the same key that opens the group's folder loads the member state that was saved, and applies to
  its lists exactly the snapshots the saving process took.\<close>
theorem saved_state_is_loaded:
  assumes "aead_ok ae" and "length iv = IV_BYTES" and "extras_ok xs app g" and "mem \<noteq> []"
    and "group_open ps g key folder m0" and "group_open ps' g key folder m1"
    and "savePersonasState ae xs app SaveOk iv g (Some mem) ps = (Saved, qs)" and "ps_disk ps' = ps_disk qs"
  shows "\<exists>rs. loadPersonasState ae xs r now g (app', ps') = (Some mem, restored xs app g app', rs)"
proof -
  let ?v = "state_json xs app g (Some mem)"
  have f: "file_at (ps_disk ps') folder ''state.bin'' = Some (state_file ae key iv folder ?v)"
    using assms(7,8) unfolding save_open_group [OF assms(5)] by (auto simp: Let_def)
  have o: "open_state_file ae key folder (state_file ae key iv folder ?v) = Some ?v"
    using assms(1-3) by (intro open_state_file_seal state_json_ok)
  have d: "distinct (map ex_name xs)" using assms(3) by (simp add: extras_ok_def)
  have n: "?v \<noteq> JNull" by (simp add: state_json_def)
  show ?thesis
    using assms(4,6) f o n restore_extras_state [OF d subset_refl, of g app "Some mem" app']
    by (simp add: loadPersonasState_def group_open_def Let_def state_json_member)
qed

text \<open>A concrete cipher (the plain text under an authenticated header) for the witnesses.\<close>

definition demo_aead :: aead where
  "demo_aead = \<lparr>seal = (\<lambda>k iv ad plain. (replicate 16 CHR ''t'', plain)),
                unseal = (\<lambda>k iv ad tag body. if tag = replicate 16 CHR ''t'' then Some body else None)\<rparr>"

lemma demo_aead_ok: "aead_ok demo_aead"
  by (simp add: aead_ok_def demo_aead_def)

definition demo_ps :: persistence where
  "demo_ps = \<lparr>ps_storage = Some ''key'', ps_initialized = True,
     ps_groups = [(''G'', \<lparr>gs_folder = ''fp-v3'', gs_lastMemberState = None\<rparr>)], ps_disk = [(''fp-v3'', [])]\<rparr>"

lemma demo_ps_open: "group_open demo_ps ''G'' ''key'' ''fp-v3'' None"
  by (simp add: demo_ps_def group_open_def map_get_def)

definition demo_extra :: "string extra" where
  "demo_extra = \<lparr>ex_name = ''note'', ex_snapshot = (\<lambda>app g. Some (JStr app)),
                 ex_restore = (\<lambda>g j app. case j of JStr s \<Rightarrow> s | _ \<Rightarrow> app)\<rparr>"

theorem saved_state_is_loaded_witness:
  "\<exists>qs rs. savePersonasState demo_aead [demo_extra] ''hello'' SaveOk (replicate 12 CHR ''i'') ''G'' (Some ''m'') demo_ps = (Saved, qs)
     \<and> loadPersonasState demo_aead [demo_extra] True 0 ''G'' ([], demo_ps\<lparr>ps_disk := ps_disk qs\<rparr>)
         = (Some ''m'', ''hello'', rs)"
proof -
  let ?iv = "replicate 12 CHR ''i''"
  obtain qs where s: "savePersonasState demo_aead [demo_extra] ''hello'' SaveOk ?iv ''G'' (Some ''m'') demo_ps = (Saved, qs)"
    unfolding save_open_group [OF demo_ps_open] by (simp add: Let_def)
  have o: "group_open (demo_ps\<lparr>ps_disk := ps_disk qs\<rparr>) ''G'' ''key'' ''fp-v3'' None"
    using demo_ps_open by (simp add: group_open_def)
  have x: "extras_ok [demo_extra] ''hello'' ''G''" by (simp add: extras_ok_def demo_extra_def)
  have r: "restored [demo_extra] ''hello'' ''G'' [] = ''hello''" by (simp add: restored_def demo_extra_def)
  show ?thesis
    using s saved_state_is_loaded [OF demo_aead_ok _ x _ demo_ps_open o s, of True 0 "[]"] r
    by (auto simp: IV_BYTES_def)
qed

text \<open>C10. The ordering rule: a restart never brings back an older member state than the one saved
  last.  After any sequence of saves, some of which may fail (the older file is then deleted), a
  load returns the latest member state or nothing.\<close>
theorem never_restores_older_state:
  assumes "aead_ok ae" and "distinct (map ex_name xs)"
    and "group_open ps g key folder m" and "list_all (call_ok xs g) calls" and "calls \<noteq> []"
    and "group_open ps' g key folder m1" and "ps_disk ps' = ps_disk (fold (do_save ae xs g) calls ps)"
  shows "fst (loadPersonasState ae xs r now g (app, ps')) \<in> {None, latest_member m calls}"
  using do_saves [OF assms(3,4), of ae] assms(5,7)
    load_current [OF assms(1,2,6), of "latest_member m calls" "fold (do_save ae xs g) calls ps" r now app]
  by auto

theorem never_restores_older_state_witness:
  "let calls = [\<lparr>sc_app = ''a'', sc_io = SaveOk, sc_iv = replicate 12 CHR ''i'', sc_member = Some ''old''\<rparr>,
                \<lparr>sc_app = ''b'', sc_io = SaveFails, sc_iv = replicate 12 CHR ''j'', sc_member = Some ''new''\<rparr>]
   in fst (loadPersonasState demo_aead [demo_extra] True 0 ''G''
        ([], demo_ps\<lparr>ps_disk := ps_disk (fold (do_save demo_aead [demo_extra] ''G'') calls demo_ps)\<rparr>))
      \<in> {None, Some ''new''}"
proof -
  let ?calls = "[\<lparr>sc_app = ''a'', sc_io = SaveOk, sc_iv = replicate 12 CHR ''i'', sc_member = Some ''old''\<rparr>,
                 \<lparr>sc_app = ''b'', sc_io = SaveFails, sc_iv = replicate 12 CHR ''j'', sc_member = Some ''new''\<rparr>]"
  let ?ps' = "demo_ps\<lparr>ps_disk := ps_disk (fold (do_save demo_aead [demo_extra] ''G'') ?calls demo_ps)\<rparr>"
  have o: "group_open ?ps' ''G'' ''key'' ''fp-v3'' None"
    using demo_ps_open by (simp add: group_open_def)
  have c: "list_all (call_ok [demo_extra] ''G'') ?calls"
    by (simp add: call_ok_def extras_ok_def demo_extra_def IV_BYTES_def)
  show ?thesis
    unfolding Let_def
    using never_restores_older_state [OF demo_aead_ok _ demo_ps_open c _ o, of True 0 "[]"]
    by (simp add: latest_member_def)
qed

text \<open>A refused save leaves no state file behind, so nothing stale can be restored; when there is
  no state key nothing is ever written.\<close>
theorem refused_save_leaves_nothing:
  "(savePersonasState ae xs app io iv g mem ps = (Refused, qs) \<longrightarrow>
      (\<exists>folder. groupDir ps g = Some folder \<and> file_at (ps_disk qs) folder ''state.bin'' = None
                \<and> file_at (ps_disk qs) folder ''state.bin.tmp'' = None))
   \<and> (ps_storage ps = None \<longrightarrow> ps_disk (snd (savePersonasState ae xs app io iv g mem ps)) = ps_disk ps
        \<and> fst (savePersonasState ae xs app io iv g mem ps) = Saved)"
proof (intro conjI impI)
  assume r: "savePersonasState ae xs app io iv g mem ps = (Refused, qs)"
  show "\<exists>folder. groupDir ps g = Some folder \<and> file_at (ps_disk qs) folder ''state.bin'' = None
                \<and> file_at (ps_disk qs) folder ''state.bin.tmp'' = None"
  proof (cases "ps_storage ps"; cases "map_get (ps_groups ps) g")
    fix key st
    assume k: "ps_storage ps = Some key" "map_get (ps_groups ps) g = Some st"
    then have o: "group_open ps g key (gs_folder st) (gs_lastMemberState st)" by (simp add: group_open_def)
    from r k show ?thesis unfolding save_open_group [OF o]
      by (auto simp: Let_def groupDir_def split: save_io.splits)
  qed (use r in \<open>auto simp: savePersonasState_def Let_def split: option.splits\<close>)
qed (auto simp: savePersonasState_def Let_def split: option.split)

theorem refused_save_leaves_nothing_witness:
  "\<exists>qs. savePersonasState demo_aead [demo_extra] ''a'' SaveFails [] ''G'' (Some ''m'') demo_ps = (Refused, qs)
     \<and> file_at (ps_disk qs) ''fp-v3'' ''state.bin'' = None"
proof -
  obtain qs where s: "savePersonasState demo_aead [demo_extra] ''a'' SaveFails [] ''G'' (Some ''m'') demo_ps = (Refused, qs)"
    unfolding save_open_group [OF demo_ps_open] by (simp add: Let_def)
  have "groupDir demo_ps ''G'' = Some ''fp-v3''" by (simp add: groupDir_def demo_ps_def map_get_def)
  then show ?thesis
    using s refused_save_leaves_nothing [of demo_aead "[demo_extra]" "''a''" SaveFails "[]" "''G''" "Some ''m''" demo_ps qs]
    by auto
qed

text \<open>While a group's state is being loaded, a list that reports a change does not save: opening
  the folder forgot the member state, so a half-restored state never overwrites the file.\<close>

lemma extras_quiet_after_open:
  assumes "openPersonasGroupState e p OpenOk g folder ps = (Some j, qs)"
  shows "personasExtrasChanged ae xs app io iv (Some g) qs = qs"
  using assms by (auto simp: openPersonasGroupState_def personasExtrasChanged_def Let_def split: option.splits)

text \<open>Opening a group's folder deletes the saved state of exactly the groups this account no
  longer holds a bundle for.\<close>

theorem open_prunes_foreign_folders:
  assumes "openPersonasGroupState e p OpenOk g folder ps = (Some j, qs)"
  shows "map_has (ps_disk qs) f \<longleftrightarrow>
    f = folder \<or> (map_has (ps_disk ps) f
      \<and> (\<exists>k \<in> set (getPersonasGroupIds p). \<exists>fp. getPhantomBundleFingerprint e p (Some k) = Some fp \<and> f = fp @ ''-v3''))"
proof -
  have pr: "map_has (prune keep entries d) f \<longleftrightarrow> map_has d f \<and> (f \<in> set keep \<or> f \<notin> set entries)" for keep entries d
    unfolding prune_def
    by (induction entries arbitrary: d) (auto simp: map_has_get)
  have keep: "f \<in> set (keep_folders e p folder) \<longleftrightarrow> f = folder
      \<or> (\<exists>k \<in> set (getPersonasGroupIds p). \<exists>fp. getPhantomBundleFingerprint e p (Some k) = Some fp \<and> f = fp @ ''-v3'')"
    by (force simp: keep_folders_def set_add_def List.map_filter_def)
  let ?made = "if map_has (ps_disk ps) folder then ps_disk ps else map_set (ps_disk ps) folder []"
  have "ps_disk qs = prune (keep_folders e p folder) (map_keys ?made) ?made"
    using assms by (auto simp: openPersonasGroupState_def Let_def split: option.splits)
  then have "map_has (ps_disk qs) f \<longleftrightarrow> map_has ?made f \<and> f \<in> set (keep_folders e p folder)"
    using map_has_keys [of ?made f] by (auto simp: pr)
  moreover have "map_has ?made f \<longleftrightarrow> f = folder \<or> map_has (ps_disk ps) f" by (auto simp: map_has_get)
  ultimately show ?thesis using keep by blast
qed

theorem open_prunes_foreign_folders_witness:
  "\<exists>j qs. openPersonasGroupState demo_env demo_start OpenOk ''G'' ''fp-v3'' (demo_ps\<lparr>ps_disk := [(''old-v3'', [])]\<rparr>) = (Some j, qs)
     \<and> \<not> map_has (ps_disk qs) ''old-v3''"
proof -
  let ?ps = "demo_ps\<lparr>ps_disk := [(''old-v3'', [])]\<rparr>"
  obtain j qs where o: "openPersonasGroupState demo_env demo_start OpenOk ''G'' ''fp-v3'' ?ps = (Some j, qs)"
    by (simp add: openPersonasGroupState_def demo_ps_def Let_def)
  have "getPersonasGroupIds demo_start = []" by code_simp
  with open_prunes_foreign_folders [OF o, of "''old-v3''"] o show ?thesis by auto
qed

end
