(* ===== verification/Topics.thy ===== *)
theory Topics
  imports Persistence "HOL-Library.Multiset"
begin

text \<open>
  \<^verbatim>\<open>ts/services/personasTopics.preload.ts\<close>: the topic contexts each group's members agree on.
  The module's map is \<open>topics\<close>; a function that reports a change to persistence and to the
  composer returns the pair it reports (\<open>None\<close>: no change).  The random bytes of a new context are
  an argument, and \<open>le a b\<close> stands for \<^verbatim>\<open>a.localeCompare(b) <= 0\<close>.

  Shown: members who heard the same announcements hold the same contexts, whatever the order and
  the repetitions; a created topic reaches the others through its announcement; the registry
  survives a restart.
\<close>

type_synonym topics = "(string, (string, rat) jsmap) jsmap"

definition topicsOf :: "string \<Rightarrow> topics \<Rightarrow> (string, rat) jsmap \<times> topics" where
  "topicsOf groupId ts = map_entry [] ts groupId"

text \<open>Stable sorting with a comparator.\<close>

fun insert_by :: "('a \<Rightarrow> 'a \<Rightarrow> bool) \<Rightarrow> 'a \<Rightarrow> 'a list \<Rightarrow> 'a list" where
  "insert_by le x [] = [x]"
| "insert_by le x (y # ys) = (if le x y then x # y # ys else y # insert_by le x ys)"

definition sort_by :: "('a \<Rightarrow> 'a \<Rightarrow> bool) \<Rightarrow> 'a list \<Rightarrow> 'a list" where
  "sort_by le xs = foldr (insert_by le) xs []"

lemma mset_insert_by [simp]: "mset (insert_by le x ys) = add_mset x (mset ys)"
  by (induction ys) auto

lemma mset_sort_by [simp]: "mset (sort_by le xs) = mset xs"
  by (induction xs) (simp_all add: sort_by_def)

definition listTopics :: "(string \<Rightarrow> string \<Rightarrow> bool) \<Rightarrow> string \<Rightarrow> topics \<Rightarrow> (string \<times> rat) list" where
  "listTopics le groupId ts = sort_by (\<lambda>a b. le (fst a) (fst b)) (fst (topicsOf groupId ts))"

definition nameForContext :: "(string \<Rightarrow> string \<Rightarrow> bool) \<Rightarrow> string \<Rightarrow> rat \<Rightarrow> topics \<Rightarrow> string option" where
  "nameForContext le groupId context ts =
     map_option fst (List.find (\<lambda>t. snd t = context) (listTopics le groupId ts))"

definition resolveTopicContext :: "string \<Rightarrow> string \<Rightarrow> topics \<Rightarrow> rat option" where
  "resolveTopicContext groupId name ts = map_get (fst (topicsOf groupId ts)) (trim name)"

definition CONTEXT_BYTES :: nat where "CONTEXT_BYTES = 6"

definition drawRandomContext :: "nat list \<Rightarrow> int" where
  "drawRandomContext bytes =
     (let value = fold (\<lambda>byte value. value * 256 + int byte) bytes 0 in if value = 0 then 1 else value)"

definition rememberTopic :: "string \<Rightarrow> PersonaTopicAnnouncement \<Rightarrow> topics \<Rightarrow> (string \<times> rat) option \<times> topics" where
  "rememberTopic groupId announcement ts =
     (let name = trim (ta_name announcement) in
      if name = [] then (None, ts)
      else
        (let (contextByTopic, ts1) = topicsOf groupId ts in
         case map_get contextByTopic name of
           Some existing \<Rightarrow>
             (if existing \<noteq> ta_context announcement then
                (let winner = min existing (ta_context announcement) in
                 (Some (name, winner), map_set ts1 groupId (map_set contextByTopic name winner)))
              else (None, ts1))
         | None \<Rightarrow>
             (Some (name, ta_context announcement),
              map_set ts1 groupId (map_set contextByTopic name (ta_context announcement)))))"

definition ingestTopicAnnouncement :: "string \<Rightarrow> PersonaTopicAnnouncement \<Rightarrow> topics \<Rightarrow> (string \<times> rat) option \<times> topics" where
  "ingestTopicAnnouncement groupId announcement ts = rememberTopic groupId announcement ts"

text \<open>The context and the body announced to the group; a failed announcement still returns it.\<close>

definition createTopic :: "string option \<Rightarrow> string \<Rightarrow> nat list \<Rightarrow> topics \<Rightarrow>
    (rat \<times> string) option \<times> (string \<times> rat) option \<times> topics" where
  "createTopic groupId0 rawName bytes ts =
     (let name = trim rawName in
      if name = [] \<or> \<not> truthy_str groupId0 then (None, None, ts)
      else
        (let groupId = the groupId0;
             (known, ts1) = topicsOf groupId ts;
             context = (case map_get known name of Some c \<Rightarrow> c | None \<Rightarrow> of_int (drawRandomContext bytes));
             (change, ts2) = rememberTopic groupId \<lparr>ta_name = name, ta_context = context\<rparr> ts1
         in (Some (context, encodeTopicAnnouncement \<lparr>ta_name = name, ta_context = context\<rparr>), change, ts2)))"

section \<open>Saved with the member state\<close>

definition topics_snapshot :: "(string \<Rightarrow> string \<Rightarrow> bool) \<Rightarrow> topics \<Rightarrow> string \<Rightarrow> json option" where
  "topics_snapshot le ts groupId =
     Some (JArr (map (\<lambda>(name, context). JObj [(''name'', JStr name), (''context'', JNum (Fin context))])
                  (listTopics le groupId ts)))"

definition stored_topic :: "json \<Rightarrow> PersonaTopicAnnouncement option" where
  "stored_topic v =
     (case (jget_str v ''name'', jget_num v ''context'') of
        (Some name, Some (Fin c)) \<Rightarrow>
          (if is_safe_integer (Fin c) then Some \<lparr>ta_name = name, ta_context = c\<rparr> else None)
      | _ \<Rightarrow> None)"

definition topics_restore :: "string \<Rightarrow> json \<Rightarrow> topics \<Rightarrow> topics" where
  "topics_restore groupId value ts =
     (case value of
        JArr vs \<Rightarrow> fold (\<lambda>a t. snd (rememberTopic groupId a t)) (List.map_filter stored_topic vs) ts
      | _ \<Rightarrow> ts)"

section \<open>What a group's registry says\<close>

definition topic_at :: "topics \<Rightarrow> string \<Rightarrow> string \<Rightarrow> rat option" where
  "topic_at ts g name = Option.bind (map_get ts g) (\<lambda>m. map_get m name)"

lemma topicsOf_get: "map_get (fst (topicsOf g ts)) n = topic_at ts g n"
  by (simp add: topicsOf_def map_entry_def topic_at_def split: option.split)

lemma topicsOf_view [simp]: "topic_at (snd (topicsOf g ts)) g' n = topic_at ts g' n"
  by (simp add: topicsOf_def map_entry_def topic_at_def split: option.split)

lemma resolve_topic_at: "resolveTopicContext g name ts = topic_at ts g (trim name)"
  by (simp add: resolveTopicContext_def topicsOf_get)

definition merge :: "rat option \<Rightarrow> rat \<Rightarrow> rat option" where
  "merge old c = Some (case old of None \<Rightarrow> c | Some x \<Rightarrow> min x c)"

lemma remember_view:
  "topic_at (snd (rememberTopic g a ts)) g' n =
     (if g' = g \<and> n = trim (ta_name a) \<and> n \<noteq> [] then merge (topic_at ts g n) (ta_context a)
      else topic_at ts g' n)"
proof (cases "trim (ta_name a) = []")
  case False
  obtain m ts1 where m: "topicsOf g ts = (m, ts1)" by (cases "topicsOf g ts")
  have k: "map_get m k = topic_at ts g k" for k using topicsOf_get [of g ts k] m by simp
  have v: "topic_at ts1 h k = topic_at ts h k" for h k using topicsOf_view [of g ts h k] m by simp
  have s: "topic_at (map_set ts1 g (map_set m x y)) h k =
      (if h = g \<and> k = x then Some y else topic_at ts h k)" for x y h k
    using k v by (simp add: topic_at_def)
  show ?thesis
    using False m k v s
    by (auto simp: rememberTopic_def Let_def merge_def split: option.split)
qed (auto simp: rememberTopic_def Let_def)

lemma remember_other: "g' \<noteq> g \<Longrightarrow> topic_at (snd (rememberTopic g a ts)) g' = topic_at ts g'"
  by (rule ext) (simp add: remember_view)

definition hear :: "string \<Rightarrow> PersonaTopicAnnouncement list \<Rightarrow> topics \<Rightarrow> topics" where
  "hear g as ts = fold (\<lambda>a t. snd (rememberTopic g a t)) as ts"

lemma hear_Cons [simp]: "hear g (a # as) ts = hear g as (snd (rememberTopic g a ts))"
  and hear_Nil [simp]: "hear g [] ts = ts"
  by (simp_all add: hear_def)

lemma hear_other: "g' \<noteq> g \<Longrightarrow> topic_at (hear g as ts) g' = topic_at ts g'"
  by (induction as arbitrary: ts) (simp_all add: remember_other)

text \<open>The contexts announced for a name; the smallest wins.\<close>

definition contexts :: "string \<Rightarrow> PersonaTopicAnnouncement list \<Rightarrow> rat set" where
  "contexts n as = {ta_context a | a. a \<in> set as \<and> trim (ta_name a) = n}"

lemma contexts_Cons: "contexts n (a # as) = (if trim (ta_name a) = n then insert (ta_context a) (contexts n as) else contexts n as)"
  by (auto simp: contexts_def)

lemma finite_contexts [simp]: "finite (contexts n as)"
  by (induction as) (simp_all add: contexts_Cons, simp add: contexts_def)

lemma hear_min:
  assumes "n \<noteq> []"
  shows "topic_at (hear g as ts) g n =
    (let S = contexts n as \<union> set_option (topic_at ts g n) in if S = {} then None else Some (Min S))"
proof (induction as arbitrary: ts)
  case Nil
  then show ?case by (cases "topic_at ts g n") (simp_all add: contexts_def)
next
  case (Cons a as)
  show ?case
  proof (cases "trim (ta_name a) = n")
    case True
    have "Min (insert (case topic_at ts g n of None \<Rightarrow> ta_context a | Some x \<Rightarrow> min x (ta_context a)) (contexts n as))
        = Min (insert (ta_context a) (contexts n as) \<union> set_option (topic_at ts g n))"
      by (cases "topic_at ts g n"; cases "contexts n as = {}")
         (simp_all add: min.commute min.left_commute min.assoc)
    with True assms show ?thesis
      by (simp add: Cons.IH contexts_Cons remember_view merge_def Un_commute)
  next
    case False
    with assms show ?thesis by (simp add: Cons.IH contexts_Cons remember_view)
  qed
qed

lemma hear_blank: "topic_at (hear g as ts) g [] = topic_at ts g []"
  by (induction as arbitrary: ts) (auto simp: remember_view)

section \<open>Restart\<close>

definition topics_sane :: "topics \<Rightarrow> string \<Rightarrow> bool" where
  "topics_sane ts g =
     (let m = fst (topicsOf g ts) in
      map_wf m \<and> (\<forall>(n, c) \<in> set m. trim n = n \<and> n \<noteq> [] \<and> is_safe_integer (Fin c)))"

definition topics_blank :: "topics \<Rightarrow> string \<Rightarrow> bool" where
  "topics_blank ts g = (fst (topicsOf g ts) = [])"

definition announced :: "string \<times> rat \<Rightarrow> PersonaTopicAnnouncement" where
  "announced t = \<lparr>ta_name = fst t, ta_context = snd t\<rparr>"

lemma announced_sel [simp]: "ta_name (announced t) = fst t" "ta_context (announced t) = snd t"
  by (simp_all add: announced_def)

lemma set_listTopics: "set (listTopics le g ts) = set (fst (topicsOf g ts))"
  unfolding listTopics_def by (metis mset_sort_by set_mset_mset)

lemma stored_topic_snapshot:
  assumes "topics_sane ts g"
  shows "List.map_filter stored_topic
      (map (\<lambda>(name, context). JObj [(''name'', JStr name), (''context'', JNum (Fin context))]) (listTopics le g ts))
    = map announced (listTopics le g ts)"
proof -
  have safe: "is_safe_integer (Fin (snd t))" if "t \<in> set (listTopics le g ts)" for t
    using that assms unfolding set_listTopics by (auto simp: topics_sane_def Let_def)
  have "stored_topic (case t of (name, context) \<Rightarrow> JObj [(''name'', JStr name), (''context'', JNum (Fin context))])
      = Some (announced t)" if "t \<in> set (listTopics le g ts)" for t
    using safe [OF that] by (cases t) (simp add: stored_topic_def jget_str_def jget_num_def announced_def)
  then show ?thesis by (simp add: List.map_filter_def comp_def)
qed

lemma contexts_listTopics:
  assumes "topics_sane ts g"
  shows "contexts n (map announced (listTopics le g ts)) = set_option (topic_at ts g n)"
proof -
  let ?m = "fst (topicsOf g ts)"
  have trimmed: "trim k = k" if "(k, c) \<in> set ?m" for k c
    using assms that by (auto simp: topics_sane_def Let_def)
  have "contexts n (map announced (listTopics le g ts)) = {c. \<exists>k. (k, c) \<in> set ?m \<and> trim k = n}"
    unfolding contexts_def set_map set_listTopics
  proof (intro equalityI subsetI)
    fix c assume "c \<in> {c. \<exists>k. (k, c) \<in> set ?m \<and> trim k = n}"
    then obtain k where "(k, c) \<in> set ?m" "trim k = n" by blast
    then show "c \<in> {ta_context a |a. a \<in> announced ` set ?m \<and> trim (ta_name a) = n}"
      by (intro CollectI exI [of _ "announced (k, c)"]) simp
  qed auto
  also have "\<dots> = {c. (n, c) \<in> set ?m}" using trimmed by metis
  also have "\<dots> = set_option (map_get ?m n)"
  proof -
    have "map_wf ?m" using assms by (simp add: topics_sane_def Let_def)
    then have "(n, c) \<in> set ?m \<longleftrightarrow> map_get ?m n = Some c" for c
      using in_set_map_get map_get_in_set by fast
    then show ?thesis by (cases "map_get ?m n") simp_all
  qed
  finally show ?thesis by (simp add: topicsOf_get)
qed

lemma topics_blank_view: "topics_blank ts g \<Longrightarrow> topic_at ts g n = None"
  using topicsOf_get [of g ts n] by (simp add: topics_blank_def)

lemma topics_roundtrip:
  assumes "topics_sane ts g" "topics_blank ts' g" "topics_snapshot le ts g = Some j"
  shows "topic_at (topics_restore g j ts') g = topic_at ts g"
proof
  fix n
  have r: "topics_restore g j ts' = hear g (map announced (listTopics le g ts)) ts'"
    using assms(1,3) by (auto simp: topics_snapshot_def topics_restore_def stored_topic_snapshot hear_def)
  show "topic_at (topics_restore g j ts') g n = topic_at ts g n"
  proof (cases "n = []")
    case True
    have "topic_at ts g [] = None"
      using assms(1) topicsOf_get [of g ts "[]"] map_get_in_set [of "fst (topicsOf g ts)" "[]"]
      by (cases "topic_at ts g []") (auto simp: topics_sane_def Let_def)
    with True r topics_blank_view [OF assms(2)] show ?thesis by (simp add: hear_blank)
  next
    case False
    then show ?thesis
      unfolding r hear_min [OF False] contexts_listTopics [OF assms(1)] topics_blank_view [OF assms(2)]
      by (cases "topic_at ts g n") simp_all
  qed
qed

interpretation topics_extra: persisted_extra "topics_snapshot le" topics_restore topic_at topics_sane topics_blank
  for le
proof
  show "json_ok j" if "topics_sane ts g" "topics_snapshot le ts g = Some j" for ts g j
  proof -
    have "is_safe_integer (Fin (snd t))" if "t \<in> set (listTopics le g ts)" for t
      using that \<open>topics_sane ts g\<close> unfolding set_listTopics by (auto simp: topics_sane_def Let_def)
    then show ?thesis using that(2) by (auto simp: topics_snapshot_def split: prod.split)
  qed
  show "topic_at (topics_restore g j ts) g' = topic_at ts g'" if "g' \<noteq> g" for g' g j ts
    using that hear_other by (auto simp: topics_restore_def hear_def split: json.split)
qed (rule topics_roundtrip)

section \<open>Properties\<close>



lemma draw_bound:
  "\<forall>b \<in> set bytes. b < 256 \<Longrightarrow>
   0 \<le> fold (\<lambda>byte value. value * 256 + int byte) bytes 0
   \<and> fold (\<lambda>byte value. value * 256 + int byte) bytes 0 < 256 ^ length bytes"
proof (induction bytes rule: rev_induct)
  case (snoc b bs)
  then have "int b < 256" by auto
  with snoc show ?case by (auto simp: power_Suc2)
qed simp

lemma drawRandomContext_range:
  assumes "length bytes = CONTEXT_BYTES" and "\<forall>b \<in> set bytes. b < 256"
  shows "1 \<le> drawRandomContext bytes \<and> drawRandomContext bytes < 2 ^ 48"
  using draw_bound [OF assms(2)] assms(1)
  by (auto simp: drawRandomContext_def Let_def CONTEXT_BYTES_def)

text \<open>A created topic reaches the group: the body announced decodes to the trimmed name and the
  returned context (a positive safe integer, never the sentinel 0), the creator resolves the name
  to it, and so does every member who had not heard of the topic, once it ingests the body.\<close>

theorem created_topic_is_shared:
  assumes "trim raw \<noteq> []" and "g \<noteq> []" and "length bytes = CONTEXT_BYTES" and "\<forall>b \<in> set bytes. b < 256"
    and "topic_at mine g (trim raw) = None" and "topic_at theirs g (trim raw) = None"
    and "createTopic (Some g) raw bytes mine = (Some (c, body), change, mine')"
  shows "\<exists>a. decodeTopicAnnouncement (Some body) = Some a \<and> 0 < c
    \<and> resolveTopicContext g raw mine' = Some c
    \<and> resolveTopicContext g raw (snd (ingestTopicAnnouncement g a theirs)) = Some c"
proof -
  let ?a = "\<lparr>ta_name = trim raw, ta_context = c\<rparr>"
  have fresh: "map_get (fst (topicsOf g mine)) (trim raw) = None" using assms(5) by (simp add: topicsOf_get)
  have c: "c = of_int (drawRandomContext bytes)" and body: "body = encodeTopicAnnouncement ?a"
    and mine': "mine' = snd (rememberTopic g ?a (snd (topicsOf g mine)))"
    using assms(1,2,7) fresh
    by (auto simp: createTopic_def Let_def truthy_str_def split: prod.splits)
  have r: "1 \<le> drawRandomContext bytes" "drawRandomContext bytes < 2 ^ 48"
    using drawRandomContext_range [OF assms(3,4)] by auto
  have "is_safe_integer (js_int (drawRandomContext bytes))"
    using r by (simp add: is_safe_integer_def max_safe_def)
  then have "topic_ok ?a" using c by (simp add: topic_ok_def js_int_def)
  then have d: "decodeTopicAnnouncement (Some body) = Some ?a"
    unfolding body by (rule topic_codec.dec_enc)
  show ?thesis
    using d assms(1,5,6) r c
    by (simp add: resolve_topic_at mine' remember_view merge_def ingestTopicAnnouncement_def)
qed

theorem created_topic_is_shared_witness:
  "\<exists>c body change mine' a. createTopic (Some ''G'') '' pets '' [0, 0, 0, 0, 0, 5] [] = (Some (c, body), change, mine')
     \<and> decodeTopicAnnouncement (Some body) = Some a
     \<and> resolveTopicContext ''G'' '' pets '' (snd (ingestTopicAnnouncement ''G'' a [])) = Some c"
proof -
  have t: "trim '' pets '' = ''pets''" by code_simp
  obtain c body change mine' where
    cr: "createTopic (Some ''G'') '' pets '' [0, 0, 0, 0, 0, 5] [] = (Some (c, body), change, mine')"
    by (cases "rememberTopic ''G'' \<lparr>ta_name = ''pets'', ta_context = 5\<rparr> (snd (topicsOf ''G'' []))")
       (simp add: createTopic_def t truthy_str_def Let_def topicsOf_def map_entry_def drawRandomContext_def)
  show ?thesis
    using created_topic_is_shared [OF _ _ _ _ _ _ cr, of "[]"] cr
    by (auto simp: t CONTEXT_BYTES_def topic_at_def)
qed

text \<open>Topics survive a restart: what a group's registry says when the state is saved is what it
  says after the snapshot has gone through the file into a new process; other groups are
  untouched.\<close>

theorem topics_survive_restart:
  assumes "topics_sane ts g" and "topics_blank ts' g" and "topics_snapshot le ts g = Some j"
    and "json_parse (json_stringify j) = Some j'"
  shows "resolveTopicContext g name (topics_restore g j' ts') = resolveTopicContext g name ts
    \<and> (g' \<noteq> g \<longrightarrow> resolveTopicContext g' name (topics_restore g j' ts') = resolveTopicContext g' name ts')"
  using topics_extra.snapshot_survives_disk [OF assms] topics_extra.restore_frame [of g' g j' ts']
  by (simp add: resolve_topic_at)

theorem topics_survive_restart_witness:
  "\<exists>j'. resolveTopicContext ''G'' ''a'' (topics_restore ''G'' j' []) = Some 3"
proof -
  let ?ts = "[(''G'', [(''a'', 3)])] :: topics"
  let ?le = "\<lambda>_ _. True"
  have s: "topics_sane ?ts ''G''" "topics_blank [] ''G''" by code_simp+
  obtain j where j: "topics_snapshot ?le ?ts ''G'' = Some j" by (simp add: topics_snapshot_def)
  have "json_parse (json_stringify j) = Some j"
    using topics_extra.snapshot_json_ok [OF s(1) j] by (rule json_parse_stringify)
  from topics_survive_restart [OF s j this, of "''a''"]
  have "resolveTopicContext ''G'' ''a'' (topics_restore ''G'' j []) = resolveTopicContext ''G'' ''a'' ?ts" by blast
  moreover have "resolveTopicContext ''G'' ''a'' ?ts = Some 3" by code_simp
  ultimately show ?thesis by metis
qed

end
