(* ===== verification/Pseudonyms.thy ===== *)
theory Pseudonyms
  imports Topics
begin

text \<open>
  \<^verbatim>\<open>ts/services/personasPseudonyms.preload.ts\<close>: the unlimited pseudonyms a member minted in each
  group, with the petname the engine gave them.  The random bytes of a nonce are an argument.
  Shown: a petname is only ever set on the pseudonym of its nonce, numbering follows creation, and
  the list survives a restart.
\<close>

record PersonaPseudonym =
  pn_nonce :: rat
  pn_petname :: "string option"
  pn_index :: jsnum

type_synonym pseudonyms = "(string, PersonaPseudonym list) jsmap"

definition pseudonymsOf :: "string \<Rightarrow> pseudonyms \<Rightarrow> PersonaPseudonym list \<times> pseudonyms" where
  "pseudonymsOf groupId ps = map_entry [] ps groupId"

definition listPseudonyms :: "string \<Rightarrow> pseudonyms \<Rightarrow> PersonaPseudonym list" where
  "listPseudonyms groupId ps = fst (pseudonymsOf groupId ps)"

definition NONCE_BYTES :: nat where "NONCE_BYTES = 6"

definition drawNonce :: "nat list \<Rightarrow> int" where
  "drawNonce bytes =
     (let value = fold (\<lambda>byte value. value * 256 + int byte) bytes 0 in if value = 0 then 1 else value)"

definition createPseudonym :: "string \<Rightarrow> nat list \<Rightarrow> pseudonyms \<Rightarrow> PersonaPseudonym \<times> pseudonyms" where
  "createPseudonym groupId bytes ps =
     (let (list, ps1) = pseudonymsOf groupId ps;
          entry = \<lparr>pn_nonce = of_int (drawNonce bytes), pn_petname = None,
                   pn_index = js_int (int (length list) + 1)\<rparr>
      in (entry, map_set ps1 groupId (list @ [entry])))"

text \<open>\<^verbatim>\<open>find\<close> gives the first entry, which is updated in place; the flag says whether anything
  changed.\<close>

fun set_petname :: "rat \<Rightarrow> string \<Rightarrow> PersonaPseudonym list \<Rightarrow> bool \<times> PersonaPseudonym list" where
  "set_petname nonce petname [] = (False, [])"
| "set_petname nonce petname (p # ps) =
     (if pn_nonce p = nonce then
        (if pn_petname p = Some petname then (False, p # ps) else (True, p\<lparr>pn_petname := Some petname\<rparr> # ps))
      else (let (c, qs) = set_petname nonce petname ps in (c, p # qs)))"

definition recordPetname :: "string \<Rightarrow> rat \<Rightarrow> string \<Rightarrow> pseudonyms \<Rightarrow> bool \<times> pseudonyms" where
  "recordPetname groupId nonce petname ps =
     (let (list, ps1) = pseudonymsOf groupId ps; (c, list') = set_petname nonce petname list
      in (c, map_set ps1 groupId list'))"

definition clearPseudonyms :: "string \<Rightarrow> pseudonyms \<Rightarrow> pseudonyms" where
  "clearPseudonyms groupId ps = map_set (snd (pseudonymsOf groupId ps)) groupId []"

definition ensureOnePseudonym :: "string \<Rightarrow> nat list \<Rightarrow> pseudonyms \<Rightarrow> PersonaPseudonym \<times> pseudonyms" where
  "ensureOnePseudonym groupId bytes ps =
     (case pseudonymsOf groupId ps of
        (p # _, ps1) \<Rightarrow> (p, ps1)
      | ([], ps1) \<Rightarrow> createPseudonym groupId bytes ps1)"

section \<open>Saved with the member state\<close>

definition pseudonym_json :: "PersonaPseudonym \<Rightarrow> json" where
  "pseudonym_json p =
     JObj ([(''nonce'', JNum (Fin (pn_nonce p))), (''index'', JNum (pn_index p))]
           @ opt_member ''petname'' JStr (pn_petname p))"

definition pseudonyms_snapshot :: "pseudonyms \<Rightarrow> string \<Rightarrow> json option" where
  "pseudonyms_snapshot ps groupId = Some (JArr (map pseudonym_json (listPseudonyms groupId ps)))"

definition stored_pseudonym :: "json \<Rightarrow> PersonaPseudonym option" where
  "stored_pseudonym v =
     (case (jget_num v ''nonce'', jget_num v ''index'') of
        (Some (Fin n), Some i) \<Rightarrow>
          (if \<not> is_safe_integer (Fin n) then None
           else
             (case jget v ''petname'' of
                None \<Rightarrow> Some \<lparr>pn_nonce = n, pn_petname = None, pn_index = i\<rparr>
              | Some (JStr s) \<Rightarrow> Some \<lparr>pn_nonce = n, pn_petname = Some s, pn_index = i\<rparr>
              | _ \<Rightarrow> None))
      | _ \<Rightarrow> None)"

definition pseudonyms_restore :: "string \<Rightarrow> json \<Rightarrow> pseudonyms \<Rightarrow> pseudonyms" where
  "pseudonyms_restore groupId value ps =
     (case value of
        JArr vs \<Rightarrow> map_set (snd (pseudonymsOf groupId ps)) groupId (List.map_filter stored_pseudonym vs)
      | _ \<Rightarrow> ps)"

section \<open>Views and frames\<close>

lemma list_pseudonyms_get: "listPseudonyms g ps = (case map_get ps g of None \<Rightarrow> [] | Some l \<Rightarrow> l)"
  by (simp add: listPseudonyms_def pseudonymsOf_def map_entry_def split: option.split)

lemma fst_pseudonymsOf [simp]: "fst (pseudonymsOf g ps) = listPseudonyms g ps"
  by (simp add: listPseudonyms_def)

lemma list_pseudonymsOf [simp]: "listPseudonyms g' (snd (pseudonymsOf g ps)) = listPseudonyms g' ps"
  by (simp add: list_pseudonyms_get pseudonymsOf_def map_entry_def split: option.split)

lemma list_map_set [simp]:
  "listPseudonyms g' (map_set ps g l) = (if g' = g then l else listPseudonyms g' ps)"
  by (simp add: list_pseudonyms_get)

lemma list_create:
  "listPseudonyms g' (snd (createPseudonym g bytes ps)) =
     listPseudonyms g' ps @ (if g' = g then [fst (createPseudonym g bytes ps)] else [])"
  by (simp add: createPseudonym_def Let_def case_prod_unfold)

lemma list_record:
  "listPseudonyms g' (snd (recordPetname g n name ps)) =
     (if g' = g then snd (set_petname n name (listPseudonyms g ps)) else listPseudonyms g' ps)"
  by (simp add: recordPetname_def Let_def case_prod_unfold)

lemma set_petname_other:
  "list_all2 (\<lambda>a b. pn_nonce a = pn_nonce b \<and> pn_index a = pn_index b \<and> (pn_nonce a \<noteq> n \<longrightarrow> b = a))
     ps (snd (set_petname n name ps))"
  by (induction n name ps rule: set_petname.induct) (auto simp: list.rel_refl split: prod.split)

lemma set_petname_first:
  "List.find (\<lambda>p. pn_nonce p = n) ps = Some p \<Longrightarrow>
   List.find (\<lambda>p. pn_nonce p = n) (snd (set_petname n name ps)) = Some (p\<lparr>pn_petname := Some name\<rparr>)"
  by (induction n name ps rule: set_petname.induct) (auto split: prod.split if_splits)

lemma set_petname_again: "set_petname n name (snd (set_petname n name ps)) = (False, snd (set_petname n name ps))"
  by (induction n name ps rule: set_petname.induct) (auto split: prod.split)

section \<open>Restart\<close>

definition pseudonyms_sane :: "pseudonyms \<Rightarrow> string \<Rightarrow> bool" where
  "pseudonyms_sane ps g =
     list_all (\<lambda>p. is_safe_integer (Fin (pn_nonce p)) \<and> is_safe_integer (pn_index p)) (listPseudonyms g ps)"

lemma stored_pseudonym_json:
  "is_safe_integer (Fin (pn_nonce p)) \<Longrightarrow> stored_pseudonym (pseudonym_json p) = Some p"
  by (cases "pn_petname p")
     (simp_all add: stored_pseudonym_def pseudonym_json_def jget_num_def opt_member_def)

interpretation pseudonyms_extra:
  persisted_extra pseudonyms_snapshot pseudonyms_restore "\<lambda>ps g. listPseudonyms g ps" pseudonyms_sane "\<lambda>_ _. True"
proof
  show "json_ok j" if "pseudonyms_sane ps g" "pseudonyms_snapshot ps g = Some j" for ps g j
    using that
    by (auto simp: pseudonyms_snapshot_def pseudonyms_sane_def list_all_iff pseudonym_json_def opt_member_def
             split: option.splits)
  show "listPseudonyms g (pseudonyms_restore g j ps') = listPseudonyms g ps"
    if "pseudonyms_sane ps g" "pseudonyms_snapshot ps g = Some j" for ps g ps' j
  proof -
    have "List.map_filter stored_pseudonym (map pseudonym_json (listPseudonyms g ps)) = listPseudonyms g ps"
      using that(1) by (auto simp: pseudonyms_sane_def list_all_iff List.map_filter_def stored_pseudonym_json
          comp_def intro!: map_idI)
    then show ?thesis using that(2) by (auto simp: pseudonyms_snapshot_def pseudonyms_restore_def)
  qed
  show "listPseudonyms g' (pseudonyms_restore g j ps) = listPseudonyms g' ps" if "g' \<noteq> g" for g' g j ps
    using that by (auto simp: pseudonyms_restore_def split: json.split)
qed

section \<open>Properties\<close>

text \<open>A petname lands on the pseudonym of its nonce and nowhere else: nonces, numbering and other
  pseudonyms stay, other groups stay, and recording it again changes nothing.\<close>
theorem petname_recorded:
  assumes "List.find (\<lambda>p. pn_nonce p = n) (listPseudonyms g ps) = Some p"
  shows "List.find (\<lambda>p. pn_nonce p = n) (listPseudonyms g (snd (recordPetname g n name ps)))
      = Some (p\<lparr>pn_petname := Some name\<rparr>)
    \<and> list_all2 (\<lambda>a b. pn_nonce a = pn_nonce b \<and> pn_index a = pn_index b \<and> (pn_nonce a \<noteq> n \<longrightarrow> b = a))
        (listPseudonyms g ps) (listPseudonyms g (snd (recordPetname g n name ps)))
    \<and> (g' \<noteq> g \<longrightarrow> listPseudonyms g' (snd (recordPetname g n name ps)) = listPseudonyms g' ps)
    \<and> \<not> fst (recordPetname g n name (snd (recordPetname g n name ps)))"
proof -
  let ?l = "listPseudonyms g ps" and ?l' = "snd (set_petname n name (listPseudonyms g ps))"
  have "list_all2 (\<lambda>a b. pn_nonce a = pn_nonce b \<and> pn_index a = pn_index b \<and> (pn_nonce a \<noteq> n \<longrightarrow> b = a)) ?l ?l'"
    by (rule set_petname_other)
  moreover have "\<not> fst (recordPetname g n name (snd (recordPetname g n name ps)))"
    using set_petname_again [of n name ?l]
    by (simp add: recordPetname_def [of g n name "snd (recordPetname g n name ps)"] list_record Let_def case_prod_unfold)
  ultimately show ?thesis
    using set_petname_first [OF assms, of name] by (simp add: list_record)
qed

theorem petname_recorded_witness:
  "List.find (\<lambda>p. pn_nonce p = 5) (listPseudonyms ''G'' (snd (recordPetname ''G'' 5 ''fox''
      [(''G'', [\<lparr>pn_nonce = 5, pn_petname = None, pn_index = js_int 1\<rparr>])])))
   = Some \<lparr>pn_nonce = 5, pn_petname = Some ''fox'', pn_index = js_int 1\<rparr>"
  using petname_recorded [of 5 "''G''" "[(''G'', [\<lparr>pn_nonce = 5, pn_petname = None, pn_index = js_int 1\<rparr>])]"]
  by (simp add: list_pseudonyms_get map_get_def)

text \<open>Pseudonyms survive a restart unchanged and in order: the nonce is the identity, and the
  list loaded from the saved snapshot is the list that was saved.\<close>

theorem pseudonyms_survive_restart:
  assumes "pseudonyms_sane ps g" and "pseudonyms_snapshot ps g = Some j" and "json_parse (json_stringify j) = Some j'"
  shows "listPseudonyms g (pseudonyms_restore g j' ps') = listPseudonyms g ps"
  using pseudonyms_extra.snapshot_survives_disk [OF assms(1) _ assms(2,3)] by simp

theorem pseudonyms_survive_restart_witness:
  "\<exists>j'. listPseudonyms ''G'' (pseudonyms_restore ''G'' j' []) = [\<lparr>pn_nonce = 5, pn_petname = Some ''fox'', pn_index = js_int 1\<rparr>]"
proof -
  let ?ps = "[(''G'', [\<lparr>pn_nonce = 5, pn_petname = Some ''fox'', pn_index = js_int 1\<rparr>])]"
  have s: "pseudonyms_sane ?ps ''G''" by code_simp
  obtain j where j: "pseudonyms_snapshot ?ps ''G'' = Some j" by (simp add: pseudonyms_snapshot_def)
  have "json_parse (json_stringify j) = Some j"
    using pseudonyms_extra.snapshot_json_ok [OF s j] by (rule json_parse_stringify)
  from pseudonyms_survive_restart [OF s j this, of "[]"] show ?thesis
    by (intro exI [of _ j]) (simp add: list_pseudonyms_get map_get_def)
qed

end
