(* ===== verification/Extras.thy ===== *)
theory Extras
  imports Pseudonyms
begin

text \<open>
  The other lists saved with a member's state: where a group's catch-up stands
  (\<^verbatim>\<open>ts/services/personasCatchUp.preload.ts\<close>), our own reset request and the reset requests we
  received (\<^verbatim>\<open>ts/services/personasReset.preload.ts\<close>), each with its snapshot and restore, and an
  interpretation of \<open>persisted_extra\<close>.  A stored number is a finite one.
\<close>

section \<open>Catch-up\<close>

datatype CatchUpState = CatchUpDone | CatchUpNeeded | CatchUpRequested

record Saved =
  sv_state :: CatchUpState
  sv_requestedAt :: "rat option"

record GroupCatchUp =
  gc_saved :: "Saved option"
  gc_lastRequestSentAt :: int

type_synonym catchups = "(string, GroupCatchUp) jsmap"

definition catchUpOf :: "string \<Rightarrow> catchups \<Rightarrow> GroupCatchUp \<times> catchups" where
  "catchUpOf groupId cs = map_entry \<lparr>gc_saved = None, gc_lastRequestSentAt = 0\<rparr> cs groupId"

definition saved_at :: "catchups \<Rightarrow> string \<Rightarrow> Saved option" where
  "saved_at cs g = Option.bind (map_get cs g) gc_saved"

definition set_saved :: "string \<Rightarrow> Saved \<Rightarrow> catchups \<Rightarrow> catchups" where
  "set_saved groupId s cs =
     (let (entry, cs1) = catchUpOf groupId cs in map_set cs1 groupId (entry\<lparr>gc_saved := Some s\<rparr>))"

definition state_text :: "CatchUpState \<Rightarrow> string" where
  "state_text s = (case s of CatchUpDone \<Rightarrow> ''done'' | CatchUpNeeded \<Rightarrow> ''needed'' | CatchUpRequested \<Rightarrow> ''requested'')"

definition state_of_text :: "string \<Rightarrow> CatchUpState option" where
  "state_of_text t =
     (if t = ''done'' then Some CatchUpDone else if t = ''needed'' then Some CatchUpNeeded
      else if t = ''requested'' then Some CatchUpRequested else None)"

definition json_number :: "json \<Rightarrow> string \<Rightarrow> rat option" where
  "json_number v k = (case jget v k of Some (JNum (Fin q)) \<Rightarrow> Some q | _ \<Rightarrow> None)"

definition catchUp_snapshot :: "catchups \<Rightarrow> string \<Rightarrow> json option" where
  "catchUp_snapshot cs groupId =
     Some (case saved_at cs groupId of
             None \<Rightarrow> JNull
           | Some s \<Rightarrow> JObj ((''state'', JStr (state_text (sv_state s)))
                              # opt_member ''requestedAt'' (\<lambda>q. JNum (Fin q)) (sv_requestedAt s)))"

definition catchUp_restore :: "string \<Rightarrow> json \<Rightarrow> catchups \<Rightarrow> catchups" where
  "catchUp_restore groupId value cs =
     (case Option.bind (jget_str value ''state'') state_of_text of
        None \<Rightarrow> cs
      | Some st \<Rightarrow> set_saved groupId \<lparr>sv_state = st, sv_requestedAt = json_number value ''requestedAt''\<rparr> cs)"

lemma state_of_text_text [simp]: "state_of_text (state_text s) = Some s"
  by (cases s) (simp_all add: state_of_text_def state_text_def)

lemma saved_at_set [simp]: "saved_at (set_saved g s cs) g' = (if g' = g then Some s else saved_at cs g')"
  by (auto simp: saved_at_def set_saved_def catchUpOf_def map_entry_def split: option.split)

definition catchUp_sane :: "catchups \<Rightarrow> string \<Rightarrow> bool" where
  "catchUp_sane cs g =
     (case saved_at cs g of None \<Rightarrow> True
      | Some s \<Rightarrow> (case sv_requestedAt s of None \<Rightarrow> True | Some q \<Rightarrow> is_safe_integer (Fin q)))"

interpretation catchUp_extra:
  persisted_extra catchUp_snapshot catchUp_restore saved_at catchUp_sane "\<lambda>cs g. saved_at cs g = None"
proof
  show "json_ok j" if "catchUp_sane cs g" "catchUp_snapshot cs g = Some j" for cs g j
    using that by (auto simp: catchUp_sane_def catchUp_snapshot_def opt_member_def split: option.splits)
  show "saved_at (catchUp_restore g j cs') g = saved_at cs g"
    if "catchUp_sane cs g" "saved_at cs' g = None" "catchUp_snapshot cs g = Some j" for cs g cs' j
  proof (cases "saved_at cs g")
    case (Some s)
    with that(3) have "jget_str j ''state'' = Some (state_text (sv_state s))"
      "json_number j ''requestedAt'' = sv_requestedAt s"
      by (cases "sv_requestedAt s"; auto simp: catchUp_snapshot_def jget_str_def json_number_def opt_member_def)+
    with Some show ?thesis by (simp add: catchUp_restore_def)
  qed (use that in \<open>auto simp: catchUp_snapshot_def catchUp_restore_def jget_str_def\<close>)
  show "saved_at (catchUp_restore g j cs) g' = saved_at cs g'" if "g' \<noteq> g" for g' g j cs
    using that by (simp add: catchUp_restore_def split: option.split)
qed

section \<open>Our own reset request\<close>

record OwnRequest =
  or_requestedAt :: rat
  or_approvedAtBarrier :: "rat option"

type_synonym own_requests = "(string, OwnRequest) jsmap"

definition resetRequest_snapshot :: "own_requests \<Rightarrow> string \<Rightarrow> json option" where
  "resetRequest_snapshot rs groupId =
     Some (case map_get rs groupId of
             None \<Rightarrow> JNull
           | Some r \<Rightarrow> JObj ((''requestedAt'', JNum (Fin (or_requestedAt r)))
                              # opt_member ''approvedAtBarrier'' (\<lambda>q. JNum (Fin q)) (or_approvedAtBarrier r)))"

definition resetRequest_restore :: "string \<Rightarrow> json \<Rightarrow> own_requests \<Rightarrow> own_requests" where
  "resetRequest_restore groupId value rs =
     (case json_number value ''requestedAt'' of
        Some t \<Rightarrow> map_set rs groupId \<lparr>or_requestedAt = t, or_approvedAtBarrier = json_number value ''approvedAtBarrier''\<rparr>
      | None \<Rightarrow> map_del rs groupId)"

definition resetRequest_sane :: "own_requests \<Rightarrow> string \<Rightarrow> bool" where
  "resetRequest_sane rs g =
     (case map_get rs g of None \<Rightarrow> True
      | Some r \<Rightarrow> is_safe_integer (Fin (or_requestedAt r))
          \<and> (case or_approvedAtBarrier r of None \<Rightarrow> True | Some q \<Rightarrow> is_safe_integer (Fin q)))"

interpretation resetRequest_extra:
  persisted_extra resetRequest_snapshot resetRequest_restore map_get resetRequest_sane "\<lambda>_ _. True"
proof
  show "json_ok j" if "resetRequest_sane rs g" "resetRequest_snapshot rs g = Some j" for rs g j
    using that by (auto simp: resetRequest_sane_def resetRequest_snapshot_def opt_member_def split: option.splits)
  show "map_get (resetRequest_restore g j rs') g = map_get rs g"
    if "resetRequest_snapshot rs g = Some j" for rs g rs' j
  proof (cases "map_get rs g")
    case (Some r)
    with that have "json_number j ''requestedAt'' = Some (or_requestedAt r)"
      "json_number j ''approvedAtBarrier'' = or_approvedAtBarrier r"
      by (cases "or_approvedAtBarrier r"; auto simp: resetRequest_snapshot_def json_number_def opt_member_def)+
    with Some show ?thesis by (simp add: resetRequest_restore_def)
  qed (use that in \<open>auto simp: resetRequest_snapshot_def resetRequest_restore_def json_number_def\<close>)
  show "map_get (resetRequest_restore g j rs) g' = map_get rs g'" if "g' \<noteq> g" for g' g j rs
    using that by (simp add: resetRequest_restore_def split: option.split)
qed

section \<open>Received reset requests\<close>

record ReceivedResetRequest =
  rq_account :: string
  rq_name :: string
  rq_proofOk :: bool
  rq_reason :: "string option"
  rq_proof :: "string option"
  rq_at :: rat

type_synonym received = "(string, (string, ReceivedResetRequest) jsmap) jsmap"

definition receivedIn :: "string \<Rightarrow> received \<Rightarrow> (string, ReceivedResetRequest) jsmap \<times> received" where
  "receivedIn groupId rs = map_entry [] rs groupId"

definition received_json :: "ReceivedResetRequest \<Rightarrow> json" where
  "received_json r =
     JObj ([(''account'', JStr (rq_account r)), (''name'', JStr (rq_name r)), (''proofOk'', JBool (rq_proofOk r))]
           @ opt_member ''reason'' JStr (rq_reason r) @ opt_member ''proof'' JStr (rq_proof r)
           @ [(''at'', JNum (Fin (rq_at r)))])"

definition received_snapshot :: "received \<Rightarrow> string \<Rightarrow> json option" where
  "received_snapshot rs groupId = Some (JArr (map (received_json \<circ> snd) (fst (receivedIn groupId rs))))"

text \<open>The clock, for an entry without a time, is an argument.\<close>

definition stored_request :: "int \<Rightarrow> json \<Rightarrow> ReceivedResetRequest option" where
  "stored_request now v =
     (case (jget_str v ''account'', jget_str v ''name'') of
        (Some a, Some n) \<Rightarrow>
          Some \<lparr>rq_account = a, rq_name = n, rq_proofOk = (jget v ''proofOk'' = Some (JBool True)),
                rq_reason = jget_str v ''reason'', rq_proof = jget_str v ''proof'',
                rq_at = (case json_number v ''at'' of Some q \<Rightarrow> q | None \<Rightarrow> of_int now)\<rparr>
      | _ \<Rightarrow> None)"

definition received_restore :: "int \<Rightarrow> string \<Rightarrow> json \<Rightarrow> received \<Rightarrow> received" where
  "received_restore now groupId value rs =
     (case value of
        JArr vs \<Rightarrow>
          (let (m, rs1) = receivedIn groupId rs in
           map_set rs1 groupId
             (fold (\<lambda>r m. map_set m (rq_account r) r) (List.map_filter (stored_request now) vs) m))
      | _ \<Rightarrow> rs)"

definition requests_of :: "received \<Rightarrow> string \<Rightarrow> (string, ReceivedResetRequest) jsmap" where
  "requests_of rs g = (case map_get rs g of None \<Rightarrow> [] | Some m \<Rightarrow> m)"

lemma receivedIn_fst [simp]: "fst (receivedIn g rs) = requests_of rs g"
  by (simp add: receivedIn_def map_entry_def requests_of_def split: option.split)

lemma receivedIn_snd [simp]: "requests_of (snd (receivedIn g rs)) g' = requests_of rs g'"
  by (simp add: receivedIn_def map_entry_def requests_of_def split: option.split)

lemma requests_of_set [simp]: "requests_of (map_set rs g m) g' = (if g' = g then m else requests_of rs g')"
  by (simp add: requests_of_def)

definition received_sane :: "received \<Rightarrow> string \<Rightarrow> bool" where
  "received_sane rs g =
     (map_wf (requests_of rs g)
      \<and> (\<forall>(a, r) \<in> set (requests_of rs g). rq_account r = a \<and> is_safe_integer (Fin (rq_at r))))"

lemma stored_request_json: "stored_request now (received_json r) = Some r"
  by (cases "rq_reason r"; cases "rq_proof r")
     (simp_all add: stored_request_def received_json_def jget_str_def json_number_def opt_member_def)

interpretation received_extra:
  persisted_extra received_snapshot "received_restore now" requests_of received_sane "\<lambda>rs g. requests_of rs g = []" for now
proof
  show "json_ok j" if "received_sane rs g" "received_snapshot rs g = Some j" for rs g j
    using that
    by (fastforce simp: received_sane_def received_snapshot_def received_json_def opt_member_def split: option.splits)
  show "requests_of (received_restore now g j rs') g = requests_of rs g"
    if "received_sane rs g" "requests_of rs' g = []" "received_snapshot rs g = Some j" for rs g rs' j
  proof -
    have keyed: "\<forall>(a, r) \<in> set (requests_of rs g). rq_account r = a" and wf: "map_wf (requests_of rs g)"
      using that(1) by (auto simp: received_sane_def)
    have "fold (\<lambda>r m. map_set m (rq_account r) r) (map snd kvs) m = fold (\<lambda>(k, x) m. map_set m k x) kvs m"
      if "\<forall>(a, r) \<in> set kvs. rq_account r = a" for kvs m
      using that by (induction kvs arbitrary: m) auto
    from this [OF keyed, of "[]"]
    have "fold (\<lambda>r m. map_set m (rq_account r) r) (map snd (requests_of rs g)) []
        = fold (\<lambda>(k, x) m. map_set m k x) (requests_of rs g) []" .
    moreover have "fold (\<lambda>(k, x) m. map_set m k x) (requests_of rs g) [] = requests_of rs g"
      using fold_map_set_distinct [of "[]" "requests_of rs g"] wf by (simp add: map_wf_def)
    moreover have "List.map_filter (stored_request now) (map (received_json \<circ> snd) (requests_of rs g))
        = map snd (requests_of rs g)"
      by (simp add: List.map_filter_def stored_request_json comp_def)
    ultimately show ?thesis
      using that(2,3)
      by (auto simp: received_snapshot_def received_restore_def case_prod_unfold Let_def)
  qed
  show "requests_of (received_restore now g j rs) g' = requests_of rs g'" if "g' \<noteq> g" for g' g j rs
    using that by (simp add: received_restore_def case_prod_unfold Let_def split: json.split)
qed

end
