(* ===== verification/PhantomSend.thy ===== *)
theory PhantomSend
  imports Phantom
begin

text \<open>
  The other half of \<^verbatim>\<open>ts/services/personasPhantom.preload.ts\<close>: handing bundles to the members of
  their groups (\<^verbatim>\<open>distributePhantomBundle\<close>, the sweep, turning personas on), the sender-key
  chain and identity store used to encrypt under the phantom identity.

  A send is an entry of the returned list; whether it succeeds is the parameter \<open>sendOk\<close>, per
  recipient.  \<open>joined\<close> is the check \<^verbatim>\<open>personasEngine\<close> registers with \<^verbatim>\<open>setPhantomJoinCheck\<close>.
\<close>

section \<open>Sender-key and identity stores\<close>

type_synonym mem_store = "(string, string) jsmap"

definition mem_key :: "string \<times> nat \<Rightarrow> string \<Rightarrow> string" where
  "mem_key sender distId = fst sender @ ''::'' @ show_nat (snd sender) @ ''::'' @ distId"

definition rawGet :: "mem_store \<Rightarrow> string \<times> nat \<Rightarrow> string \<Rightarrow> string option" where
  "rawGet st sender distId = map_get st (mem_key sender distId)"

definition rawSet :: "mem_store \<Rightarrow> string \<times> nat \<Rightarrow> string \<Rightarrow> string \<Rightarrow> mem_store" where
  "rawSet st sender distId bytes = map_set st (mem_key sender distId) bytes"

definition PHANTOM_DEVICE_ID :: nat where "PHANTOM_DEVICE_ID = 1"

definition phantomAddress :: "string \<times> nat" where
  "phantomAddress = (PHANTOM_SENDER_ACI, PHANTOM_DEVICE_ID)"

text \<open>The phantom address holds one chain per distribution id.\<close>

lemma mem_key_inj: "mem_key s d = mem_key s d' \<longleftrightarrow> d = d'"
  by (simp add: mem_key_def)

interpretation phantom_keys: lookup_table "[]" "\<lambda>st. rawGet st phantomAddress" "\<lambda>st. rawSet st phantomAddress"
  by unfold_locales (auto simp: rawGet_def rawSet_def mem_key_inj)

record identity_store =
  ids_getIdentityKey :: string
  ids_getLocalRegistrationId :: int
  ids_getIdentity :: "string \<Rightarrow> string option"
  ids_isTrustedIdentity :: "string \<Rightarrow> string \<Rightarrow> bool"

definition buildPhantomIdentityStore :: "phantom \<Rightarrow> string option \<Rightarrow> identity_store \<Rightarrow> identity_store option" where
  "buildPhantomIdentityStore p g delegate =
     map_option (\<lambda>mat. delegate\<lparr>ids_getIdentityKey := pm_phantomIdentity mat\<rparr>) (mat_for p g)"

text \<open>What is encrypted: the distribution id it is encrypted under and the message, or the error.\<close>

definition phantomGroupEncrypt :: "env \<Rightarrow> phantom \<Rightarrow> string option \<Rightarrow> string \<Rightarrow> string + string \<times> string" where
  "phantomGroupEncrypt e p g message =
     (case mat_for p g of
        None \<Rightarrow> Inl ''phantomGroupEncrypt: no phantom bundle for this group''
      | Some mat \<Rightarrow>
          (case env_ourAci e of
             None \<Rightarrow> Inl ''no ACI''
           | Some _ \<Rightarrow> Inr (pm_distributionId mat, message)))"

section \<open>Distribution\<close>

definition RESEND_EVERY_MS :: int where "RESEND_EVERY_MS = 10 * 60000"

definition readCurrentChainRecord :: "env \<Rightarrow> phantom \<Rightarrow> PhantomMaterial \<Rightarrow> string option" where
  "readCurrentChainRecord e p mat =
     (case env_ourAci e of None \<Rightarrow> None | Some _ \<Rightarrow> map_get (ph_chains p) (pm_distributionId mat))"

definition sent_key :: "env \<Rightarrow> PhantomMaterial \<Rightarrow> string \<Rightarrow> string" where
  "sent_key e mat serviceId = bundleFingerprint e mat @ CHR '':'' # serviceId"

definition sentTo :: "phantom \<Rightarrow> string list" where
  "sentTo p = (case it_personasPhantomSentTo (ph_items p) of None \<Rightarrow> [] | Some xs \<Rightarrow> remdups xs)"

definition needs_bundle :: "env \<Rightarrow> (string \<Rightarrow> string \<Rightarrow> bool option) \<Rightarrow> PhantomMaterial \<Rightarrow> phantom \<Rightarrow> member \<Rightarrow> bool" where
  "needs_bundle e joined mat p m =
     (case mb_serviceId m of
        None \<Rightarrow> False
      | Some serviceId \<Rightarrow>
          (if serviceId = [] \<or> mb_isMe m then False
           else
             (let key = sent_key e mat serviceId in
              if key \<notin> set (sentTo p) then True
              else joined (pm_groupId mat) serviceId = Some False
                   \<and> env_now e - (case map_get (ph_lastSentAt p) key of None \<Rightarrow> 0 | Some t \<Rightarrow> t) \<ge> RESEND_EVERY_MS)))"

definition bundle_recipients :: "env \<Rightarrow> (string \<Rightarrow> string \<Rightarrow> bool option) \<Rightarrow> PhantomMaterial \<Rightarrow> phantom \<Rightarrow> string list" where
  "bundle_recipients e joined mat p =
     (case map_get (env_conversations e) (pm_groupId mat) of
        None \<Rightarrow> []
      | Some grp \<Rightarrow>
          (if \<not> cv_isGroupV2 grp \<or> cv_left grp then []
           else map_keys (fold (\<lambda>m acc. if needs_bundle e joined mat p m
                                          then map_set acc (the (mb_serviceId m)) () else acc)
                            (cv_members grp) [])))"

definition bundle_body :: "PhantomMaterial \<Rightarrow> SerializedBundle \<Rightarrow> string \<Rightarrow> string" where
  "bundle_body mat stored chain =
     json_body PERSONAS_PHANTOM_BUNDLE_MARKER
       (JObj [(''v'', JNum (Fin 2)), (''groupId'', JStr (pm_groupId mat)),
              (''trustRootPublic'', JStr (sb_trustRootPublic stored)),
              (''phantomIdentityKeyPair'', JStr (sb_phantomIdentityKeyPair stored)),
              (''phantomCert'', JStr (sb_phantomCert stored)),
              (''distributionId'', JStr (sb_distributionId stored)), (''skdm'', JStr (sb_skdm stored)),
              (''chainRecord'', JStr (b64_encode chain)), (''schedule'', sb_schedule stored)])"

definition mark_sent :: "env \<Rightarrow> PhantomMaterial \<Rightarrow> string \<Rightarrow> phantom \<Rightarrow> phantom" where
  "mark_sent e mat serviceId p =
     (let key = sent_key e mat serviceId in
      p\<lparr>ph_lastSentAt := map_set (ph_lastSentAt p) key (env_now e),
        ph_items := (ph_items p)\<lparr>it_personasPhantomSentTo := Some (set_add (sentTo p) key)\<rparr>\<rparr>)"

text \<open>Each recipient in turn; only a send that succeeded is marked.\<close>

fun send_bundles :: "env \<Rightarrow> PhantomMaterial \<Rightarrow> (string \<Rightarrow> bool) \<Rightarrow> string list \<Rightarrow> phantom \<Rightarrow> phantom" where
  "send_bundles e mat sendOk [] p = p"
| "send_bundles e mat sendOk (s # ss) p =
     send_bundles e mat sendOk ss (if sendOk s then mark_sent e mat s p else p)"

text \<open>The bodies handed to the send path, with their recipients; \<open>None\<close> is a stored bundle that
  cannot be parsed.\<close>

definition distributeOne :: "env \<Rightarrow> (string \<Rightarrow> string \<Rightarrow> bool option) \<Rightarrow> (string \<Rightarrow> bool) \<Rightarrow>
    PhantomMaterial \<times> string \<Rightarrow> phantom \<Rightarrow> (string \<times> string) list option \<times> phantom" where
  "distributeOne e joined sendOk mj p =
     (case mj of (mat, json) \<Rightarrow>
        (let pending = bundle_recipients e joined mat p in
         if pending = [] then (Some [], p)
         else
           (case readCurrentChainRecord e p mat of
              None \<Rightarrow> (Some [], p)
            | Some chain \<Rightarrow>
                (if chain = [] then (Some [], p)
                 else
                   (case read_bundle json of
                      None \<Rightarrow> (None, p)
                    | Some stored \<Rightarrow>
                        (Some (map (\<lambda>s. (s, bundle_body mat stored chain)) pending),
                         send_bundles e mat sendOk pending p))))))"

fun distribute_loop :: "env \<Rightarrow> (string \<Rightarrow> string \<Rightarrow> bool option) \<Rightarrow> (string \<Rightarrow> bool) \<Rightarrow>
    (PhantomMaterial \<times> string) list \<Rightarrow> phantom \<Rightarrow> (string \<times> string) list \<times> phantom" where
  "distribute_loop e joined sendOk [] p = ([], p)"
| "distribute_loop e joined sendOk (mj # rest) p =
     (case distributeOne e joined sendOk mj p of
        (None, q) \<Rightarrow> ([], q)
      | (Some out, q) \<Rightarrow> (let (out', r) = distribute_loop e joined sendOk rest q in (out @ out', r)))"

definition distributePhantomBundle :: "env \<Rightarrow> (string \<Rightarrow> string \<Rightarrow> bool option) \<Rightarrow> (string \<Rightarrow> bool) \<Rightarrow> phantom \<Rightarrow>
    (string \<times> string) list \<times> phantom" where
  "distributePhantomBundle e joined sendOk p0 =
     (let p = loadHeld e p0 in
      if ph_distributing p \<or> ph_held p = [] then ([], p)
      else
        (let (out, q) = distribute_loop e joined sendOk (map snd (ph_held p)) (p\<lparr>ph_distributing := True\<rparr>)
         in (out, q\<lparr>ph_distributing := False\<rparr>)))"

text \<open>The periodic sweep: when retrying the pending bundles throws, distribution is not reached.\<close>

definition sweep :: "env \<Rightarrow> (string \<Rightarrow> string \<Rightarrow> bool option) \<Rightarrow> (string \<Rightarrow> bool) \<Rightarrow> phantom \<Rightarrow>
    (string \<times> string) list \<times> phantom" where
  "sweep e joined sendOk p =
     (case retryPendingBundles e p of
        (False, q) \<Rightarrow> ([], q)
      | (True, q) \<Rightarrow> distributePhantomBundle e joined sendOk q)"

datatype turn_on_result = TurnOnOk | TurnOnFailed string | TurnOnRejected

definition turnOnPersonasInGroup :: "env \<Rightarrow> fresh_keys \<Rightarrow> (string \<Rightarrow> string \<Rightarrow> bool option) \<Rightarrow> (string \<Rightarrow> bool) \<Rightarrow>
    conversation \<Rightarrow> phantom \<Rightarrow> turn_on_result \<times> (string \<times> string) list \<times> phantom" where
  "turnOnPersonasInGroup e k joined sendOk c p =
     (if \<not> isPersonasMode e then (TurnOnFailed ''personas are not enabled in this app'', [], p)
      else if \<not> cv_isGroupV2 c \<or> \<not> truthy_str (cv_groupId c)
      then (TurnOnFailed ''personas work in groups only'', [], p)
      else if \<not> cv_weAreAdmin c then (TurnOnFailed ''only a group admin can turn personas on'', [], p)
      else
        (let (existing, q) = ensurePhantomMaterial e (cv_groupId c) p in
         if existing \<noteq> None then (TurnOnOk, [], q)
         else if atGroupLimit e q
         then (TurnOnFailed (''this account already uses personas in '' @ show_nat MAX_PERSONAS_GROUPS @ '' groups''), [], q)
         else
           (case mintPhantomBundle e k (cv_groupId c) q of
              (None, r) \<Rightarrow> (TurnOnRejected, [], r)
            | (Some _, r) \<Rightarrow>
                (let (out, r') = distributePhantomBundle e joined sendOk r in (TurnOnOk, out, r')))))"

section \<open>Recipients\<close>

lemma fold_set_keys:
  "set (map_keys (fold (\<lambda>m acc. if P m then map_set acc (k m) () else acc) ms acc))
   = set (map_keys acc) \<union> k ` {m \<in> set ms. P m}"
  by (induction ms arbitrary: acc) auto

lemma set_bundle_recipients:
  "s \<in> set (bundle_recipients e joined mat p) \<longleftrightarrow>
   (\<exists>grp m. map_get (env_conversations e) (pm_groupId mat) = Some grp \<and> cv_isGroupV2 grp \<and> \<not> cv_left grp
      \<and> m \<in> set (cv_members grp) \<and> mb_serviceId m = Some s \<and> needs_bundle e joined mat p m)"
proof -
  have "needs_bundle e joined mat p m \<Longrightarrow> \<exists>s. mb_serviceId m = Some s" for m
    by (auto simp: needs_bundle_def split: option.splits)
  then have "s \<in> (the \<circ> mb_serviceId) ` {m \<in> set ms. needs_bundle e joined mat p m}
    \<longleftrightarrow> (\<exists>m \<in> set ms. mb_serviceId m = Some s \<and> needs_bundle e joined mat p m)" for ms
    by force
  then show ?thesis
    unfolding bundle_recipients_def
    by (cases "map_get (env_conversations e) (pm_groupId mat)") (auto simp: fold_set_keys comp_def)
qed

lemma set_set_add [simp]: "set (set_add xs x) = insert x (set xs)"
  by (auto simp: set_add_def)

lemma sentTo_mark [simp]: "set (sentTo (mark_sent e mat s p)) = insert (sent_key e mat s) (set (sentTo p))"
  by (simp add: sentTo_def mark_sent_def Let_def)

lemma send_bundles_sentTo:
  "set (sentTo (send_bundles e mat sendOk ss p)) = set (sentTo p) \<union> sent_key e mat ` {s \<in> set ss. sendOk s}"
  by (induction ss arbitrary: p) auto

lemma send_bundles_held [simp]: "ph_held (send_bundles e mat sendOk ss p) = ph_held p"
  by (induction ss arbitrary: p) (auto simp: mark_sent_def Let_def)

lemma distributeOne_Some:
  assumes "distributeOne e joined sendOk (mat, json) p = (Some out, q)"
  shows "out = [] \<and> q = p
    \<or> (\<exists>stored chain. out = map (\<lambda>s. (s, bundle_body mat stored chain)) (bundle_recipients e joined mat p)
         \<and> q = send_bundles e mat sendOk (bundle_recipients e joined mat p) p)"
  using assms by (simp add: distributeOne_def Let_def split: if_splits option.splits) blast+

section \<open>The body a recipient reads\<close>

definition bundle_sane :: "SerializedBundle \<Rightarrow> bool" where
  "bundle_sane b =
     (sb_groupId b \<noteq> [] \<and> sb_trustRootPublic b \<noteq> [] \<and> sb_phantomIdentityKeyPair b \<noteq> []
      \<and> sb_phantomCert b \<noteq> [] \<and> sb_distributionId b \<noteq> [] \<and> sb_skdm b \<noteq> []
      \<and> (case (jget_num (sb_schedule b) ''anchorMs'', jget_num (sb_schedule b) ''periodMs'') of
           (Some (Fin a), Some n) \<Rightarrow>
             sb_schedule b = JObj [(''anchorMs'', JNum (Fin a)), (''periodMs'', JNum n)]
             \<and> is_safe_integer (Fin a) \<and> is_safe_integer n \<and> num_pos n
         | _ \<Rightarrow> False))"

lemma bundle_sane_schedule:
  assumes "bundle_sane b"
  obtains a n where "sb_schedule b = JObj [(''anchorMs'', JNum (Fin a)), (''periodMs'', JNum n)]"
    "is_safe_integer (Fin a)" "is_safe_integer n" "num_pos n"
  using assms unfolding bundle_sane_def
  by (auto split: option.splits jsnum.splits)

lemma bundle_body_decodes:
  assumes "bundle_sane b" and "pm_groupId mat = sb_groupId b" and "chain \<noteq> []"
  obtains w where "decodePhantomBundle (Some (bundle_body mat b chain)) = Some w"
    "wire_bundle w = b\<lparr>sb_sendKeyRecord := b64_encode chain\<rparr>" "wire_ok w"
proof -
  obtain a n where sch: "sb_schedule b = JObj [(''anchorMs'', JNum (Fin a)), (''periodMs'', JNum n)]"
      "is_safe_integer (Fin a)" "is_safe_integer n" "num_pos n"
    using bundle_sane_schedule [OF assms(1)] .
  let ?w = "\<lparr>pb_groupId = sb_groupId b, pb_trustRootPublic = sb_trustRootPublic b,
     pb_phantomIdentityKeyPair = sb_phantomIdentityKeyPair b, pb_phantomCert = sb_phantomCert b,
     pb_distributionId = sb_distributionId b, pb_skdm = sb_skdm b, pb_chainRecord = b64_encode chain,
     pb_anchorMs = a, pb_periodMs = JNum n\<rparr>"
  have body: "bundle_body mat b chain = encodePhantomBundle ?w"
    using assms(2) sch(1) by (simp add: bundle_body_def encodePhantomBundle_def phantom_wire_json_def)
  have "bundle_ok ?w"
    using assms(1,3) sch by (simp add: bundle_ok_def bundle_sane_def)
  then have dec: "decodePhantomBundle (Some (bundle_body mat b chain)) = Some ?w"
    unfolding body by (rule bundle_codec.dec_enc)
  have "wire_bundle ?w = b\<lparr>sb_sendKeyRecord := b64_encode chain\<rparr>"
    using sch(1) by (cases b) (simp add: wire_bundle_def)
  moreover have "wire_ok ?w"
    using assms(1) sch by (simp add: wire_ok_def bundle_sane_def)
  ultimately show thesis using dec that by blast
qed


section \<open>Properties\<close>

text \<open>C3. Every member ends up with the same phantom identity: what a holder sends is decoded and
  adopted by a recipient (in personas mode, with room, not yet holding one) as material with the
  holder's trust root, identity key, certificate bytes, distribution id and barrier schedule;
  only the chain position is the sender's current one.\<close>
theorem distributed_bundle_is_identical:
  assumes "deserialize e b = Some mat" and "bundle_sane b" and "chain \<noteq> []"
    and "phantom_inv p" and "isPersonasMode e" and "held_mat p (sb_groupId b) = None" and "\<not> atGroupLimit e p"
  shows "\<exists>w q mat'. decodePhantomBundle (Some (bundle_body mat b chain)) = Some w
    \<and> adoptPhantomBundle e w p = (Some Adopted, q) \<and> held_mat q (sb_groupId b) = Some mat'
    \<and> mat' = mat\<lparr>pm_initialSendKeyRecord := chain\<rparr>"
proof -
  have g: "pm_groupId mat = sb_groupId b" using deserialize_fields [OF assms(1)] by simp
  obtain w where w: "decodePhantomBundle (Some (bundle_body mat b chain)) = Some w"
      "wire_bundle w = b\<lparr>sb_sendKeyRecord := b64_encode chain\<rparr>" "wire_ok w"
    using bundle_body_decodes [OF assms(2) g assms(3)] .
  have gw: "pb_groupId w = sb_groupId b"
    using arg_cong [OF w(2), of sb_groupId] by (simp add: wire_bundle_def)
  have "deserialize e (wire_bundle w) = Some (mat\<lparr>pm_initialSendKeyRecord := chain\<rparr>)"
    using assms(1) unfolding w(2) by (auto simp: deserialize_def split: option.splits)
  then have "adoptPhantomBundle e w p = (Some Adopted, snd (adoptPhantomBundle e w p))
    \<and> held_mat (snd (adoptPhantomBundle e w p)) (pb_groupId w) = Some (mat\<lparr>pm_initialSendKeyRecord := chain\<rparr>)"
    using assms(4-7) gw w(3) by (intro adopt_succeeds) (auto simp: phantom_inv_def)
  with w(1) gw show ?thesis by metis
qed

theorem distributed_bundle_is_identical_witness:
  "\<exists>w q. decodePhantomBundle (Some (bundle_body (the (deserialize demo_env (wire_bundle demo_wire))) (wire_bundle demo_wire) ''chain'')) = Some w
     \<and> adoptPhantomBundle demo_env w demo_start = (Some Adopted, q)"
proof -
  obtain mat where m: "deserialize demo_env (wire_bundle demo_wire) = Some mat" using demo_deserialize by blast
  have b: "bundle_sane (wire_bundle demo_wire)" "held_mat demo_start (sb_groupId (wire_bundle demo_wire)) = None"
    by code_simp+
  show ?thesis
    using distributed_bundle_is_identical [OF m b(1) _ demo_start_inv demo_start_facts(2) b(2) demo_start_facts(4), of "''chain''"] m
    by auto
qed

text \<open>C35. Key material leaves only towards members: whatever the sweep sends for a group goes 1:1 to
  other members of that group who were not sent it yet, or were at least ten minutes ago and are
  known not to have joined; and exactly the successful sends are recorded.\<close>
theorem bundle_goes_to_members_only:
  assumes "distributeOne e joined sendOk (mat, json) p = (Some out, q)"
  shows "(\<forall>(s, body) \<in> set out. \<exists>grp m. map_get (env_conversations e) (pm_groupId mat) = Some grp
            \<and> \<not> cv_left grp \<and> m \<in> set (cv_members grp) \<and> mb_serviceId m = Some s \<and> \<not> mb_isMe m
            \<and> (sent_key e mat s \<notin> set (sentTo p) \<or> joined (pm_groupId mat) s = Some False))
    \<and> set (sentTo q) = set (sentTo p) \<union> {sent_key e mat s | s. s \<in> fst ` set out \<and> sendOk s}"
proof -
  let ?r = "bundle_recipients e joined mat p"
  consider "out = []" "q = p"
    | stored chain where "out = map (\<lambda>s. (s, bundle_body mat stored chain)) ?r" "q = send_bundles e mat sendOk ?r p"
    using distributeOne_Some [OF assms] by blast
  then show ?thesis
  proof cases
    case 2
    have rec: "\<exists>grp m. map_get (env_conversations e) (pm_groupId mat) = Some grp
            \<and> \<not> cv_left grp \<and> m \<in> set (cv_members grp) \<and> mb_serviceId m = Some s \<and> \<not> mb_isMe m
            \<and> (sent_key e mat s \<notin> set (sentTo p) \<or> joined (pm_groupId mat) s = Some False)"
      if "s \<in> set ?r" for s
      using that unfolding set_bundle_recipients
      by (auto simp: needs_bundle_def Let_def split: if_splits)
    have "fst ` set out = set ?r" using 2(1) by force
    with rec show ?thesis using 2 by (auto simp: send_bundles_sentTo)
  qed simp
qed

definition demo_mat :: PhantomMaterial where
  "demo_mat = the (deserialize demo_env (wire_bundle demo_wire))"

lemma demo_mat_fields: "pm_groupId demo_mat = ''G''" "pm_distributionId demo_mat = ''d''"
  unfolding demo_mat_def by code_simp+

theorem bundle_goes_to_members_only_witness:
  "\<exists>out q. distributeOne demo_env (\<lambda>_ _. None) (\<lambda>_. True)
        (demo_mat, json_stringify (bundle_to_json (wire_bundle demo_wire)))
        (demo_start\<lparr>ph_chains := [(''d'', ''chain'')]\<rparr>) = (Some out, q)
     \<and> map fst out = [''alice''] \<and> sent_key demo_env demo_mat ''alice'' \<in> set (sentTo q)"
proof -
  let ?p = "demo_start\<lparr>ph_chains := [(''d'', ''chain'')]\<rparr>"
  let ?j = "json_stringify (bundle_to_json (wire_bundle demo_wire))"
  have r: "bundle_recipients demo_env (\<lambda>_ _. None) demo_mat ?p = [''alice'']"
    by (simp add: bundle_recipients_def demo_mat_fields demo_env_def map_get_def needs_bundle_def sentTo_def
        demo_start_def phantom_boot_def items0_def map_set_def map_keys_def)
  have c: "readCurrentChainRecord demo_env ?p demo_mat = Some ''chain''"
    by (simp add: readCurrentChainRecord_def demo_env_def demo_mat_fields map_get_def)
  let ?out = "[(''alice'', bundle_body demo_mat (wire_bundle demo_wire) ''chain'')]"
  have d: "distributeOne demo_env (\<lambda>_ _. None) (\<lambda>_. True) (demo_mat, ?j) ?p
      = (Some ?out, send_bundles demo_env demo_mat (\<lambda>_. True) [''alice''] ?p)"
    by (simp add: distributeOne_def r c wire_bundle_roundtrip [OF demo_wire_ok] del: json_stringify.simps)
  have "sent_key demo_env demo_mat ''alice'' \<in> set (sentTo (send_bundles demo_env demo_mat (\<lambda>_. True) [''alice''] ?p))"
    using bundle_goes_to_members_only [OF d] by auto
  moreover have "map fst ?out = [''alice'']" by simp
  ultimately show ?thesis
    by (intro exI [of _ ?out] exI [of _ "send_bundles demo_env demo_mat (\<lambda>_. True) [''alice''] ?p"] conjI d)
qed

text \<open>An unreadable pending bundle also keeps the sweep from distributing bundles at all.\<close>
lemma unreadable_pending_bundle_blocks_distribution:
  assumes "fst (retryPendingBundles e p) = False"
  shows "fst (sweep e joined sendOk p) = []"
  using assms by (cases "retryPendingBundles e p") (simp add: sweep_def split: bool.split)

end
