(* ===== verification/Registry.thy ===== *)
theory Registry
  imports JsText
begin

text \<open>
  \<^verbatim>\<open>ts/services/personasRegistry.std.ts\<close>: the map from envelope hashes to message ids, and
  the timestamps own records are placed by.  The clock (\<^verbatim>\<open>Date.now()\<close>) is an argument of
  \<open>stampOwnRecord\<close>.  Shown: stamps increase strictly whatever the clock does, and the stamp a
  record was placed by is handed to the send path exactly once.
\<close>

record registry =
  messageIdByEh :: "(string, string) jsmap"
  ownRecordSentAt :: "(string, int) jsmap"
  lastOwnSentAt :: int

definition registry0 :: registry where
  "registry0 = \<lparr>messageIdByEh = [], ownRecordSentAt = [], lastOwnSentAt = 0\<rparr>"

definition trackPersonaPost :: "string \<Rightarrow> string \<Rightarrow> registry \<Rightarrow> registry" where
  "trackPersonaPost eh messageId r =
     (if eh = [] \<or> messageId = [] then r
      else r\<lparr>messageIdByEh := map_set (messageIdByEh r) eh messageId\<rparr>)"

definition getTrackedPersonaPosts :: "registry \<Rightarrow> (string, string) jsmap" where
  "getTrackedPersonaPosts r = messageIdByEh r"

definition stampOwnRecord :: "int \<Rightarrow> string \<Rightarrow> registry \<Rightarrow> int \<times> registry" where
  "stampOwnRecord now rec r =
     (let sentAt = max now (lastOwnSentAt r + 1) in
      (sentAt, r\<lparr>lastOwnSentAt := sentAt, ownRecordSentAt := map_set (ownRecordSentAt r) rec sentAt\<rparr>))"

definition takeOwnRecordSentAt :: "string option \<Rightarrow> registry \<Rightarrow> int option \<times> registry" where
  "takeOwnRecordSentAt rec0 r =
     (case rec0 of
        None \<Rightarrow> (None, r)
      | Some rec \<Rightarrow>
          (if rec = [] then (None, r)
           else (map_get (ownRecordSentAt r) rec,
                 r\<lparr>ownRecordSentAt := map_del (ownRecordSentAt r) rec\<rparr>)))"

lemmas registry_defs [step_defs] =
  trackPersonaPost_def stampOwnRecord_def takeOwnRecordSentAt_def

text \<open>A run of stamps: clock readings and records, in the order they are emitted.\<close>

fun stamps :: "(int \<times> string) list \<Rightarrow> registry \<Rightarrow> int list \<times> registry" where
  "stamps [] r = ([], r)"
| "stamps ((now, rec) # xs) r =
     (let (t, r1) = stampOwnRecord now rec r; (ts, r2) = stamps xs r1 in (t # ts, r2))"

definition registry_inv :: "registry \<Rightarrow> bool" where
  "registry_inv r =
     (map_wf (messageIdByEh r) \<and> map_wf (ownRecordSentAt r)
      \<and> (\<forall>kv \<in> set (ownRecordSentAt r). snd kv \<le> lastOwnSentAt r)
      \<and> (\<forall>kv \<in> set (messageIdByEh r). fst kv \<noteq> [] \<and> snd kv \<noteq> []))"

lemma registry_inv_ops:
  "registry_inv registry0"
  "registry_inv r \<Longrightarrow> registry_inv (trackPersonaPost eh i r)"
  "registry_inv r \<Longrightarrow> registry_inv (snd (stampOwnRecord now rec r))"
  "registry_inv r \<Longrightarrow> registry_inv (snd (takeOwnRecordSentAt q r))"
  by (auto simp: registry_inv_def registry0_def registry_defs Let_def
           split: option.split dest!: map_set_entries map_del_entries)

lemma stamp_increases: "lastOwnSentAt r < fst (stampOwnRecord now rec r)"
  and stamp_last: "lastOwnSentAt (snd (stampOwnRecord now rec r)) = fst (stampOwnRecord now rec r)"
  and stamp_ge_now: "now \<le> fst (stampOwnRecord now rec r)"
  by (simp_all add: stampOwnRecord_def Let_def)

lemma stamps_sorted:
  "stamps xs r = (ts, r') \<Longrightarrow> sorted_wrt (<) (lastOwnSentAt r # ts)"
proof (induction xs arbitrary: r ts)
  case (Cons x xs)
  obtain now rec where x: "x = (now, rec)" by (cases x)
  obtain t r1 where s: "stampOwnRecord now rec r = (t, r1)" by (cases "stampOwnRecord now rec r")
  with Cons.prems x obtain ts' where ts: "stamps xs r1 = (ts', r')" "ts = t # ts'"
    by (auto split: prod.splits)
  have "lastOwnSentAt r < t" "lastOwnSentAt r1 = t"
    using stamp_increases [of r now rec] stamp_last [of now rec r] s by simp_all
  with Cons.IH [OF ts(1)] ts(2) show ?case by auto
qed simp

text \<open>C33. However the local clock behaves (it may stand still or jump back), the timestamps given
  to own records in one process are strictly increasing and never earlier than the clock, so no
  two records share a Signal timestamp.\<close>
theorem own_timestamps_strictly_increase:
  "sorted_wrt (<) (fst (stamps xs r)) \<and> list_all2 (\<lambda>x t. fst x \<le> t) xs (fst (stamps xs r))"
proof
  obtain ts r' where "stamps xs r = (ts, r')" by (cases "stamps xs r")
  then show "sorted_wrt (<) (fst (stamps xs r))" using stamps_sorted [of xs r] by simp
  show "list_all2 (\<lambda>x t. fst x \<le> t) xs (fst (stamps xs r))"
  proof (induction xs r rule: stamps.induct)
    case (2 now rec xs r)
    then show ?case using stamp_ge_now [of now rec r] by (auto split: prod.split)
  qed simp
qed

text \<open>The send path reads back exactly the timestamp a record was placed by, and only once: a
  second read finds nothing, and records in between do not disturb it.\<close>

theorem own_timestamp_taken_once:
  assumes "rec \<noteq> []" and "rec \<notin> snd ` set later"
  shows "let (t, r1) = stampOwnRecord now rec r;
             (got, r3) = takeOwnRecordSentAt (Some rec) (snd (stamps later r1))
         in got = Some t \<and> fst (takeOwnRecordSentAt (Some rec) r3) = None"
proof -
  have keep: "map_get (ownRecordSentAt (snd (stamps later r1))) rec = map_get (ownRecordSentAt r1) rec" for r1
    using assms(2)
  proof (induction later r1 rule: stamps.induct)
    case (2 n k xs r1)
    then show ?case by (auto simp: stampOwnRecord_def Let_def split: prod.split)
  qed simp
  show ?thesis
    using assms(1) keep by (simp add: takeOwnRecordSentAt_def stampOwnRecord_def Let_def)
qed

theorem own_timestamp_taken_once_witness:
  "let (t, r1) = stampOwnRecord 1000 ''AAAA'' registry0;
       (got, r3) = takeOwnRecordSentAt (Some ''AAAA'') (snd (stamps [(900, ''BBBB'')] r1))
   in got = Some t \<and> fst (takeOwnRecordSentAt (Some ''AAAA'') r3) = None"
  by (rule own_timestamp_taken_once) simp_all

end
