(* ===== verification/Barrier.thy ===== *)
theory Barrier
  imports Phantom Registry
begin

text \<open>
  \<^verbatim>\<open>ts/services/personasBarrier.preload.ts\<close>: the barrier schedule of a group, the timestamp a
  record is placed by, and the ticker that nudges a quiet replica forward.  Times are whole
  milliseconds; a timestamp that is \<^verbatim>\<open>null\<close> or \<^verbatim>\<open>undefined\<close> is \<open>None\<close>.
\<close>

definition TICK_INTERVAL_MS :: int where "TICK_INTERVAL_MS = 1000"
definition MAX_SENT_AT_SKEW_MS :: int where "MAX_SENT_AT_SKEW_MS = 60000"

record BarrierSchedule =
  bs_anchorMs :: "json option"
  bs_periodMs :: "json option"

definition getBarrierSchedule :: "phantom \<Rightarrow> string option \<Rightarrow> BarrierSchedule option" where
  "getBarrierSchedule p g =
     (let fromBundle = getPhantomSchedule p g in
      if js_truthy fromBundle
      then Some \<lparr>bs_anchorMs = jget (the fromBundle) ''anchorMs'', bs_periodMs = jget (the fromBundle) ''periodMs''\<rparr>
      else None)"

definition recordTimestamp :: "int option \<Rightarrow> int option \<Rightarrow> int" where
  "recordTimestamp sentAtMs serverTimestampMs =
     (case sentAtMs of
        Some sent \<Rightarrow>
          (if sent > 0
              \<and> (case serverTimestampMs of
                   None \<Rightarrow> True
                 | Some server \<Rightarrow> server \<le> 0 \<or> \<bar>sent - server\<bar> \<le> MAX_SENT_AT_SKEW_MS)
           then sent
           else (case serverTimestampMs of None \<Rightarrow> 0 | Some server \<Rightarrow> server))
      | None \<Rightarrow> (case serverTimestampMs of None \<Rightarrow> 0 | Some server \<Rightarrow> server))"

definition ingestTimestampFor :: "phantom \<Rightarrow> int \<Rightarrow> string option \<Rightarrow> int option \<Rightarrow> int" where
  "ingestTimestampFor p now g timestampMs =
     (if getBarrierSchedule p g = None then 0
      else (case timestampMs of Some t \<Rightarrow> if t > 0 then t else now | None \<Rightarrow> now))"

text \<open>The tickers: the barrier each last reported.  \<open>advance\<close> gives the barrier reached, nothing,
  or throws (\<open>Inl\<close>), which is logged.\<close>

type_synonym tickers = "(string, int) jsmap"

definition startBarrierTicker :: "phantom \<Rightarrow> string \<Rightarrow> tickers \<Rightarrow> tickers" where
  "startBarrierTicker p groupId ts =
     (if map_has ts groupId \<or> getBarrierSchedule p (Some groupId) = None then ts
      else map_set ts groupId (-1))"

definition ticker_fires :: "(int \<Rightarrow> string + int option) \<Rightarrow> int \<Rightarrow> string \<Rightarrow> tickers \<Rightarrow> tickers" where
  "ticker_fires advance now groupId ts =
     (case map_get ts groupId of
        None \<Rightarrow> ts
      | Some prev \<Rightarrow>
          (case advance now of
             Inl _ \<Rightarrow> ts
           | Inr None \<Rightarrow> ts
           | Inr (Some barrier) \<Rightarrow> if barrier \<noteq> prev then map_set ts groupId barrier else ts))"

section \<open>Properties\<close>

lemma recordTimestamp_sent:
  "0 < sent \<Longrightarrow> \<bar>sent - server\<bar> \<le> MAX_SENT_AT_SKEW_MS \<Longrightarrow> recordTimestamp (Some sent) (Some server) = sent"
  by (simp add: recordTimestamp_def)


definition demo_group :: phantom where
  "demo_group = demo_start\<lparr>ph_held := [(''G'', the (deserialize demo_env (wire_bundle demo_wire)), [])]\<rparr>"


text \<open>C37. No client can be pushed far from the server's clock: with a server time the placement is
  within one minute of it, whatever timestamp the sender claims.\<close>
theorem placement_within_skew:
  assumes "0 < server"
  shows "\<bar>recordTimestamp sent (Some server) - server\<bar> \<le> MAX_SENT_AT_SKEW_MS"
  using assms by (auto simp: recordTimestamp_def MAX_SENT_AT_SKEW_MS_def split: option.splits)

theorem placement_within_skew_witness:
  "\<bar>recordTimestamp (Some 900000) (Some 5000) - 5000\<bar> \<le> MAX_SENT_AT_SKEW_MS"
  using placement_within_skew [of 5000 "Some 900000"] by simp

text \<open>A ticker is started once per group and only on a schedule; a tick reports each barrier once.\<close>

lemma ticker_started_once:
  "startBarrierTicker p g (startBarrierTicker p g ts) = startBarrierTicker p g ts"
  by (simp add: startBarrierTicker_def map_has_get)

lemma ticker_needs_schedule:
  "map_has (startBarrierTicker p g ts) g \<longleftrightarrow> map_has ts g \<or> getBarrierSchedule p (Some g) \<noteq> None"
  by (simp add: startBarrierTicker_def map_has_get)

lemma ticker_fires_idem:
  "ticker_fires a now g (ticker_fires a now g ts) = ticker_fires a now g ts"
  by (simp add: ticker_fires_def split: option.split sum.split)

end
