(* ===== verification/Composer.thy ===== *)
theory Composer
  imports Carriage
begin

text \<open>
  The small rules beside the composer: \<^verbatim>\<open>ts/services/personasComposerChoice.std.ts\<close> (which
  identity a message is sent under), \<^verbatim>\<open>ts/services/personasBadges.std.ts\<close> (the badge labels)
  and \<^verbatim>\<open>ts/util/personaRendersWithoutBody.std.ts\<close> (which messages are shown without a body).
\<close>

definition DEFAULT_RATE_INDEX :: int where "DEFAULT_RATE_INDEX = 0"

definition personaValueToChoice :: "string \<Rightarrow> rat option \<Rightarrow> PersonaChoice option" where
  "personaValueToChoice value topicContext =
     (if value = ''off'' then None
      else
        (case topicContext of
           Some context \<Rightarrow>
             (let parsed = (if starts_with value ''rate:'' then js_Number (drop (length ''rate:'') value)
                            else js_int DEFAULT_RATE_INDEX)
              in Some (RateChoice context
                   (if is_integer parsed \<and> int_of parsed \<ge> 0 then int_of parsed else DEFAULT_RATE_INDEX)))
         | None \<Rightarrow>
             (if starts_with value ''pseudo:'' then
                (case js_Number (drop (length ''pseudo:'') value) of
                   Fin nonce \<Rightarrow> Some (PseudoChoice nonce)
                 | _ \<Rightarrow> None)
              else if value = ''anon'' then Some AnonChoice
              else None)))"

definition BADGE_LABELS :: "string list" where
  "BADGE_LABELS = [''Faculty'', ''Student'', ''Industry'']"

definition isPersonaBadge :: "json option \<Rightarrow> bool" where
  "isPersonaBadge v = (case v of Some (JStr s) \<Rightarrow> s \<in> set BADGE_LABELS | _ \<Rightarrow> False)"

text \<open>A message's attributes, as far as the rule reads them: the present (non-null) fields.\<close>

definition PERSONA_BODILESS_FIELDS :: "string list" where
  "PERSONA_BODILESS_FIELDS =
     [''personaPoll'', ''personaAuthorship'', ''personaBadgeNotice'', ''personaBadgeProof'']"

definition personaRendersWithoutBody :: "(string \<Rightarrow> 'a option) \<Rightarrow> bool" where
  "personaRendersWithoutBody attributes = list_ex (\<lambda>field. attributes field \<noteq> None) PERSONA_BODILESS_FIELDS"

section \<open>Properties\<close>

lemma drop_pseudo: "drop (length ''pseudo:'') (''pseudo:'' @ s) = s"
  by simp

lemma show_int_neq_off: "''pseudo:'' @ s \<noteq> ''off''" "''rate:'' @ s \<noteq> ''off''"
  by simp_all

text \<open>The context rule of the composer.  'off' is never turned into an anonymous post; with a
  context selected every other value gives a rate-limited persona of exactly that context, with a
  non-negative index; without one, a rate-limited persona is never produced.\<close>

theorem composer_context_rule:
  "personaValueToChoice ''off'' topic = None
   \<and> (v \<noteq> ''off'' \<longrightarrow> (\<exists>i \<ge> 0. personaValueToChoice v (Some c) = Some (RateChoice c i)))
   \<and> (\<forall>c' i. personaValueToChoice v None \<noteq> Some (RateChoice c' i))"
  by (auto simp: personaValueToChoice_def DEFAULT_RATE_INDEX_def Let_def split: jsnum.split)

theorem composer_context_rule_witness:
  "personaValueToChoice ''off'' (Some 7) = None
   \<and> (\<exists>i \<ge> 0. personaValueToChoice ''anon'' (Some 7) = Some (RateChoice 7 i))"
  using composer_context_rule [of "Some 7" "''anon''" 7] by simp

text \<open>What the picker shows is what is sent: picking pseudonym \<open>n\<close> posts under nonce \<open>n\<close>, and
  picking rate index \<open>i\<close> in a context posts under index \<open>i\<close> of that context.\<close>

theorem composer_choice_faithful:
  assumes "0 \<le> n" and "n \<le> max_safe"
  shows "personaValueToChoice (''pseudo:'' @ show_int n) None = Some (PseudoChoice (of_int n))
    \<and> personaValueToChoice (''rate:'' @ show_int n) (Some c) = Some (RateChoice c n)"
proof -
  have n: "js_Number (show_int n) = js_int n" using assms by (simp add: js_Number_show_int)
  have "starts_with (''pseudo:'' @ show_int n) ''pseudo:''" "starts_with (''rate:'' @ show_int n) ''rate:''"
    by (rule starts_with_append)+
  with n assms show ?thesis
    unfolding personaValueToChoice_def
    by (simp add: Let_def) (simp add: js_int_def)
qed

theorem composer_choice_faithful_witness:
  "personaValueToChoice (''pseudo:'' @ show_int 42) None = Some (PseudoChoice 42)"
  using composer_choice_faithful [of 42] by (simp add: max_safe_def)

end
