(* ===== verification/BadgeRules.thy ===== *)
theory BadgeRules
  imports Composer
begin

text \<open>
  \<^verbatim>\<open>ts/services/personasBadgeRules.std.ts\<close>: the badge catalogue, which badges may be held
  together, and the slot in a replica log body.  Shown: the blocked-reason test is exactly the
  exclusion rule, granting only unblocked badges never leads to an excluded pair, and the slot
  is read out of both log shapes, whatever hash follows it.
\<close>

record badge_entry =
  be_slot :: int
  be_name :: string

definition BADGE_CATALOGUE :: "badge_entry list" where
  "BADGE_CATALOGUE =
     [\<lparr>be_slot = 1, be_name = ''Faculty''\<rparr>, \<lparr>be_slot = 2, be_name = ''Student''\<rparr>,
      \<lparr>be_slot = 3, be_name = ''Industry''\<rparr>]"

definition EXCLUSIVE_PAIRS :: "(string \<times> string) list" where
  "EXCLUSIVE_PAIRS = [(''Faculty'', ''Student'')]"

definition badgeNameForSlot :: "int \<Rightarrow> string" where
  "badgeNameForSlot slot =
     (case List.find (\<lambda>b. be_slot b = slot) BADGE_CATALOGUE of
        Some b \<Rightarrow> be_name b
      | None \<Rightarrow> ''slot '' @ show_int slot)"

definition badgeSlotForName :: "string \<Rightarrow> int option" where
  "badgeSlotForName name = map_option be_slot (List.find (\<lambda>b. be_name b = name) BADGE_CATALOGUE)"

definition other_of :: "string \<Rightarrow> string \<times> string \<Rightarrow> string option" where
  "other_of candidate p =
     (if candidate = fst p then Some (snd p) else if candidate = snd p then Some (fst p) else None)"

fun exclusive_reason :: "string \<Rightarrow> string list \<Rightarrow> (string \<times> string) list \<Rightarrow> string option" where
  "exclusive_reason candidate held [] = None"
| "exclusive_reason candidate held (p # ps) =
     (case other_of candidate p of
        Some other \<Rightarrow>
          (if other \<in> set held
           then Some (candidate @ '' cannot be held with '' @ other @
                  '', which you already have. An approval would be recorded and then silently have no effect.'')
           else exclusive_reason candidate held ps)
      | None \<Rightarrow> exclusive_reason candidate held ps)"

definition badgeBlockedReason :: "string \<Rightarrow> string list \<Rightarrow> string option" where
  "badgeBlockedReason candidate held =
     (if candidate \<in> set held then Some (''You already hold '' @ candidate @ ''.'')
      else exclusive_reason candidate held EXCLUSIVE_PAIRS)"

text \<open>The first match of \<^verbatim>\<open>/badge slot (\d+)/\<close>: its digits.\<close>

fun match_slot :: "string \<Rightarrow> string option" where
  "match_slot [] = None"
| "match_slot (c # cs) =
     (let ds = takeWhile is_digit (drop (length ''badge slot '') (c # cs)) in
      if starts_with (c # cs) ''badge slot '' \<and> ds \<noteq> [] then Some ds else match_slot cs)"

definition badgeSlotFromLogBody :: "string \<Rightarrow> int option" where
  "badgeSlotFromLogBody body =
     (case match_slot body of
        None \<Rightarrow> None
      | Some ds \<Rightarrow>
          (let slot = js_Number ds in
           if list_ex (\<lambda>b. js_int (be_slot b) = slot) BADGE_CATALOGUE then Some (int_of slot) else None))"

definition requestableBadges :: "string list \<Rightarrow> (int \<times> string \<times> string option) list" where
  "requestableBadges held =
     map (\<lambda>b. (be_slot b, be_name b, badgeBlockedReason (be_name b) held)) BADGE_CATALOGUE"

section \<open>The exclusion rule\<close>

definition excluded :: "string \<Rightarrow> string \<Rightarrow> bool" where
  "excluded a b = ((a, b) \<in> set EXCLUSIVE_PAIRS \<or> (b, a) \<in> set EXCLUSIVE_PAIRS)"

lemma exclusive_reason_None:
  "exclusive_reason c held ps = None \<longleftrightarrow> (\<forall>p \<in> set ps. \<forall>o'. other_of c p = Some o' \<longrightarrow> o' \<notin> set held)"
  by (induction c held ps rule: exclusive_reason.induct) (auto split: option.splits)

lemma badgeBlockedReason_None:
  "badgeBlockedReason c held = None \<longleftrightarrow> c \<notin> set held \<and> (\<forall>b \<in> set held. \<not> excluded c b)"
  by (auto simp: badgeBlockedReason_def exclusive_reason_None excluded_def EXCLUSIVE_PAIRS_def other_of_def
      split: if_splits)

text \<open>A member's badges: each grant goes through only when nothing blocks it.\<close>

definition grant :: "string list \<Rightarrow> string \<Rightarrow> string list" where
  "grant held c = (if badgeBlockedReason c held = None then held @ [c] else held)"

definition compatible :: "string list \<Rightarrow> bool" where
  "compatible held = (distinct held \<and> (\<forall>a \<in> set held. \<forall>b \<in> set held. \<not> excluded a b))"

lemma excluded_sym: "excluded a b = excluded b a"
  by (auto simp: excluded_def)

lemma excluded_irrefl: "\<not> excluded a a"
  by (auto simp: excluded_def EXCLUSIVE_PAIRS_def)

lemma compatible_Nil: "compatible []"
  by (simp add: compatible_def)

lemma grant_compatible: "compatible held \<Longrightarrow> compatible (grant held c)"
  by (auto simp: grant_def compatible_def badgeBlockedReason_None excluded_irrefl
           dest: excluded_sym [THEN iffD1])

section \<open>Log bodies\<close>

lemma match_slot_skip:
  assumes "\<And>p q. xs = p @ q \<Longrightarrow> q \<noteq> [] \<Longrightarrow> \<not> starts_with (q @ ys) ''badge slot ''"
  shows "match_slot (xs @ ys) = match_slot ys"
  using assms
proof (induction xs)
  case (Cons x xs)
  have "\<not> starts_with (x # xs @ ys) ''badge slot ''" using Cons.prems [of "[]" "x # xs"] by simp
  moreover have "match_slot (xs @ ys) = match_slot ys"
    using Cons.prems by (intro Cons.IH) (metis append_Cons)
  ultimately show ?case by simp
qed simp

lemma match_slot_here:
  assumes "\<forall>c \<in> set ds. is_digit c" and "ds \<noteq> []" and "rest = [] \<or> \<not> is_digit (hd rest)"
  shows "match_slot (''badge slot '' @ ds @ rest) = Some ds"
proof -
  have "takeWhile is_digit (ds @ rest) = ds"
    using assms by (cases rest) (auto simp: takeWhile_append)
  moreover have "starts_with (''badge slot '' @ ds @ rest) ''badge slot ''" by (rule starts_with_append)
  ultimately show ?thesis using assms(2) by simp
qed

lemma match_slot_prefixed:
  assumes "w \<in> {''requested '', ''approved ''}"
    and "\<forall>c \<in> set ds. is_digit c" and "ds \<noteq> []" and "rest = [] \<or> \<not> is_digit (hd rest)"
  shows "match_slot (w @ ''badge slot '' @ ds @ rest) = Some ds"
  using assms(1) match_slot_here [OF assms(2-4)] by (auto simp: starts_with_def Let_def)

lemma slot_text: "n \<in> {1, 2, 3} \<Longrightarrow> (\<forall>c \<in> set (show_int n). is_digit c) \<and> show_int n \<noteq> [] \<and> js_Number (show_int n) = js_int n"
  using show_nat_digits [of _ "nat n"] by (auto simp: show_int_def js_Number_show_nat max_safe_def)

section \<open>Properties\<close>

text \<open>A badge is blocked exactly when it is already held or excluded by one that is held.\<close>

theorem badge_blocked_iff:
  "badgeBlockedReason c held \<noteq> None \<longleftrightarrow> c \<in> set held \<or> (\<exists>b \<in> set held. excluded c b)"
  by (simp add: badgeBlockedReason_None)

text \<open>However badges are requested, granting only those with no blocked reason never leads to
  a badge held twice or to a member who holds both Faculty and Student.\<close>

theorem grants_stay_exclusive:
  "compatible (fold (\<lambda>c held. grant held c) requests []) \<and>
   \<not> {''Faculty'', ''Student''} \<subseteq> set (fold (\<lambda>c held. grant held c) requests [])"
proof -
  have "compatible (fold (\<lambda>c held. grant held c) requests held)" if "compatible held" for held
    using that by (induction requests arbitrary: held) (auto intro: grant_compatible)
  then have "compatible (fold (\<lambda>c held. grant held c) requests [])"
    by (meson compatible_Nil)
  then show ?thesis by (auto simp: compatible_def excluded_def EXCLUSIVE_PAIRS_def)
qed

text \<open>The slot is read back from both shapes of log body, the request and the approval,
  whatever hash the approval ends with.\<close>

theorem badge_slot_from_log:
  assumes "n \<in> {1, 2, 3}"
  shows "badgeSlotFromLogBody (''requested badge slot '' @ show_int n) = Some n
    \<and> badgeSlotFromLogBody (''approved badge slot '' @ show_int n @ '' for '' @ eh) = Some n"
proof -
  have "match_slot (''requested '' @ ''badge slot '' @ show_int n @ []) = Some (show_int n)"
    "match_slot (''approved '' @ ''badge slot '' @ show_int n @ '' for '' @ eh) = Some (show_int n)"
    using slot_text [OF assms] by (intro match_slot_prefixed; simp add: is_digit_def code_of_def)+
  moreover have "list_ex (\<lambda>b. js_int (be_slot b) = js_int n) BADGE_CATALOGUE"
    using assms by (auto simp: BADGE_CATALOGUE_def)
  ultimately show ?thesis using slot_text [OF assms] by (simp add: badgeSlotFromLogBody_def)
qed

theorem badge_slot_from_log_witness:
  "badgeSlotFromLogBody (''approved badge slot '' @ show_int 2 @ '' for '' @ ''9f3a'') = Some 2"
  using badge_slot_from_log [of 2] by simp

text \<open>Slots and names of the catalogue translate into each other.\<close>
lemma badge_slot_name:
  "b \<in> set BADGE_CATALOGUE \<Longrightarrow>
     badgeNameForSlot (be_slot b) = be_name b \<and> badgeSlotForName (be_name b) = Some (be_slot b)
     \<and> be_name b \<in> set BADGE_LABELS"
  by (auto simp: BADGE_CATALOGUE_def badgeNameForSlot_def badgeSlotForName_def BADGE_LABELS_def)

end
