(* ===== verification/World.thy ===== *)
theory World
  imports Extras PhantomSend Barrier BadgeRules
begin

text \<open>
  The state the personas services share, and what they take from outside.

  The native addon \<^verbatim>\<open>@signalapp/personas-engine\<close> (interface:
  \<^verbatim>\<open>packages/personas-engine/index.d.ts\<close>) is the parameter record \<open>engine_ops\<close>: one field per
  method, over an abstract engine state \<open>'e\<close>, \<open>Inl\<close> where the method throws.  The \<^verbatim>\<open>emit*\<close> methods
  and \<^verbatim>\<open>commitScan\<close> are one field indexed by \<open>emit_request\<close>, as each produces a record and a new
  member state.  The cipher, the collation, and how file operations and sends turn out are the
  other fields of \<open>deps\<close>; an outcome is looked up under the counter \<open>w_step\<close>, which every use
  advances.

  \<open>world\<close> holds the variables of the modules; messages handed to Signal's send path are logged in
  \<open>w_out\<close> in order.
\<close>

section \<open>The engine's interface\<close>

record Emitted =
  em_bytes :: string
  em_eh :: string
  em_persona :: "string option"

datatype ingest_state = Applied | Buffered | Rejected

record IngestStatus =
  is_status :: ingest_state
  is_eh :: string

record LogEntry =
  le_eh :: string
  le_kind :: string
  le_author :: "string option"
  le_body :: string
  le_flagged :: bool

datatype claim_kind = ClaimJoin | ClaimRejoinApprove | ClaimBan

datatype emit_request =
    EmitJoin string
  | EmitRejoinApprove string
  | EmitBan string
  | EmitPostPseudo string rat
  | EmitPostAnon string
  | EmitPostPseudoRate string rat int
  | EmitPoll string "string list" poll_kind "string option"
  | EmitVote string int
  | EmitRate string int
  | EmitBadgeRequest int
  | EmitBadgeApprove string int
  | CommitScan

record engine_config =
  ec_dataDir :: string
  ec_schedule :: "BarrierSchedule option"
  ec_memberState :: "string option"
  ec_journalPath :: "string option"
  ec_viewChecks :: bool

record 'e engine_ops =
  eo_new :: "engine_config \<Rightarrow> string + 'e"
  eo_emit :: "emit_request \<Rightarrow> 'e \<Rightarrow> (string + Emitted) \<times> 'e"
  eo_ingest :: "string \<Rightarrow> int \<Rightarrow> 'e \<Rightarrow> (string + IngestStatus) \<times> 'e"
  eo_ingestRelayed :: "string \<Rightarrow> int \<Rightarrow> int \<Rightarrow> 'e \<Rightarrow> (string + IngestStatus) \<times> 'e"
  eo_exportMemberState :: "'e \<Rightarrow> string + string option"
  eo_takeRelays :: "'e \<Rightarrow> (int \<times> string) list \<times> 'e"
  eo_diverged :: "'e \<Rightarrow> bool"
  eo_logEntry :: "'e \<Rightarrow> string \<Rightarrow> LogEntry option"
  eo_recordKind :: "'e \<Rightarrow> string \<Rightarrow> string option"
  eo_recordAccountClaim :: "'e \<Rightarrow> string \<Rightarrow> (claim_kind \<times> string) option"
  eo_tick :: "int \<Rightarrow> 'e \<Rightarrow> (string + int option) \<times> 'e"
  eo_currentBarrier :: "'e \<Rightarrow> int"
  eo_memberOnBulletin :: "'e \<Rightarrow> bool"
  eo_joinCounts :: "'e \<Rightarrow> string \<Rightarrow> int \<times> int"
  eo_resetMember :: "'e \<Rightarrow> 'e"
  eo_exportCatchUp :: "'e \<Rightarrow> string"
  eo_importCatchUp :: "string \<Rightarrow> 'e \<Rightarrow> (string + int) \<times> 'e"
  eo_proveNotBanned :: "'e \<Rightarrow> string \<Rightarrow> string + string"
  eo_verifyNotBanned :: "'e \<Rightarrow> string \<Rightarrow> string + string option"
  eo_prepareScan :: "'e \<Rightarrow> (string + string) \<times> 'e"
  eo_scanStillValid :: "'e \<Rightarrow> bool"
  eo_discardScan :: "'e \<Rightarrow> 'e"
  eo_scanNeeded :: "'e \<Rightarrow> bool"
  eo_sweepRemaining :: "'e \<Rightarrow> int"
  eo_isScanning :: "'e \<Rightarrow> bool"
  eo_outstandingCallbacks :: "'e \<Rightarrow> int"
  eo_isBanned :: "'e \<Rightarrow> string + bool"
  eo_getBadges :: "'e \<Rightarrow> string + string list"
  eo_pendingBadgeRequests :: "'e \<Rightarrow> string + (string \<times> int) list"
  eo_emitBadgeProof :: "'e \<Rightarrow> string \<Rightarrow> string + string"
  eo_verifyBadgeProof :: "'e \<Rightarrow> string \<Rightarrow> string + string option"
  eo_emitAuthorship :: "'e \<Rightarrow> rat \<Rightarrow> rat \<Rightarrow> string + string"
  eo_verifyAuthorship :: "'e \<Rightarrow> string \<Rightarrow> string + (string \<times> string) option"

section \<open>State and dependencies\<close>

record 'e GroupRuntime =
  rt_engine :: "'e option"
  rt_constructionFailed :: bool

datatype JoinState = NotJoined | Joining | Joined

record GroupJoin =
  gj_state :: JoinState
  gj_inFlight :: bool

record Copy =
  cp_parts :: "string option list"
  cp_have :: int
  cp_chars :: nat

text \<open>A message handed to the send path: \<open>sm_wire\<close> is the body its data message carries.\<close>

record sent_message =
  sm_to :: string
  sm_wire :: "string option"
  sm_sentAt :: int
  sm_hidden :: bool
  sm_ok :: bool

text \<open>What \<^verbatim>\<open>enqueueMessageForSend\<close> is given, and the attributes of a message in the message cache
  (\<^verbatim>\<open>ts/model-types.d.ts\<close>), as far as personas use them.  A badge notice is: is it an approval, its
  envelope hash, its slot.\<close>

record outgoing =
  og_body :: "string option"
  og_persona :: "string option"
  og_personaEh :: "string option"
  og_personaAnonymous :: bool
  og_personaBadge :: "string option"
  og_personaContextName :: "string option"
  og_personaAuthorship :: "(string \<times> string) option"
  og_personaPoll :: "(PersonaPollDescriptor \<times> string option) option"
  og_personaBadgeNotice :: "(bool \<times> string \<times> int) option"
  og_personaBadgeProof :: "string option"
  og_personaRecordBase64 :: "string option"
  og_personaCarriageBody :: "string option"

record Message =
  msg_conversationId :: string
  msg_outgoing :: bool
  msg_body :: "string option"
  msg_persona :: "string option"
  msg_personaFlagged :: bool
  msg_personaEh :: "string option"
  msg_personaAnonymous :: bool
  msg_personaPending :: bool
  msg_personaBadge :: "string option"
  msg_personaContextName :: "string option"
  msg_personaAuthorship :: "(string \<times> string) option"
  msg_personaPoll :: "(PersonaPollDescriptor \<times> string option) option"
  msg_personaBadgeNotice :: "(bool \<times> string \<times> int) option"
  msg_personaBadgeProof :: "string option"
  msg_personaMyVote :: "int option"

text \<open>The selected badge: cached value, whether it was read, the file's text.\<close>

record badge_selection =
  bg_cached :: "string option"
  bg_loaded :: bool
  bg_file :: "string option"

record 'e world =
  w_env :: env
  w_step :: nat
  w_phantom :: phantom
  w_ps :: persistence
  w_registry :: registry
  w_tickers :: tickers
  w_topics :: topics
  w_pseudonyms :: pseudonyms
  w_catchUp :: catchups
  w_ownRequests :: own_requests
  w_received :: received
  w_runtimes :: "(string, 'e GroupRuntime) jsmap"
  w_keysReady :: bool
  w_persistenceReady :: bool
  w_joins :: "(string, GroupJoin) jsmap"
  w_answeredAt :: "(string, int) jsmap"
  w_copies :: "(string, Copy) jsmap"
  w_viewsDiverged :: "(string, bool) jsmap"
  w_warmed :: "string list"
  w_scanInFlight :: bool
  w_lastScanProofMs :: int
  w_dismissed :: "string list"
  w_badge :: badge_selection
  w_messages :: "(string, Message) jsmap"
  w_out :: "sent_message list"

record 'e deps =
  d_engine :: "'e engine_ops"
  d_aead :: aead
  d_le :: "string \<Rightarrow> string \<Rightarrow> bool"
  d_viewChecks :: bool
  d_pinnedKeys :: bool
  d_keysDir :: string
  d_save :: "nat \<Rightarrow> save_io"
  d_iv :: "nat \<Rightarrow> string"
  d_open :: "nat \<Rightarrow> open_io"
  d_rename :: "nat \<Rightarrow> bool"
  d_send :: "nat \<Rightarrow> bool"
  d_segment :: "string \<Rightarrow> string list"
  d_messageId :: "nat \<Rightarrow> string"
  d_proofMs :: "nat \<Rightarrow> int"
  d_late :: "nat \<Rightarrow> int"
  d_badgeDir :: bool
  d_badgeWrite :: "nat \<Rightarrow> bool"
  d_autoScan :: "string option"

definition bump :: "'e world \<Rightarrow> 'e world" where
  "bump w = w\<lparr>w_step := w_step w + 1\<rparr>"

text \<open>The lists registered with \<^verbatim>\<open>registerPersistedExtra\<close>.\<close>

definition world_extras :: "'e deps \<Rightarrow> int \<Rightarrow> 'e world extra list" where
  "world_extras d now =
     [\<lparr>ex_name = ''catchUp'', ex_snapshot = (\<lambda>w g. catchUp_snapshot (w_catchUp w) g),
       ex_restore = (\<lambda>g j w. w\<lparr>w_catchUp := catchUp_restore g j (w_catchUp w)\<rparr>)\<rparr>,
      \<lparr>ex_name = ''pseudonyms'', ex_snapshot = (\<lambda>w g. pseudonyms_snapshot (w_pseudonyms w) g),
       ex_restore = (\<lambda>g j w. w\<lparr>w_pseudonyms := pseudonyms_restore g j (w_pseudonyms w)\<rparr>)\<rparr>,
      \<lparr>ex_name = ''resetRequest'', ex_snapshot = (\<lambda>w g. resetRequest_snapshot (w_ownRequests w) g),
       ex_restore = (\<lambda>g j w. w\<lparr>w_ownRequests := resetRequest_restore g j (w_ownRequests w)\<rparr>)\<rparr>,
      \<lparr>ex_name = ''resetRequestsReceived'', ex_snapshot = (\<lambda>w g. received_snapshot (w_received w) g),
       ex_restore = (\<lambda>g j w. w\<lparr>w_received := received_restore now g j (w_received w)\<rparr>)\<rparr>,
      \<lparr>ex_name = ''topics'', ex_snapshot = (\<lambda>w g. topics_snapshot (d_le d) (w_topics w) g),
       ex_restore = (\<lambda>g j w. w\<lparr>w_topics := topics_restore g j (w_topics w)\<rparr>)\<rparr>]"

definition save_state :: "'e deps \<Rightarrow> string \<Rightarrow> string option \<Rightarrow> 'e world \<Rightarrow> save_result \<times> 'e world" where
  "save_state d g mem w =
     (let (r, ps) = savePersonasState (d_aead d) (world_extras d (env_now (w_env w))) w
                      (d_save d (w_step w)) (d_iv d (w_step w)) g mem (w_ps w)
      in (r, bump (w\<lparr>w_ps := ps\<rparr>)))"

definition extras_changed :: "'e deps \<Rightarrow> string option \<Rightarrow> 'e world \<Rightarrow> 'e world" where
  "extras_changed d g w =
     bump (w\<lparr>w_ps := personasExtrasChanged (d_aead d) (world_extras d (env_now (w_env w))) w
                      (d_save d (w_step w)) (d_iv d (w_step w)) g (w_ps w)\<rparr>)"

section \<open>Sending\<close>

text \<open>The body a message is sent with (\<^verbatim>\<open>sendNormalMessage\<close>): a post's record, a prepared carriage body,
  or the message's own text, cut to what fits in a message.\<close>

definition MAX_MESSAGE_BODY_BYTE_LENGTH :: nat where "MAX_MESSAGE_BODY_BYTE_LENGTH = 2048"

definition isBodyTooLong :: "string \<Rightarrow> bool" where
  "isBodyTooLong body = (length body > MAX_MESSAGE_BODY_BYTE_LENGTH)"

text \<open>\<^verbatim>\<open>unicodeSlice\<close>: whole graphemes while they end within the range.  The graphemes come from the
  platform's \<^verbatim>\<open>Intl.Segmenter\<close>.\<close>

fun slice_graphemes :: "nat \<Rightarrow> nat \<Rightarrow> string list \<Rightarrow> nat \<Rightarrow> string \<Rightarrow> string" where
  "slice_graphemes from till [] byteOffset result = result"
| "slice_graphemes from till (grapheme # rest) byteOffset result =
     (let byteOffset1 = byteOffset + length grapheme in
      if byteOffset < from then slice_graphemes from till rest byteOffset1 result
      else if byteOffset1 > till then result
      else slice_graphemes from till rest byteOffset1 (result @ grapheme))"

definition unicodeSlice :: "(string \<Rightarrow> string list) \<Rightarrow> string \<Rightarrow> nat \<Rightarrow> nat \<Rightarrow> string" where
  "unicodeSlice segment input from till =
     (if from = 0 \<and> till \<ge> length input then input
      else slice_graphemes from till (segment (utf16_take 50000000 input)) 0 [])"

definition trimBody :: "'e deps \<Rightarrow> string \<Rightarrow> string" where
  "trimBody d body =
     (let sliced = unicodeSlice (d_segment d) body 0 MAX_MESSAGE_BODY_BYTE_LENGTH in
      if sliced \<noteq> [] then sliced else [char_of (239::nat), char_of (191::nat), char_of (190::nat)])"

definition wire_body :: "'e deps \<Rightarrow> outgoing \<Rightarrow> string option" where
  "wire_body d og =
     (if truthy_str (og_personaRecordBase64 og)
      then Some (encodePostBody (b64_decode (the (og_personaRecordBase64 og))) (og_personaBadge og) (og_personaContextName og))
      else if truthy_str (og_personaCarriageBody og) then og_personaCarriageBody og
      else map_option (\<lambda>body. if isBodyTooLong body then trimBody d body else body) (og_body og))"

text \<open>The time a message is sent with: the caller's, else the one its record was placed by, else now.\<close>

definition stamp_key :: "outgoing \<Rightarrow> string option" where
  "stamp_key og =
     (case og_personaRecordBase64 og of
        Some b \<Rightarrow> Some b
      | None \<Rightarrow> map_option b64_encode (decodeRecordBody (og_body og)))"

definition send_time :: "int option \<Rightarrow> outgoing \<Rightarrow> int \<Rightarrow> registry \<Rightarrow> int \<times> registry" where
  "send_time timestamp og now r =
     (if timestamp \<noteq> None \<and> timestamp \<noteq> Some 0 then (the timestamp, r)
      else
        (case takeOwnRecordSentAt (stamp_key og) r of
           (Some t, r1) \<Rightarrow> (if t \<noteq> 0 then t else now, r1)
         | (None, r1) \<Rightarrow> (now, r1)))"

definition sent_copy :: "string \<Rightarrow> outgoing \<Rightarrow> Message" where
  "sent_copy to og =
     \<lparr>msg_conversationId = to, msg_outgoing = True, msg_body = og_body og, msg_persona = og_persona og,
      msg_personaFlagged = False, msg_personaEh = og_personaEh og, msg_personaAnonymous = og_personaAnonymous og,
      msg_personaPending = False, msg_personaBadge = og_personaBadge og, msg_personaContextName = og_personaContextName og,
      msg_personaAuthorship = og_personaAuthorship og, msg_personaPoll = og_personaPoll og,
      msg_personaBadgeNotice = og_personaBadgeNotice og, msg_personaBadgeProof = og_personaBadgeProof og,
      msg_personaMyVote = None\<rparr>"

definition enqueue :: "'e deps \<Rightarrow> string \<Rightarrow> outgoing \<Rightarrow> bool \<Rightarrow> int option \<Rightarrow> 'e world \<Rightarrow> bool \<times> 'e world" where
  "enqueue d to og hidden timestamp w =
     (let (sentAt, r) = send_time timestamp og (env_now (w_env w)) (w_registry w);
          mid = d_messageId d (w_step w);
          ok = d_send d (w_step w);
          r1 = (if og_personaEh og \<noteq> None \<and> og_personaRecordBase64 og \<noteq> None
                then trackPersonaPost (the (og_personaEh og)) mid r else r)
      in (ok, bump (w\<lparr>w_registry := r1,
                      w_messages := map_set (w_messages w) mid (sent_copy to og),
                      w_out := w_out w @ [\<lparr>sm_to = to, sm_wire = wire_body d og, sm_sentAt = sentAt, sm_hidden = hidden, sm_ok = ok\<rparr>]\<rparr>)))"

definition plain_out :: "string option \<Rightarrow> outgoing" where
  "plain_out body =
     \<lparr>og_body = body, og_persona = None, og_personaEh = None, og_personaAnonymous = False, og_personaBadge = None,
      og_personaContextName = None, og_personaAuthorship = None, og_personaPoll = None, og_personaBadgeNotice = None,
      og_personaBadgeProof = None, og_personaRecordBase64 = None, og_personaCarriageBody = None\<rparr>"

text \<open>A message that is only a body.\<close>

definition enqueueMessageForSend :: "'e deps \<Rightarrow> string \<Rightarrow> string \<Rightarrow> bool \<Rightarrow> 'e world \<Rightarrow> bool \<times> 'e world" where
  "enqueueMessageForSend d to body hidden w = enqueue d to (plain_out (Some body)) hidden None w"

definition conversation_of :: "'e world \<Rightarrow> string \<Rightarrow> conversation option" where
  "conversation_of w g = map_get (env_conversations (w_env w)) g"

definition isAdmin :: "conversation \<Rightarrow> string \<Rightarrow> bool" where
  "isAdmin c serviceId = (serviceId \<in> set (cv_admins c))"

definition engine_of :: "'e world \<Rightarrow> string \<Rightarrow> 'e option" where
  "engine_of w g = Option.bind (map_get (w_runtimes w) g) rt_engine"

definition put_engine :: "string \<Rightarrow> 'e \<Rightarrow> 'e world \<Rightarrow> 'e world" where
  "put_engine g e w =
     (case map_get (w_runtimes w) g of
        None \<Rightarrow> w
      | Some r \<Rightarrow> w\<lparr>w_runtimes := map_set (w_runtimes w) g (r\<lparr>rt_engine := Some e\<rparr>)\<rparr>)"

lemma engine_of_put:
  "map_has (w_runtimes w) g \<Longrightarrow> engine_of (put_engine g e w) g' = (if g' = g then Some e else engine_of w g')"
  by (auto simp: engine_of_def put_engine_def map_has_get split: option.split)

lemma world_extras_distinct [simp]: "distinct (map ex_name (world_extras d now))"
  by (simp add: world_extras_def)

lemma frame_out [simp]:
  "w_out (bump w) = w_out w" "w_out (snd (save_state d g m w)) = w_out w" "w_out (extras_changed d h w) = w_out w"
  "w_out (put_engine g e w) = w_out w"
  by (simp_all add: bump_def save_state_def extras_changed_def put_engine_def case_prod_unfold Let_def split: option.split)

lemma frame_runtimes [simp]:
  "w_runtimes (bump w) = w_runtimes w" "w_runtimes (snd (save_state d g m w)) = w_runtimes w"
  "w_runtimes (extras_changed d h w) = w_runtimes w"
  "w_runtimes (snd (enqueue d to og hid ts w)) = w_runtimes w"
  "w_runtimes (snd (enqueueMessageForSend d to body hid w)) = w_runtimes w"
  by (simp_all add: bump_def save_state_def extras_changed_def enqueueMessageForSend_def enqueue_def case_prod_unfold Let_def)

lemma frame_enqueue [simp]:
  "w_env (snd (enqueue d to og hid ts w)) = w_env w" "w_ps (snd (enqueue d to og hid ts w)) = w_ps w"
  "w_phantom (snd (enqueue d to og hid ts w)) = w_phantom w" "w_catchUp (snd (enqueue d to og hid ts w)) = w_catchUp w"
  "w_joins (snd (enqueue d to og hid ts w)) = w_joins w"
  "fst (enqueue d to og hid ts w) = d_send d (w_step w)"
  by (simp_all add: enqueue_def bump_def case_prod_unfold Let_def)

lemma enqueue_out:
  "w_out (snd (enqueue d to og hid ts w)) =
     w_out w @ [\<lparr>sm_to = to, sm_wire = wire_body d og,
                 sm_sentAt = fst (send_time ts og (env_now (w_env w)) (w_registry w)),
                 sm_hidden = hid, sm_ok = d_send d (w_step w)\<rparr>]"
  by (simp add: enqueue_def bump_def case_prod_unfold Let_def)

text \<open>Printable ASCII is cut by length, as \<^verbatim>\<open>Intl.Segmenter\<close> makes each of its characters a grapheme.\<close>

definition plain_text :: "string \<Rightarrow> bool" where
  "plain_text s = (\<forall>ch \<in> set s. 32 \<le> code_of ch \<and> code_of ch < 127)"

definition segments_plain_text :: "'e deps \<Rightarrow> bool" where
  "segments_plain_text d = (\<forall>s. plain_text s \<longrightarrow> d_segment d s = map (\<lambda>ch. [ch]) s)"

lemma plain_append [simp]: "plain_text (s @ t) \<longleftrightarrow> plain_text s \<and> plain_text t"
  by (auto simp: plain_text_def)

lemma plain_b64 [simp]: "plain_text (b64_encode bytes)"
  using b64_encode_alphabet [of _ bytes]
  by (fastforce simp: plain_text_def b64_val_def Let_def split: if_splits)

lemma utf16_take_plain: "plain_text s \<Longrightarrow> utf16_take n s = take n s"
  by (induction s arbitrary: n) (auto simp: plain_text_def utf16_units_def take_Cons split: nat.split)

lemma slice_plain: "off \<le> n \<Longrightarrow> slice_graphemes 0 n (map (\<lambda>ch. [ch]) s) off r = r @ take (n - off) s"
proof (induction s arbitrary: off r)
  case (Cons ch s)
  then show ?case by (cases "n - off") (auto simp: Let_def Suc_diff_Suc [symmetric])
qed simp

lemma unicodeSlice_plain:
  assumes "segments_plain_text d" and "plain_text s" and "n \<le> 50000000"
  shows "unicodeSlice (d_segment d) s 0 n = take n s"
proof -
  have "plain_text (take 50000000 s)" using assms(2) by (auto simp: plain_text_def dest: in_set_takeD)
  then have "d_segment d (utf16_take 50000000 s) = map (\<lambda>ch. [ch]) (take 50000000 s)"
    using assms(1,2) by (simp add: segments_plain_text_def utf16_take_plain)
  then show ?thesis using assms(3) slice_plain [of 0 n "take 50000000 s" "[]"] by (auto simp: unicodeSlice_def min_def)
qed

lemma trimmed_marker:
  assumes "segments_plain_text d" and "plain_text s" and "isBodyTooLong s"
  shows "trimBody d s = take 2048 s"
  using assms unicodeSlice_plain [OF assms(1,2), of 2048]
  by (auto simp: trimBody_def Let_def isBodyTooLong_def MAX_MESSAGE_BODY_BYTE_LENGTH_def)

lemma save_state_frame:
  "save_state d g m w = (r, w1) \<Longrightarrow>
     w_out w1 = w_out w \<and> w_runtimes w1 = w_runtimes w \<and> w_env w1 = w_env w \<and> w_phantom w1 = w_phantom w
     \<and> w_registry w1 = w_registry w"
  by (auto simp: save_state_def bump_def Let_def split: prod.splits)

lemma frame_engine [simp]:
  "engine_of (bump w) g = engine_of w g" "engine_of (snd (save_state d g' m w)) g = engine_of w g"
  "engine_of (extras_changed d h w) g = engine_of w g" "engine_of (snd (enqueue d to og hid ts w)) g = engine_of w g"
  by (simp_all add: engine_of_def)

lemma frame_storage [simp]:
  "ps_storage (w_ps (bump w)) = ps_storage (w_ps w)" "w_phantom (bump w) = w_phantom w"
  "w_env (bump w) = w_env w" "w_env (snd (save_state d g m w)) = w_env w"
  "w_phantom (snd (save_state d g m w)) = w_phantom w"
  by (simp_all add: bump_def save_state_def case_prod_unfold Let_def)

end
