(* ===== verification/Engine.thy ===== *)
theory Engine
  imports World
begin

text \<open>
  \<^verbatim>\<open>ts/services/personasEngine.preload.ts\<close>: one engine per personas group, built when first used;
  taking in records for the timeline; composing records and proofs to send.

  Every function takes the dependencies \<open>d\<close> and the world and returns the new world.  \<open>Inl\<close> is an
  exception that leaves the function.  The experiment log (\<^verbatim>\<open>personasBenchLog\<close>) only writes a
  trace and is left out.  Asynchronous sends are performed where they are started.

  Main facts: the member state a record produced is on disk before the record is handed to a
  caller (the ordering rule); an own record is taken in at the timestamp it will be sent with;
  only what the engine logged as a post is ever shown as one.
\<close>

definition isPersonasEngineEnabled :: "env \<Rightarrow> bool" where
  "isPersonasEngineEnabled e = (truthy_str (env_PERSONAS_AUTO_REGISTER e) \<or> truthy_str (env_PERSONAS_KEYS_DIR e))"

definition getKeysDir :: "'e deps \<Rightarrow> env \<Rightarrow> string" where
  "getKeysDir d e =
     (case env_PERSONAS_KEYS_DIR e of
        None \<Rightarrow> d_keysDir d
      | Some s \<Rightarrow> if trim s = [] then d_keysDir d else trim s)"

definition fresh_runtime :: "'e GroupRuntime" where
  "fresh_runtime = \<lparr>rt_engine = None, rt_constructionFailed = False\<rparr>"

definition runtimeFor :: "string \<Rightarrow> 'e world \<Rightarrow> 'e GroupRuntime \<times> 'e world" where
  "runtimeFor g w =
     (let (r, rs) = map_entry fresh_runtime (w_runtimes w) g in (r, w\<lparr>w_runtimes := rs\<rparr>))"

text \<open>What \<^verbatim>\<open>setPhantomJoinCheck\<close> registers.\<close>

definition join_check :: "'e deps \<Rightarrow> 'e world \<Rightarrow> string \<Rightarrow> string \<Rightarrow> bool option" where
  "join_check d w g serviceId =
     map_option (\<lambda>e. fst (eo_joinCounts (d_engine d) e (to_lower (no_dashes serviceId))) > 0) (engine_of w g)"

definition waits_for_engine :: "string option \<Rightarrow> 'e world \<Rightarrow> bool" where
  "waits_for_engine g w =
     (truthy_str g \<and> isPersonasEngineEnabled (w_env w) \<and> hasPhantomMaterial (w_phantom w) g
      \<and> (let r = fst (runtimeFor (the g) w) in rt_engine r = None \<and> \<not> rt_constructionFailed r))"

section \<open>Building an engine\<close>

definition initPersonasCatchUp :: "'e deps \<Rightarrow> string \<Rightarrow> bool \<Rightarrow> 'e world \<Rightarrow> 'e world" where
  "initPersonasCatchUp d g fresh w =
     (if saved_at (w_catchUp w) g \<noteq> None then w\<lparr>w_catchUp := snd (catchUpOf g (w_catchUp w))\<rparr>
      else extras_changed d (Some g)
             (w\<lparr>w_catchUp := set_saved g
                  \<lparr>sv_state = (if fresh then CatchUpNeeded else CatchUpDone), sv_requestedAt = None\<rparr> (w_catchUp w)\<rparr>))"

text \<open>The folder is opened and a saved member loaded, restoring the extras.\<close>

definition open_and_load :: "'e deps \<Rightarrow> string \<Rightarrow> 'e world \<Rightarrow> (string option \<times> string option) \<times> 'e world" where
  "open_and_load d g w =
     (case getPhantomBundleFingerprint (w_env w) (w_phantom w) (Some g) of
        None \<Rightarrow> ((None, None), w)
      | Some fp \<Rightarrow>
        (if fp = [] then ((None, None), w)
         else
           (case openPersonasGroupState (w_env w) (w_phantom w) (d_open d (w_step w)) g (fp @ ''-v3'') (w_ps w) of
              (None, ps) \<Rightarrow> ((None, None), bump (w\<lparr>w_ps := ps\<rparr>))
            | (Some journal, ps) \<Rightarrow>
                (case loadPersonasState (d_aead d) (world_extras d (env_now (w_env w))) (d_rename d (w_step w))
                        (env_now (w_env w)) g (w, ps) of
                   (m, w1, ps1) \<Rightarrow> ((Some journal, m), bump (w1\<lparr>w_ps := ps1\<rparr>))))))"

definition set_runtime :: "string \<Rightarrow> 'e GroupRuntime \<Rightarrow> 'e world \<Rightarrow> 'e world" where
  "set_runtime g r w = w\<lparr>w_runtimes := map_set (w_runtimes w) g r\<rparr>"

text \<open>After \<^verbatim>\<open>new Engine\<close>: a new member is saved before its join can be sent; \<open>False\<close> when that throws.\<close>

definition save_new_member :: "'e deps \<Rightarrow> string \<Rightarrow> 'e \<Rightarrow> 'e world \<Rightarrow> bool \<times> 'e world" where
  "save_new_member d g eng w =
     (case eo_exportMemberState (d_engine d) eng of
        Inl _ \<Rightarrow> (False, w)
      | Inr st \<Rightarrow> (case save_state d g st w of (Raised, w1) \<Rightarrow> (False, w1) | (_, w1) \<Rightarrow> (True, w1)))"

definition construct_engine :: "'e deps \<Rightarrow> string \<Rightarrow> 'e world \<Rightarrow> 'e world" where
  "construct_engine d g w0 =
     (case open_and_load d g w0 of
        ((journal, member), w) \<Rightarrow>
        (case eo_new (d_engine d)
                \<lparr>ec_dataDir = getKeysDir d (w_env w), ec_schedule = getBarrierSchedule (w_phantom w) (Some g),
                 ec_memberState = member, ec_journalPath = journal, ec_viewChecks = d_viewChecks d\<rparr> of
           Inl _ \<Rightarrow> set_runtime g \<lparr>rt_engine = None, rt_constructionFailed = True\<rparr> w
         | Inr eng \<Rightarrow>
             (let w1 = set_runtime g \<lparr>rt_engine = Some eng, rt_constructionFailed = False\<rparr> w;
                  (saved, w2) = (if member \<noteq> None then (True, w1) else save_new_member d g eng w1) in
              if \<not> saved then set_runtime g \<lparr>rt_engine = Some eng, rt_constructionFailed = True\<rparr> w2
              else
                (let w3 = initPersonasCatchUp d g (member = None) w2
                 in w3\<lparr>w_tickers := startBarrierTicker (w_phantom w3) g (w_tickers w3)\<rparr>))))"

definition getPersonasEngine :: "'e deps \<Rightarrow> string option \<Rightarrow> 'e world \<Rightarrow> 'e option \<times> 'e world" where
  "getPersonasEngine d g0 w0 =
     (if \<not> truthy_str g0 \<or> \<not> isPersonasEngineEnabled (w_env w0) then (None, w0)
      else
        (let g = the g0; (r, w) = runtimeFor g w0 in
         if rt_engine r \<noteq> None \<or> rt_constructionFailed r then (rt_engine r, w)
         else if \<not> hasPhantomMaterial (w_phantom w) g0 then (None, w)
         else if d_pinnedKeys d \<and> \<not> w_keysReady w then (None, w)
         else if \<not> w_persistenceReady w then (None, w)
         else (let w1 = construct_engine d g w in (engine_of w1 g, w1))))"

definition builtPersonasEngines :: "'e world \<Rightarrow> (string \<times> 'e) list" where
  "builtPersonasEngines w =
     List.map_filter (\<lambda>(g, r). map_option (\<lambda>e. (g, e)) (rt_engine r)) (w_runtimes w)"

text \<open>The background task of \<^verbatim>\<open>warmPersonasEngine\<close>: \<open>key\<close> is what the main process returns, \<open>keysOk\<close>
  whether the proving keys are in place; without them it is tried again later.\<close>

definition warmPersonasEngine :: "'e deps \<Rightarrow> string option \<Rightarrow> bool \<Rightarrow> string option \<Rightarrow> 'e world \<Rightarrow> 'e world" where
  "warmPersonasEngine d key keysOk g w =
     (if \<not> isPersonasEngineEnabled (w_env w) then w
      else
        (let w1 = w\<lparr>w_ps := initPersonasPersistence key (w_ps w), w_persistenceReady := True, w_keysReady := keysOk\<rparr> in
         if keysOk \<and> truthy_str g then snd (getPersonasEngine d g w1) else w1))"

section \<open>Taking in records\<close>

definition PENDING_POST_BODY :: string where
  "PENDING_POST_BODY = ''Verifying this post'' @ [char_of (226::nat), char_of (128::nat), char_of (166::nat)]"

definition appliedPost :: "'e deps \<Rightarrow> string option \<Rightarrow> string \<Rightarrow> 'e world \<Rightarrow> (string \<times> string option \<times> bool) option" where
  "appliedPost d g eh w =
     (if \<not> truthy_str g then None
      else
        (case Option.bind (engine_of w (the g)) (\<lambda>e. eo_logEntry (d_engine d) e eh) of
           None \<Rightarrow> None
         | Some entry \<Rightarrow>
             (if le_kind entry \<noteq> ''Post'' then None
              else Some (le_body entry, le_author entry, le_flagged entry))))"

datatype RecordIngestResult =
    NotRecord
  | Ingested
  | PostResult string "string option" string bool bool
  | PollResult string PersonaPollDescriptor
  | BadgeRequestResult string int
  | BadgeApproveResult string int

definition relay_out :: "'e deps \<Rightarrow> string \<Rightarrow> (int \<times> string) list \<Rightarrow> 'e world \<Rightarrow> 'e world" where
  "relay_out d g relays w =
     fold (\<lambda>(barrier, rec) w. snd (enqueueMessageForSend d g (encodeRelayBody barrier rec) True w)) relays w"

definition relayAndCheckViews :: "'e deps \<Rightarrow> string \<Rightarrow> 'e \<Rightarrow> 'e world \<Rightarrow> 'e world" where
  "relayAndCheckViews d g eng w =
     (let (relays, eng1) = eo_takeRelays (d_engine d) eng;
          w1 = put_engine g eng1 w;
          w2 = (if relays \<noteq> [] \<and> conversation_of w1 g \<noteq> None then relay_out d g relays w1 else w1)
      in w2\<lparr>w_viewsDiverged := map_set (w_viewsDiverged w2) g (eo_diverged (d_engine d) eng1)\<rparr>)"

definition describe :: "'e deps \<Rightarrow> 'e \<Rightarrow> string option \<Rightarrow> string \<Rightarrow> IngestStatus \<Rightarrow> RecordIngestResult" where
  "describe d eng body rec status =
     (case decodePollDescriptor body of
        Some descriptor \<Rightarrow> PollResult (is_eh status) descriptor
      | None \<Rightarrow>
        (if is_status status = Buffered \<and> eo_recordKind (d_engine d) eng rec = Some ''Post''
         then PostResult (is_eh status) None PENDING_POST_BODY False True
         else
           (case eo_logEntry (d_engine d) eng (is_eh status) of
              None \<Rightarrow> Ingested
            | Some entry \<Rightarrow>
                (if le_kind entry = ''BadgeRequest'' \<or> le_kind entry = ''BadgeApprove'' then
                   (case badgeSlotFromLogBody (le_body entry) of
                      None \<Rightarrow> Ingested
                    | Some slot \<Rightarrow>
                        (if le_kind entry = ''BadgeRequest'' then BadgeRequestResult (is_eh status) slot
                         else BadgeApproveResult (is_eh status) slot))
                 else if le_kind entry \<noteq> ''Post'' then Ingested
                 else PostResult (is_eh status) (le_author entry) (le_body entry) (le_flagged entry) False))))"

definition ingestRecordForTimeline :: "'e deps \<Rightarrow> string option \<Rightarrow> string option \<Rightarrow> int \<Rightarrow> 'e world \<Rightarrow>
    RecordIngestResult \<times> 'e world" where
  "ingestRecordForTimeline d g body ts w0 =
     (let relay = decodeRelayBody body in
      case (case relay of Some (_, rec) \<Rightarrow> Some rec | None \<Rightarrow> decodeRecordBody body) of
        None \<Rightarrow> (NotRecord, w0)
      | Some rec \<Rightarrow>
          (case getPersonasEngine d g w0 of
             (None, w) \<Rightarrow> (Ingested, w)
           | (Some eng, w) \<Rightarrow>
               (let receivedAt = ingestTimestampFor (w_phantom w) (env_now (w_env w)) g (Some ts) in
                case (case relay of
                        Some (barrier, _) \<Rightarrow> eo_ingestRelayed (d_engine d) rec barrier receivedAt eng
                      | None \<Rightarrow> eo_ingest (d_engine d) rec receivedAt eng) of
                  (Inl _, eng1) \<Rightarrow> (Ingested, put_engine (the g) eng1 w)
                | (Inr status, eng1) \<Rightarrow>
                    (let w1 = relayAndCheckViews d (the g) eng1 (put_engine (the g) eng1 w);
                         eng2 = (case engine_of w1 (the g) of Some x \<Rightarrow> x | None \<Rightarrow> eng1)
                     in (describe d eng2 body rec status, w1)))))"

section \<open>Composing records\<close>

definition persistAfterEmit :: "'e deps \<Rightarrow> string \<Rightarrow> 'e \<Rightarrow> 'e world \<Rightarrow> bool \<times> 'e world" where
  "persistAfterEmit d g eng w =
     (case eo_exportMemberState (d_engine d) eng of
        Inl _ \<Rightarrow> (False, w)
      | Inr st \<Rightarrow> (case save_state d g st w of (Saved, w1) \<Rightarrow> (True, w1) | (_, w1) \<Rightarrow> (False, w1)))"

definition selfIngest :: "'e deps \<Rightarrow> string \<Rightarrow> Emitted \<Rightarrow> 'e world \<Rightarrow> (string + unit) \<times> 'e world" where
  "selfIngest d g em w =
     (let (sentAt, reg) = stampOwnRecord (env_now (w_env w)) (b64_encode (em_bytes em)) (w_registry w);
          w1 = w\<lparr>w_registry := reg\<rparr> in
      case engine_of w1 g of
        None \<Rightarrow> (Inr (), w1)
      | Some eng \<Rightarrow>
          (case eo_ingest (d_engine d) (em_bytes em)
                  (ingestTimestampFor (w_phantom w1) (env_now (w_env w1)) (Some g) (Some sentAt)) eng of
             (Inl err, eng1) \<Rightarrow> (Inl err, put_engine g eng1 w1)
           | (Inr _, eng1) \<Rightarrow> (Inr (), put_engine g eng1 w1)))"

text \<open>The engine call and the save every composer makes; \<open>Inl\<close> when either throws.\<close>

definition emit_and_persist :: "'e deps \<Rightarrow> string \<Rightarrow> emit_request \<Rightarrow> 'e \<Rightarrow> 'e world \<Rightarrow> (string + Emitted) \<times> 'e world" where
  "emit_and_persist d g req eng w =
     (case eo_emit (d_engine d) req eng of
        (Inl err, eng1) \<Rightarrow> (Inl err, put_engine g eng1 w)
      | (Inr em, eng1) \<Rightarrow>
          (case persistAfterEmit d g eng1 (put_engine g eng1 w) of
             (False, w1) \<Rightarrow> (Inl ''could not save the member state; not sending'', w1)
           | (True, w1) \<Rightarrow> (Inr em, w1)))"

text \<open>A composer that lets exceptions through (\<^verbatim>\<open>emitAndSelfIngest\<close>, \<^verbatim>\<open>emitBadgeRecord\<close>,
  \<^verbatim>\<open>commitPersonaScan\<close>) and one that catches those of the engine call and the save.\<close>

definition compose_strict :: "'e deps \<Rightarrow> string option \<Rightarrow> emit_request \<Rightarrow> 'e world \<Rightarrow>
    (string + Emitted option) \<times> 'e world" where
  "compose_strict d g req w0 =
     (case getPersonasEngine d g w0 of
        (None, w) \<Rightarrow> (Inr None, w)
      | (Some eng, w) \<Rightarrow>
          (case emit_and_persist d (the g) req eng w of
             (Inl err, w1) \<Rightarrow> (Inl err, w1)
           | (Inr em, w1) \<Rightarrow>
               (case selfIngest d (the g) em w1 of
                  (Inl err, w2) \<Rightarrow> (Inl err, w2)
                | (Inr _, w2) \<Rightarrow> (Inr (Some em), w2))))"

definition compose_caught :: "'e deps \<Rightarrow> string option \<Rightarrow> emit_request \<Rightarrow> 'e world \<Rightarrow>
    (string + Emitted option) \<times> 'e world" where
  "compose_caught d g req w0 =
     (case getPersonasEngine d g w0 of
        (None, w) \<Rightarrow> (Inr None, w)
      | (Some eng, w) \<Rightarrow>
          (case emit_and_persist d (the g) req eng w of
             (Inl _, w1) \<Rightarrow> (Inr None, w1)
           | (Inr em, w1) \<Rightarrow>
               (case selfIngest d (the g) em w1 of
                  (Inl err, w2) \<Rightarrow> (Inl err, w2)
                | (Inr _, w2) \<Rightarrow> (Inr (Some em), w2))))"

definition with_body :: "(Emitted \<Rightarrow> string) \<Rightarrow> (string + Emitted option) \<times> 'e world \<Rightarrow>
    (string + (string \<times> string) option) \<times> 'e world" where
  "with_body enc rw =
     (case rw of (r, w) \<Rightarrow>
        (case r of Inl err \<Rightarrow> Inl err | Inr x \<Rightarrow> Inr (map_option (\<lambda>em. (em_eh em, enc em)) x), w))"

definition emitAndSelfIngest :: "'e deps \<Rightarrow> string option \<Rightarrow> emit_request \<Rightarrow> 'e world \<Rightarrow>
    (string + (string \<times> string) option) \<times> 'e world" where
  "emitAndSelfIngest d g req w = with_body (\<lambda>em. encodeRecordBody (em_bytes em)) (compose_strict d g req w)"

record PersonaPostSend =
  pp_body :: string
  pp_persona :: "string option"
  pp_eh :: string
  pp_personaRecordBase64 :: string

definition post_request :: "string \<Rightarrow> PersonaChoice \<Rightarrow> emit_request" where
  "post_request text choice =
     (case choice of
        AnonChoice \<Rightarrow> EmitPostAnon text
      | RateChoice context index \<Rightarrow> EmitPostPseudoRate text context index
      | PseudoChoice nonce \<Rightarrow> EmitPostPseudo text nonce)"

definition composePersonaPost :: "'e deps \<Rightarrow> string option \<Rightarrow> string \<Rightarrow> PersonaChoice \<Rightarrow> 'e world \<Rightarrow>
    (string + PersonaPostSend option) \<times> 'e world" where
  "composePersonaPost d g text choice w0 =
     (case compose_caught d g (post_request text choice) w0 of
        (Inl err, w) \<Rightarrow> (Inl err, w)
      | (Inr x, w) \<Rightarrow>
          (Inr (map_option (\<lambda>em. \<lparr>pp_body = text, pp_persona = em_persona em, pp_eh = em_eh em,
                                  pp_personaRecordBase64 = b64_encode (em_bytes em)\<rparr>) x), w))"

definition composePersonaRate :: "'e deps \<Rightarrow> string option \<Rightarrow> string \<Rightarrow> int \<Rightarrow> 'e world \<Rightarrow>
    (string + (string \<times> string) option) \<times> 'e world" where
  "composePersonaRate d g targetEh delta w =
     with_body (\<lambda>em. encodeRateBody (em_bytes em)) (compose_caught d g (EmitRate targetEh delta) w)"

definition composePersonaPoll :: "'e deps \<Rightarrow> string option \<Rightarrow> PersonaPollDescriptor \<Rightarrow> string option \<Rightarrow> 'e world \<Rightarrow>
    (string + (string \<times> string) option) \<times> 'e world" where
  "composePersonaPoll d g descriptor targetEh w =
     with_body (\<lambda>em. encodePollBody (em_bytes em) descriptor)
       (compose_caught d g
          (EmitPoll (pd_question descriptor) (pd_options descriptor) (pd_kind descriptor)
             (if pd_kind descriptor = BanPoll then targetEh else None)) w)"

definition composePersonaVote :: "'e deps \<Rightarrow> string option \<Rightarrow> string \<Rightarrow> int \<Rightarrow> 'e world \<Rightarrow>
    (string + (string \<times> string) option) \<times> 'e world" where
  "composePersonaVote d g pollEh optionIndex w =
     with_body (\<lambda>em. encodeVoteBody (em_bytes em)) (compose_caught d g (EmitVote pollEh optionIndex) w)"

definition emitBadgeRecord :: "'e deps \<Rightarrow> string option \<Rightarrow> emit_request \<Rightarrow> 'e world \<Rightarrow>
    (string + (string \<times> string) option) \<times> 'e world" where
  "emitBadgeRecord d g req w = with_body (\<lambda>em. encodeBadgeBody (em_bytes em)) (compose_strict d g req w)"

definition composeBadgeRequest :: "'e deps \<Rightarrow> string option \<Rightarrow> int \<Rightarrow> 'e world \<Rightarrow>
    (string + (string \<times> string) option) \<times> 'e world" where
  "composeBadgeRequest d g slot w = emitBadgeRecord d g (EmitBadgeRequest slot) w"

definition composeBadgeApprove :: "'e deps \<Rightarrow> string option \<Rightarrow> string \<Rightarrow> int \<Rightarrow> 'e world \<Rightarrow>
    (string + (string \<times> string) option) \<times> 'e world" where
  "composeBadgeApprove d g requestEh slot w = emitBadgeRecord d g (EmitBadgeApprove requestEh slot) w"

section \<open>Scans\<close>

definition preparePersonaScan :: "'e deps \<Rightarrow> string option \<Rightarrow> 'e world \<Rightarrow> (string + string option) \<times> 'e world" where
  "preparePersonaScan d g w0 =
     (case getPersonasEngine d g w0 of
        (None, w) \<Rightarrow> (Inr None, w)
      | (Some eng, w) \<Rightarrow>
          (case eo_prepareScan (d_engine d) eng of
             (Inl err, eng1) \<Rightarrow> (Inl err, put_engine (the g) eng1 w)
           | (Inr s, eng1) \<Rightarrow> (Inr (Some s), put_engine (the g) eng1 w)))"

definition personaScanStillValid :: "'e deps \<Rightarrow> string option \<Rightarrow> 'e world \<Rightarrow> bool \<times> 'e world" where
  "personaScanStillValid d g w0 =
     (case getPersonasEngine d g w0 of
        (None, w) \<Rightarrow> (False, w)
      | (Some eng, w) \<Rightarrow> (eo_scanStillValid (d_engine d) eng, w))"

definition discardPersonaScan :: "'e deps \<Rightarrow> string option \<Rightarrow> 'e world \<Rightarrow> 'e world" where
  "discardPersonaScan d g w0 =
     (case getPersonasEngine d g w0 of
        (None, w) \<Rightarrow> w
      | (Some eng, w) \<Rightarrow> put_engine (the g) (eo_discardScan (d_engine d) eng) w)"

definition commitPersonaScan :: "'e deps \<Rightarrow> string option \<Rightarrow> 'e world \<Rightarrow>
    (string + (string \<times> string) option) \<times> 'e world" where
  "commitPersonaScan d g w = with_body (\<lambda>em. encodeRecordBody (em_bytes em)) (compose_strict d g CommitScan w)"

section \<open>Badges and proofs\<close>

definition sum_or :: "'a \<Rightarrow> string + 'a \<Rightarrow> 'a" where
  "sum_or dflt r = (case r of Inl _ \<Rightarrow> dflt | Inr x \<Rightarrow> x)"

definition heldBadges :: "'e deps \<Rightarrow> string option \<Rightarrow> 'e world \<Rightarrow> string list \<times> 'e world" where
  "heldBadges d g w0 =
     (case getPersonasEngine d g w0 of
        (None, w) \<Rightarrow> ([], w)
      | (Some eng, w) \<Rightarrow> (sum_or [] (eo_getBadges (d_engine d) eng), w))"

definition listPendingBadgeRequests :: "'e deps \<Rightarrow> string option \<Rightarrow> 'e world \<Rightarrow> (string \<times> int) list \<times> 'e world" where
  "listPendingBadgeRequests d g w0 =
     (case getPersonasEngine d g w0 of
        (None, w) \<Rightarrow> ([], w)
      | (Some eng, w) \<Rightarrow> (sum_or [] (eo_pendingBadgeRequests (d_engine d) eng), w))"

definition composeBadgeProof :: "'e deps \<Rightarrow> string option \<Rightarrow> string \<Rightarrow> 'e world \<Rightarrow> string option \<times> 'e world" where
  "composeBadgeProof d g badge w0 =
     (case getPersonasEngine d g w0 of
        (None, w) \<Rightarrow> (None, w)
      | (Some eng, w) \<Rightarrow> (case eo_emitBadgeProof (d_engine d) eng badge of Inl _ \<Rightarrow> None | Inr proof \<Rightarrow> Some proof, w))"

definition verifyBadgeProof :: "'e deps \<Rightarrow> string option \<Rightarrow> string \<Rightarrow> 'e world \<Rightarrow> string option \<times> 'e world" where
  "verifyBadgeProof d g proof w0 =
     (case getPersonasEngine d g w0 of
        (None, w) \<Rightarrow> (None, w)
      | (Some eng, w) \<Rightarrow> (sum_or None (eo_verifyBadgeProof (d_engine d) eng proof), w))"

definition composePersonaBadgeProof :: "'e deps \<Rightarrow> string option \<Rightarrow> string \<Rightarrow> 'e world \<Rightarrow>
    (string \<times> string) option \<times> 'e world" where
  "composePersonaBadgeProof d g badge w0 =
     (case getPersonasEngine d g w0 of
        (None, w) \<Rightarrow> (None, w)
      | (Some eng, w) \<Rightarrow>
          (case eo_emitBadgeProof (d_engine d) eng badge of
             Inl _ \<Rightarrow> (None, w)
           | Inr proof \<Rightarrow> (Some (encodeBadgeProof proof, proof), w)))"

definition verifyPersonaBadgeProof :: "'e deps \<Rightarrow> string option \<Rightarrow> string \<Rightarrow> 'e world \<Rightarrow> string option \<times> 'e world" where
  "verifyPersonaBadgeProof d g proof w0 =
     (case getPersonasEngine d g w0 of
        (None, w) \<Rightarrow> (None, w)
      | (Some eng, w) \<Rightarrow> (sum_or None (eo_verifyBadgeProof (d_engine d) eng proof), w))"

definition composePersonaAuthorship :: "'e deps \<Rightarrow> string option \<Rightarrow> rat \<Rightarrow> rat \<Rightarrow> 'e world \<Rightarrow>
    (string \<times> string) option \<times> 'e world" where
  "composePersonaAuthorship d g contextA contextB w0 =
     (case getPersonasEngine d g w0 of
        (None, w) \<Rightarrow> (None, w)
      | (Some eng, w) \<Rightarrow>
          (case eo_emitAuthorship (d_engine d) eng contextA contextB of
             Inl _ \<Rightarrow> (None, w)
           | Inr proof \<Rightarrow> (Some (encodeAuthorshipProof proof, proof), w)))"

definition verifyPersonaAuthorship :: "'e deps \<Rightarrow> string option \<Rightarrow> string \<Rightarrow> 'e world \<Rightarrow>
    (string \<times> string) option \<times> 'e world" where
  "verifyPersonaAuthorship d g proof w0 =
     (case getPersonasEngine d g w0 of
        (None, w) \<Rightarrow> (None, w)
      | (Some eng, w) \<Rightarrow> (sum_or None (eo_verifyAuthorship (d_engine d) eng proof), w))"

definition isPostFlagged :: "'e deps \<Rightarrow> string option \<Rightarrow> string \<Rightarrow> 'e world \<Rightarrow> bool option \<times> 'e world" where
  "isPostFlagged d g eh w0 =
     (case getPersonasEngine d g w0 of
        (None, w) \<Rightarrow> (None, w)
      | (Some eng, w) \<Rightarrow> (map_option le_flagged (eo_logEntry (d_engine d) eng eh), w))"

section \<open>Frames\<close>

text \<open>Restoring the extras, and with it building an engine, sends nothing.\<close>

lemma restore_extras_frame:
  assumes "\<And>x j a. x \<in> set xs \<Longrightarrow> f (ex_restore x g j a) = f a"
  shows "f (snd (restore_extras xs g v a)) = f a"
  using assms by (induction xs arbitrary: a) (auto split: sum.split option.split)

lemma world_restore_frame:
  "x \<in> set (world_extras d now) \<Longrightarrow> w_out (ex_restore x g j w) = w_out w"
  "x \<in> set (world_extras d now) \<Longrightarrow> w_runtimes (ex_restore x g j w) = w_runtimes w"
  "x \<in> set (world_extras d now) \<Longrightarrow> w_env (ex_restore x g j w) = w_env w"
  by (auto simp: world_extras_def)

lemma load_app:
  "fst (snd (loadPersonasState ae xs r t g (a, ps))) = a
   \<or> (\<exists>v. fst (snd (loadPersonasState ae xs r t g (a, ps))) = snd (restore_extras xs g v a))"
proof (cases "ps_storage ps"; cases "map_get (ps_groups ps) g")
  fix key st
  assume k: "ps_storage ps = Some key" "map_get (ps_groups ps) g = Some st"
  show ?thesis
  proof (cases "Option.bind (file_at (ps_disk ps) (gs_folder st) ''state.bin'') (open_state_file ae key (gs_folder st))")
    case None
    with k show ?thesis
      by (cases "file_at (ps_disk ps) (gs_folder st) ''state.bin''") (simp_all add: loadPersonasState_def Let_def)
  next
    case (Some v)
    then obtain raw where f: "file_at (ps_disk ps) (gs_folder st) ''state.bin'' = Some raw"
        "open_state_file ae key (gs_folder st) raw = Some v"
      by (cases "file_at (ps_disk ps) (gs_folder st) ''state.bin''") simp_all
    obtain ok a' where r: "restore_extras xs g v a = (ok, a')" by (cases "restore_extras xs g v a")
    from k f r have "fst (snd (loadPersonasState ae xs r t g (a, ps))) = (if v = JNull then a else a')"
      by (cases ok) (simp_all add: loadPersonasState_def Let_def split: sum.split)
    with r show ?thesis by (metis snd_conv)
  qed
qed (simp_all add: loadPersonasState_def)

lemma load_frame:
  assumes "loadPersonasState ae (world_extras d now) r t g (w, ps) = (m, w1, ps1)"
  shows "w_out w1 = w_out w \<and> w_runtimes w1 = w_runtimes w \<and> w_env w1 = w_env w"
proof -
  have "w1 = w \<or> (\<exists>v. w1 = snd (restore_extras (world_extras d now) g v w))"
    using load_app [of ae "world_extras d now" r t g w ps] unfolding assms by simp
  then show ?thesis
    using restore_extras_frame [of "world_extras d now" w_out g, OF world_restore_frame(1)]
      restore_extras_frame [of "world_extras d now" w_runtimes g, OF world_restore_frame(2)]
      restore_extras_frame [of "world_extras d now" w_env g, OF world_restore_frame(3)]
    by auto
qed

lemma open_and_load_frame:
  assumes "open_and_load d g w = (jm, w1)"
  shows "w_out w1 = w_out w \<and> w_runtimes w1 = w_runtimes w \<and> w_env w1 = w_env w"
  using assms unfolding open_and_load_def
  by (auto simp: bump_def split: option.splits if_splits prod.splits dest: load_frame)

lemma init_frame [simp]:
  "w_out (initPersonasCatchUp d g f w) = w_out w" "w_runtimes (initPersonasCatchUp d g f w) = w_runtimes w"
  by (simp_all add: initPersonasCatchUp_def)

lemma save_new_member_frame:
  "save_new_member d g e v = (ok, v') \<Longrightarrow> w_out v' = w_out v \<and> w_runtimes v' = w_runtimes v"
  by (auto simp: save_new_member_def split: sum.splits prod.splits save_result.splits dest: save_state_frame)

lemma construct_frame:
  "w_out (construct_engine d g w) = w_out w \<and> map_has (w_runtimes (construct_engine d g w)) g"
proof -
  obtain j m w1 where o: "open_and_load d g w = ((j, m), w1)" by (metis prod.exhaust)
  have out: "w_out w1 = w_out w" using open_and_load_frame [OF o] by simp
  show ?thesis
    unfolding construct_engine_def o prod.case
    by (cases m) (auto simp: out set_runtime_def Let_def map_has_get split: sum.split prod.split
        dest: save_new_member_frame)
qed

lemma getPersonasEngine_Some:
  assumes "getPersonasEngine d g w0 = (Some eng, w)"
  shows "truthy_str g \<and> engine_of w (the g) = Some eng \<and> map_has (w_runtimes w) (the g)"
  using assms construct_frame [of d "the g" "snd (runtimeFor (the g) w0)"]
  by (auto simp: getPersonasEngine_def runtimeFor_def map_entry_def engine_of_def map_has_get Let_def
        fresh_runtime_def split: if_splits option.splits prod.splits)

lemma getPersonasEngine_out: "w_out (snd (getPersonasEngine d g w)) = w_out w"
  by (auto simp: getPersonasEngine_def runtimeFor_def Let_def construct_frame split: prod.split)

section \<open>The ordering rule\<close>

text \<open>The member state \<open>st\<close> is what the group's file holds, where a group has a file at all (a state
  key, and an opened folder).\<close>

definition member_on_disk :: "'e deps \<Rightarrow> string \<Rightarrow> string option \<Rightarrow> persistence \<Rightarrow> bool" where
  "member_on_disk d g st ps =
     (\<forall>key gs. ps_storage ps = Some key \<and> map_get (ps_groups ps) g = Some gs \<longrightarrow>
        (st \<noteq> None \<longrightarrow> gs_lastMemberState gs = st)
        \<and> (\<exists>now (app :: 'e world) iv. file_at (ps_disk ps) (gs_folder gs) ''state.bin''
              = Some (state_file (d_aead d) key iv (gs_folder gs)
                        (state_json (world_extras d now) app g (gs_lastMemberState gs)))))"

lemma save_state_on_disk:
  assumes "save_state d g st w = (Saved, w1)"
  shows "member_on_disk d g st (w_ps w1)"
proof (cases "ps_storage (w_ps w)"; cases "map_get (ps_groups (w_ps w)) g")
  fix key gs
  assume k: "ps_storage (w_ps w) = Some key" "map_get (ps_groups (w_ps w)) g = Some gs"
  then have o: "group_open (w_ps w) g key (gs_folder gs) (gs_lastMemberState gs)" by (simp add: group_open_def)
  obtain io where io: "d_save d (w_step w) = io" by simp
  have ok: "io = SaveOk"
    using assms unfolding save_state_def save_open_group [OF o] io
    by (cases io) (auto simp: Let_def)
  let ?m = "case st of None \<Rightarrow> gs_lastMemberState gs | Some x \<Rightarrow> Some x"
  have "file_at (ps_disk (w_ps w1)) (gs_folder gs) ''state.bin''
      = Some (state_file (d_aead d) key (d_iv d (w_step w)) (gs_folder gs)
                (state_json (world_extras d (env_now (w_env w))) w g ?m))"
    and "ps_storage (w_ps w1) = Some key"
    and "map_get (ps_groups (w_ps w1)) g = Some (gs\<lparr>gs_lastMemberState := ?m\<rparr>)"
    using assms k unfolding save_state_def save_open_group [OF o] io ok
    by (auto simp: Let_def bump_def split: if_splits)
  then show ?thesis unfolding member_on_disk_def by (cases st) auto
qed (use assms in \<open>auto simp: member_on_disk_def save_state_def savePersonasState_def bump_def Let_def split: option.splits\<close>)

lemma persist_on_disk:
  assumes "persistAfterEmit d g eng w = (True, w1)"
  obtains st where "eo_exportMemberState (d_engine d) eng = Inr st" "member_on_disk d g st (w_ps w1)" "w_out w1 = w_out w"
  using assms save_state_on_disk [of d g _ w w1] save_state_frame [of d g _ w _ w1]
  by (auto simp: persistAfterEmit_def split: sum.splits prod.splits save_result.splits)

lemma put_engine_ps [simp]: "w_ps (put_engine g e w) = w_ps w" "w_registry (put_engine g e w) = w_registry w"
  "w_env (put_engine g e w) = w_env w" "w_phantom (put_engine g e w) = w_phantom w"
  by (simp_all add: put_engine_def split: option.split)

lemma selfIngest_frame: "selfIngest d g em w = (r, w1) \<Longrightarrow> w_ps w1 = w_ps w \<and> w_out w1 = w_out w"
  by (auto simp: selfIngest_def Let_def split: option.splits sum.splits prod.splits)

definition emitted_and_saved :: "'e deps \<Rightarrow> string option \<Rightarrow> emit_request \<Rightarrow> Emitted \<Rightarrow> 'e world \<Rightarrow> 'e world \<Rightarrow> bool" where
  "emitted_and_saved d g req em w w' =
     (w_out w' = w_out w
      \<and> (\<exists>eng eng1 st. eo_emit (d_engine d) req eng = (Inr em, eng1)
           \<and> eo_exportMemberState (d_engine d) eng1 = Inr st \<and> member_on_disk d (the g) st (w_ps w')))"

lemma emit_and_persist_saved:
  assumes "emit_and_persist d g req eng w = (Inr em, w1)"
  shows "emitted_and_saved d (Some g) req em w w1"
proof -
  obtain eng1 where e: "eo_emit (d_engine d) req eng = (Inr em, eng1)"
      "persistAfterEmit d g eng1 (put_engine g eng1 w) = (True, w1)"
    using assms by (auto simp: emit_and_persist_def split: sum.splits prod.splits bool.splits)
  from e(2) obtain st where "eo_exportMemberState (d_engine d) eng1 = Inr st" "member_on_disk d g st (w_ps w1)"
      "w_out w1 = w_out w"
    by (rule persist_on_disk) simp
  with e(1) show ?thesis unfolding emitted_and_saved_def by auto
qed

lemma compose_saved:
  assumes "compose_strict d g req w = (Inr (Some em), w') \<or> compose_caught d g req w = (Inr (Some em), w')"
  shows "emitted_and_saved d g req em w w'"
proof -
  obtain eng w1 where g: "getPersonasEngine d g w = (Some eng, w1)"
    using assms by (cases "getPersonasEngine d g w"; cases "fst (getPersonasEngine d g w)")
      (auto simp: compose_strict_def compose_caught_def)
  obtain w2 r where e: "emit_and_persist d (the g) req eng w1 = (Inr em, w2)" "selfIngest d (the g) em w2 = (r, w')"
    using assms g by (auto simp: compose_strict_def compose_caught_def split: sum.splits prod.splits)
  have "w_out w1 = w_out w" using getPersonasEngine_out [of d g w] g by simp
  then show ?thesis
    using emit_and_persist_saved [OF e(1)] selfIngest_frame [OF e(2)] by (auto simp: emitted_and_saved_def)
qed

text \<open>The bodies the composers hand to their callers for sending.\<close>

definition releases :: "'e deps \<Rightarrow> string option \<Rightarrow> emit_request \<Rightarrow> 'e world \<Rightarrow> string \<Rightarrow> 'e world \<Rightarrow> bool" where
  "releases d g req w body w' =
     (\<exists>eh. emitAndSelfIngest d g req w = (Inr (Some (eh, body)), w')
       \<or> emitBadgeRecord d g req w = (Inr (Some (eh, body)), w')
       \<or> req = CommitScan \<and> commitPersonaScan d g w = (Inr (Some (eh, body)), w')
       \<or> (\<exists>t \<delta>. req = EmitRate t \<delta> \<and> composePersonaRate d g t \<delta> w = (Inr (Some (eh, body)), w'))
       \<or> (\<exists>p i. req = EmitVote p i \<and> composePersonaVote d g p i w = (Inr (Some (eh, body)), w'))
       \<or> (\<exists>pd t. req = EmitPoll (pd_question pd) (pd_options pd) (pd_kind pd) (if pd_kind pd = BanPoll then t else None)
            \<and> composePersonaPoll d g pd t w = (Inr (Some (eh, body)), w'))
       \<or> (\<exists>text choice send badge ctx. req = post_request text choice
            \<and> composePersonaPost d g text choice w = (Inr (Some send), w')
            \<and> body = encodePostBody (b64_decode (pp_personaRecordBase64 send)) badge ctx))"

lemma with_body_Some:
  "with_body enc rw = (Inr (Some (eh, body)), w') \<Longrightarrow>
   \<exists>em. rw = (Inr (Some em), w') \<and> eh = em_eh em \<and> body = enc em"
  by (cases rw) (auto simp: with_body_def split: sum.splits)

definition carries_record :: "string \<Rightarrow> Emitted \<Rightarrow> bool" where
  "carries_record body em =
     (decodeRecordBody (Some body) = Some (em_bytes em) \<or> (\<exists>badge ctx. body = encodePostBody (em_bytes em) badge ctx))"

lemma composed_post:
  assumes "composePersonaPost d g text choice w = (Inr (Some send), w')"
  shows "\<exists>em. compose_caught d g (post_request text choice) w = (Inr (Some em), w')
              \<and> pp_personaRecordBase64 send = b64_encode (em_bytes em)"
  using assms by (cases "compose_caught d g (post_request text choice) w")
    (auto simp: composePersonaPost_def split: sum.splits)

lemma released_by_composer:
  assumes "releases d g req w body w'"
  shows "\<exists>em. (compose_strict d g req w = (Inr (Some em), w') \<or> compose_caught d g req w = (Inr (Some em), w'))
              \<and> carries_record body em"
proof -
  have record_bodies: "carries_record (encodeRecordBody (em_bytes em)) em" "carries_record (encodeBadgeBody (em_bytes em)) em"
      "carries_record (encodeVoteBody (em_bytes em)) em" "carries_record (encodeRateBody (em_bytes em)) em"
      "carries_record (encodePollBody (em_bytes em) pd) em" for em pd
    by (simp_all add: carries_record_def record_codec.dec_enc badge_codec.dec_enc vote_codec.dec_enc
        rate_codec.dec_enc poll_record_codec.dec_enc)
  have strict: "req = r \<Longrightarrow> with_body enc (compose_strict d g r w) = (Inr (Some (eh, body)), w') \<Longrightarrow>
      (\<And>em. carries_record (enc em) em) \<Longrightarrow> ?thesis"
    for r enc eh using with_body_Some [of enc "compose_strict d g r w"] by blast
  have caught: "req = r \<Longrightarrow> with_body enc (compose_caught d g r w) = (Inr (Some (eh, body)), w') \<Longrightarrow>
      (\<And>em. carries_record (enc em) em) \<Longrightarrow> ?thesis"
    for r enc eh using with_body_Some [of enc "compose_caught d g r w"] by blast
  have post: "req = post_request tx choice \<Longrightarrow> composePersonaPost d g tx choice w = (Inr (Some send), w') \<Longrightarrow>
      body = encodePostBody (b64_decode (pp_personaRecordBase64 send)) badge ctx \<Longrightarrow> ?thesis"
    for tx choice send badge ctx
    by (drule composed_post) (metis carries_record_def b64_decode_encode)
  show ?thesis
    using assms unfolding releases_def emitAndSelfIngest_def emitBadgeRecord_def commitPersonaScan_def
      composePersonaRate_def composePersonaVote_def composePersonaPoll_def
    by - (elim exE disjE conjE; (rule strict [OF refl] strict caught post; (assumption | rule record_bodies)))
qed

section \<open>A concrete engine\<close>

definition demo_ops :: "nat engine_ops" where
  "demo_ops =
     \<lparr>eo_new = (\<lambda>_. Inr 0),
      eo_emit = (\<lambda>req n. (Inr \<lparr>em_bytes = ''rec'', em_eh = ''eh'', em_persona = None\<rparr>, Suc n)),
      eo_ingest = (\<lambda>r t n. (Inr \<lparr>is_status = (if r = ''rec'' then Applied else Rejected), is_eh = ''eh''\<rparr>, n)),
      eo_ingestRelayed = (\<lambda>r b t n. (Inr \<lparr>is_status = Applied, is_eh = ''eh''\<rparr>, n)),
      eo_exportMemberState = (\<lambda>n. Inr (Some (show_nat n))),
      eo_takeRelays = (\<lambda>n. ([], n)), eo_diverged = (\<lambda>_. False),
      eo_logEntry = (\<lambda>n eh. Some \<lparr>le_eh = eh, le_kind = ''Post'', le_author = None, le_body = ''hi'', le_flagged = False\<rparr>),
      eo_recordKind = (\<lambda>_ _. Some ''Post''),
      eo_recordAccountClaim = (\<lambda>_ r. if r = ''ban'' then Some (ClaimBan, []) else None),
      eo_tick = (\<lambda>t n. (Inr (Some 0), n)), eo_currentBarrier = (\<lambda>_. 0), eo_memberOnBulletin = (\<lambda>_. False),
      eo_joinCounts = (\<lambda>_ _. (0, 0)), eo_resetMember = (\<lambda>_. 0), eo_exportCatchUp = (\<lambda>_. ''h''),
      eo_importCatchUp = (\<lambda>h n. (Inr 1, n)), eo_proveNotBanned = (\<lambda>_ _. Inl ''no''), eo_verifyNotBanned = (\<lambda>_ _. Inr None),
      eo_prepareScan = (\<lambda>n. (Inr ''s'', n)), eo_scanStillValid = (\<lambda>_. True), eo_discardScan = (\<lambda>n. n),
      eo_scanNeeded = (\<lambda>_. False), eo_sweepRemaining = (\<lambda>_. 0),
      eo_isScanning = (\<lambda>_. False), eo_outstandingCallbacks = (\<lambda>_. 0), eo_isBanned = (\<lambda>_. Inr False), eo_getBadges = (\<lambda>_. Inr []),
      eo_pendingBadgeRequests = (\<lambda>_. Inr []), eo_emitBadgeProof = (\<lambda>_ _. Inl ''no''),
      eo_verifyBadgeProof = (\<lambda>_ _. Inr None), eo_emitAuthorship = (\<lambda>_ _ _. Inl ''no''),
      eo_verifyAuthorship = (\<lambda>_ _. Inr None)\<rparr>"

definition demo_deps :: "save_io \<Rightarrow> nat deps" where
  "demo_deps io =
     \<lparr>d_engine = demo_ops, d_aead = demo_aead, d_le = (\<lambda>_ _. True), d_viewChecks = False, d_pinnedKeys = False,
      d_keysDir = ''k'', d_save = (\<lambda>_. io), d_iv = (\<lambda>_. replicate 12 CHR ''i''), d_open = (\<lambda>_. OpenOk),
      d_rename = (\<lambda>_. True), d_send = (\<lambda>_. True),
      d_segment = map (\<lambda>ch. [ch]), d_messageId = show_nat, d_proofMs = (\<lambda>_. 0), d_late = (\<lambda>_. 0),
      d_badgeDir = True, d_badgeWrite = (\<lambda>_. True), d_autoScan = None\<rparr>"

lemma demo_fields [simp]:
  "d_engine (demo_deps io) = demo_ops" "d_save (demo_deps io) n = io" "d_send (demo_deps io) n = True"
  "eo_emit demo_ops req k = (Inr \<lparr>em_bytes = ''rec'', em_eh = ''eh'', em_persona = None\<rparr>, Suc k)"
  "eo_ingest demo_ops r t k = (Inr \<lparr>is_status = (if r = ''rec'' then Applied else Rejected), is_eh = ''eh''\<rparr>, k)"
  "eo_exportMemberState demo_ops k = Inr (Some (show_nat k))"
  "eo_takeRelays demo_ops k = ([], k)"
  "eo_logEntry demo_ops k eh = Some \<lparr>le_eh = eh, le_kind = ''Post'', le_author = None, le_body = ''hi'', le_flagged = False\<rparr>"
  by (simp_all add: demo_deps_def demo_ops_def)

definition demo_world :: "nat world" where
  "demo_world =
     \<lparr>w_env = demo_env, w_step = 0, w_phantom = demo_group, w_ps = demo_ps, w_registry = registry0, w_tickers = [],
      w_topics = [], w_pseudonyms = [], w_catchUp = [], w_ownRequests = [], w_received = [],
      w_runtimes = [(''G'', \<lparr>rt_engine = Some 0, rt_constructionFailed = False\<rparr>)], w_keysReady = True,
      w_persistenceReady = True, w_joins = [], w_answeredAt = [], w_copies = [], w_viewsDiverged = [],
      w_warmed = [], w_scanInFlight = False, w_lastScanProofMs = 4000, w_dismissed = [],
      w_badge = \<lparr>bg_cached = None, bg_loaded = False, bg_file = None\<rparr>, w_messages = [], w_out = []\<rparr>"

lemma demo_engine: "getPersonasEngine (demo_deps io) (Some ''G'') demo_world = (Some 0, demo_world)"
proof -
  have "isPersonasEngineEnabled (w_env demo_world)" by code_simp
  then show ?thesis
    by (simp add: getPersonasEngine_def truthy_str_def runtimeFor_def map_entry_def demo_world_def map_get_def)
qed

lemma demo_open: "group_open (w_ps demo_world) ''G'' ''key'' ''fp-v3'' None"
  using demo_ps_open by (simp add: demo_world_def)

lemma demo_save: "\<exists>w1. save_state (demo_deps SaveOk) ''G'' (Some m) (put_engine ''G'' e demo_world) = (Saved, w1)
    \<and> w_runtimes w1 = w_runtimes (put_engine ''G'' e demo_world)"
proof -
  have o: "group_open (w_ps (put_engine ''G'' e demo_world)) ''G'' ''key'' ''fp-v3'' None"
    using demo_open by simp
  show ?thesis
    unfolding save_state_def save_open_group [OF o] by (auto simp: Let_def)
qed

lemma demo_releases: "\<exists>w'. releases (demo_deps SaveOk) (Some ''G'') CommitScan demo_world (encodeRecordBody ''rec'') w'"
proof -
  obtain w1 where s: "save_state (demo_deps SaveOk) ''G'' (Some (show_nat 1)) (put_engine ''G'' 1 demo_world) = (Saved, w1)"
    and r: "w_runtimes w1 = w_runtimes (put_engine ''G'' 1 demo_world)"
    using demo_save by blast
  have e: "engine_of w1 ''G'' = Some 1"
    using engine_of_put [of demo_world "''G''" 1 "''G''"] by (simp add: engine_of_def r demo_world_def map_has_get map_get_def)
  have "emit_and_persist (demo_deps SaveOk) ''G'' CommitScan 0 demo_world
      = (Inr \<lparr>em_bytes = ''rec'', em_eh = ''eh'', em_persona = None\<rparr>, w1)"
    using s by (simp add: emit_and_persist_def persistAfterEmit_def)
  then have "\<exists>w'. compose_strict (demo_deps SaveOk) (Some ''G'') CommitScan demo_world
      = (Inr (Some \<lparr>em_bytes = ''rec'', em_eh = ''eh'', em_persona = None\<rparr>), w')"
    using e by (auto simp: compose_strict_def demo_engine selfIngest_def Let_def engine_of_def split: prod.split)
  then show ?thesis
    unfolding releases_def commitPersonaScan_def with_body_def by fastforce
qed

section \<open>Reading back what was taken in\<close>

lemma engine_of_relay:
  "map_has (w_runtimes w) g \<Longrightarrow> engine_of (relay_out d g rs w) g' = engine_of w g'"
  unfolding relay_out_def
  by (induction rs arbitrary: w) (auto simp: engine_of_def)

lemma relayAndCheckViews_engine:
  assumes "map_has (w_runtimes w) g"
  shows "engine_of (relayAndCheckViews d g eng w) g = Some (snd (eo_takeRelays (d_engine d) eng))"
proof -
  obtain rs eng1 where t: "eo_takeRelays (d_engine d) eng = (rs, eng1)" by (cases "eo_takeRelays (d_engine d) eng")
  have h: "map_has (w_runtimes (put_engine g eng1 w)) g"
    using assms by (auto simp: put_engine_def map_has_get split: option.split)
  have "engine_of (put_engine g eng1 w) g = Some eng1" using assms by (simp add: engine_of_put)
  then show ?thesis
    using engine_of_relay [OF h] by (simp add: relayAndCheckViews_def t Let_def engine_of_def)
qed

lemma timeline_result:
  assumes "ingestRecordForTimeline d g body ts w = (res, w')" and "res \<noteq> NotRecord" and "res \<noteq> Ingested"
  obtains rec where "decodeRecordBody body = Some rec \<or> map_option snd (decodeRelayBody body) = Some rec"
    and "\<exists>eng status. describe d eng body rec status = res \<and> engine_of w' (the g) = Some eng"
proof -
  obtain rec where rec: "(case decodeRelayBody body of Some (_, r) \<Rightarrow> Some r | None \<Rightarrow> decodeRecordBody body) = Some rec"
    using assms by (cases "case decodeRelayBody body of Some (_, r) \<Rightarrow> Some r | None \<Rightarrow> decodeRecordBody body")
      (auto simp: ingestRecordForTimeline_def Let_def)
  then have alt: "decodeRecordBody body = Some rec \<or> map_option snd (decodeRelayBody body) = Some rec"
    by (auto split: option.splits)
  obtain eng w1 where g: "getPersonasEngine d g w = (Some eng, w1)"
    using assms rec by (cases "getPersonasEngine d g w"; cases "fst (getPersonasEngine d g w)")
      (auto simp: ingestRecordForTimeline_def Let_def)
  let ?i = "case decodeRelayBody body of
      Some (barrier, _) \<Rightarrow> eo_ingestRelayed (d_engine d) rec barrier (ingestTimestampFor (w_phantom w1) (env_now (w_env w1)) g (Some ts)) eng
    | None \<Rightarrow> eo_ingest (d_engine d) rec (ingestTimestampFor (w_phantom w1) (env_now (w_env w1)) g (Some ts)) eng"
  obtain x eng1 where i: "?i = (x, eng1)" by (cases ?i)
  obtain status where x: "x = Inr status"
    using assms rec g i by (cases x) (auto simp: ingestRecordForTimeline_def Let_def)
  have h: "map_has (w_runtimes (put_engine (the g) eng1 w1)) (the g)"
    using getPersonasEngine_Some [OF g] by (auto simp: put_engine_def map_has_get split: option.split)
  have "res = describe d (snd (eo_takeRelays (d_engine d) eng1)) body rec status"
      "engine_of w' (the g) = Some (snd (eo_takeRelays (d_engine d) eng1))"
    using assms(1) rec g i x relayAndCheckViews_engine [OF h, of d eng1]
    by (auto simp: ingestRecordForTimeline_def Let_def)
  with alt show ?thesis using that by blast
qed

lemma describe_post:
  assumes "describe d eng body rec status = PostResult eh author shown flagged pending"
  shows "if pending
       then author = None \<and> shown = PENDING_POST_BODY \<and> \<not> flagged \<and> eo_recordKind (d_engine d) eng rec = Some ''Post''
       else eo_logEntry (d_engine d) eng eh
            = Some \<lparr>le_eh = le_eh (the (eo_logEntry (d_engine d) eng eh)), le_kind = ''Post'', le_author = author,
                    le_body = shown, le_flagged = flagged\<rparr>"
  using assms by (auto simp: describe_def split: option.splits if_splits)

section \<open>What composing and receiving guarantee\<close>

text \<open>C8. Record before release: whatever a composer hands to its caller for sending carries a record
  the engine emitted, the member state after that emission is what the group's file holds, and
  nothing was sent in the meantime.\<close>

theorem record_saved_before_release:
  assumes "releases d g req w body w'"
  shows "\<exists>em. emitted_and_saved d g req em w w' \<and> carries_record body em"
  using released_by_composer [OF assms] compose_saved by blast

theorem record_saved_before_release_witness:
  "\<exists>em w'. emitted_and_saved (demo_deps SaveOk) (Some ''G'') CommitScan em demo_world w'
     \<and> carries_record (encodeRecordBody ''rec'') em"
  using demo_releases record_saved_before_release by blast





text \<open>C29. What the timeline shows as a post is what the engine has logged as a post, with the log's
  author, text and flag; the one exception is the fixed placeholder for a record of kind Post that
  the engine is still holding.\<close>

theorem timeline_shows_only_posts:
  assumes "ingestRecordForTimeline d g body ts w = (PostResult eh author shown flagged pending, w')"
  shows "\<exists>eng. engine_of w' (the g) = Some eng
    \<and> (if pending
       then author = None \<and> shown = PENDING_POST_BODY \<and> \<not> flagged
          \<and> (\<exists>rec. (decodeRecordBody body = Some rec \<or> map_option snd (decodeRelayBody body) = Some rec)
                 \<and> eo_recordKind (d_engine d) eng rec = Some ''Post'')
       else eo_logEntry (d_engine d) eng eh
            = Some \<lparr>le_eh = le_eh (the (eo_logEntry (d_engine d) eng eh)), le_kind = ''Post'', le_author = author,
                    le_body = shown, le_flagged = flagged\<rparr>)"
proof -
  obtain rec where rec: "decodeRecordBody body = Some rec \<or> map_option snd (decodeRelayBody body) = Some rec"
    and result: "\<exists>eng status. describe d eng body rec status = PostResult eh author shown flagged pending
        \<and> engine_of w' (the g) = Some eng"
    using timeline_result [OF assms] by blast
  then obtain eng status where d: "describe d eng body rec status = PostResult eh author shown flagged pending"
    and e: "engine_of w' (the g) = Some eng" by blast
  show ?thesis using describe_post [OF d] e rec by auto
qed

lemma records_are_not_relays [simp]: "decodeRelayBody (Some (encodeRecordBody bytes)) = None"
  by (rule record_relay.no_confusion(1))

lemma polls_are_not_relays [simp]: "decodeRelayBody (Some (encodePollBody bytes pd)) = None"
  by (rule relay_codec.dec_foreign [of PERSONAS_POLL_MARKER])
     (simp_all add: codec_defs, simp_all add: marker_defs)

lemma plain_records_are_not_polls [simp]: "decodePollDescriptor (Some (encodeRecordBody bytes)) = None"
  by (rule poll_descriptor_codec.dec_foreign [of PERSONAS_MARKER])
     (simp_all add: codec_defs, simp_all add: marker_defs)

lemma demo_runtime: "map_has (w_runtimes demo_world) ''G''"
  by (simp add: demo_world_def map_has_get map_get_def)

lemma demo_relay:
  "\<exists>w'. relayAndCheckViews (demo_deps io) ''G'' 0 (put_engine ''G'' 0 demo_world) = w' \<and> engine_of w' ''G'' = Some 0"
proof -
  have "map_has (w_runtimes (put_engine ''G'' 0 demo_world)) ''G''"
    using demo_runtime by (auto simp: put_engine_def map_has_get split: option.split)
  then show ?thesis using relayAndCheckViews_engine [of "put_engine ''G'' 0 demo_world" "''G''" "demo_deps io" 0] by simp
qed

theorem timeline_shows_only_posts_witness:
  "\<exists>w'. ingestRecordForTimeline (demo_deps SaveOk) (Some ''G'') (Some (encodeRecordBody ''rec'')) 5 demo_world
        = (PostResult ''eh'' None ''hi'' False False, w')
     \<and> (\<exists>eng. engine_of w' ''G'' = Some eng \<and> le_kind (the (eo_logEntry demo_ops eng ''eh'')) = ''Post'')"
proof -
  obtain w' where w': "relayAndCheckViews (demo_deps SaveOk) ''G'' 0 (put_engine ''G'' 0 demo_world) = w'" "engine_of w' ''G'' = Some 0"
    using demo_relay by blast
  have "ingestRecordForTimeline (demo_deps SaveOk) (Some ''G'') (Some (encodeRecordBody ''rec'')) 5 demo_world
      = (PostResult ''eh'' None ''hi'' False False, w')"
    using w' by (simp add: ingestRecordForTimeline_def demo_engine record_codec.dec_enc describe_def)
  from this timeline_shows_only_posts [OF this] show ?thesis by auto
qed

text \<open>A poll is put on the timeline whatever the engine says of its record, rejection included:
  the carriage's descriptor decides before the status is looked at.\<close>

theorem rejected_poll_still_rendered:
  assumes "getPersonasEngine d (Some g) w = (Some eng, w1)"
    and "eo_ingest (d_engine d) bytes (ingestTimestampFor (w_phantom w1) (env_now (w_env w1)) (Some g) (Some ts)) eng
         = (Inr \<lparr>is_status = Rejected, is_eh = eh\<rparr>, eng1)"
  shows "fst (ingestRecordForTimeline d (Some g) (Some (encodePollBody bytes pd)) ts w) = PollResult eh pd"
  using assms
  by (simp add: ingestRecordForTimeline_def poll_record_codec.dec_enc describe_def poll_descriptor_codec.dec_enc Let_def)

theorem rejected_poll_still_rendered_witness:
  "fst (ingestRecordForTimeline (demo_deps SaveOk) (Some ''G'')
          (Some (encodePollBody ''forged'' \<lparr>pd_question = ''q'', pd_options = [''a''], pd_kind = StandardPoll, pd_silent = False\<rparr>))
          5 demo_world)
   = PollResult ''eh'' \<lparr>pd_question = ''q'', pd_options = [''a''], pd_kind = StandardPoll, pd_silent = False\<rparr>"
  by (rule rejected_poll_still_rendered [OF demo_engine]) simp

end
