(* ===== verification/CatchUp.thy ===== *)
theory CatchUp
  imports Engine
begin

text \<open>
  \<^verbatim>\<open>ts/services/personasCatchUp.preload.ts\<close>: a member added to a group late has an empty replica and
  asks the group's admins for a copy of its history; an admin answers in parts, sent one to one.

  The state kept is \<open>w_catchUp\<close> (saved with the member state), \<open>w_answeredAt\<close> and \<open>w_copies\<close>.  \<open>Inl\<close> is
  an exception.  A failing delete inside \<^verbatim>\<open>personasExtrasChanged\<close> is not propagated to its callers.

  Main facts: a copy is taken only from an admin of a personas group that still needs one; a copy
  whose parts arrive in any order is handed to the engine as the history that was sent; requests
  are at least a minute apart; nobody proceeds on an empty replica.
\<close>

definition REQUEST_EVERY_MS :: int where "REQUEST_EVERY_MS = 60000"
definition ADMIN_FALLBACK_MS :: int where "ADMIN_FALLBACK_MS = 60000"
definition ANSWER_EVERY_MS :: int where "ANSWER_EVERY_MS = 20000"
definition MAX_COPY_CHARS :: nat where "MAX_COPY_CHARS = 32 * 1024 * 1024"

definition catchUpState :: "'e world \<Rightarrow> string option \<Rightarrow> CatchUpState" where
  "catchUpState w g =
     (case (if truthy_str g then map_option sv_state (saved_at (w_catchUp w) (the g)) else None) of
        None \<Rightarrow> CatchUpDone
      | Some st \<Rightarrow> st)"

text \<open>\<^verbatim>\<open>catchUpBlockReason\<close>, without the text of the message.\<close>

definition catchUpBlocked :: "'e world \<Rightarrow> string option \<Rightarrow> bool" where
  "catchUpBlocked w g = (catchUpState w g \<noteq> CatchUpDone)"

definition markDone :: "'e deps \<Rightarrow> string \<Rightarrow> 'e world \<Rightarrow> (string + unit) \<times> 'e world" where
  "markDone d g w =
     (let w1 = w\<lparr>w_catchUp := set_saved g \<lparr>sv_state = CatchUpDone, sv_requestedAt = None\<rparr> (w_catchUp w)\<rparr>;
          (eng, w2) = getPersonasEngine d (Some g) w1 in
      case (case eng of None \<Rightarrow> Inr None | Some e \<Rightarrow> eo_exportMemberState (d_engine d) e) of
        Inl err \<Rightarrow> (Inl err, w2)
      | Inr st \<Rightarrow>
          (case save_state d g st w2 of
             (Raised, w3) \<Rightarrow> (Inl ''rm'', w3)
           | (_, w3) \<Rightarrow> (Inr (), extras_changed d (Some g) w3)))"

definition otherAdmins :: "'e world \<Rightarrow> conversation \<Rightarrow> string list" where
  "otherAdmins w c =
     filter (\<lambda>sid. Some sid \<noteq> env_ourAci (w_env w) \<and> isAdmin c sid) (List.map_filter mb_serviceId (cv_members c))"

definition sendRequest :: "'e deps \<Rightarrow> string \<Rightarrow> 'e world \<Rightarrow> 'e world" where
  "sendRequest d g w =
     (let now = env_now (w_env w);
          (entry, cs) = catchUpOf g (w_catchUp w);
          since = (case Option.bind (gc_saved entry) sv_requestedAt of Some t \<Rightarrow> t | None \<Rightarrow> of_int now);
          w1 = w\<lparr>w_catchUp := map_set cs g
                   (entry\<lparr>gc_lastRequestSentAt := now,
                          gc_saved := Some \<lparr>sv_state = CatchUpRequested, sv_requestedAt = Some since\<rparr>\<rparr>)\<rparr>
      in snd (enqueueMessageForSend d g encodeCatchUpRequest True (extras_changed d (Some g) w1)))"

definition lastRequestSentAt :: "'e world \<Rightarrow> string \<Rightarrow> int" where
  "lastRequestSentAt w g = gc_lastRequestSentAt (fst (catchUpOf g (w_catchUp w)))"

definition ensureCaughtUp :: "'e deps \<Rightarrow> conversation \<Rightarrow> 'e world \<Rightarrow> (string + bool) \<times> 'e world" where
  "ensureCaughtUp d c w =
     (let g0 = cv_groupId c in
      if catchUpState w g0 = CatchUpDone then (Inr True, w)
      else
        (case getPersonasEngine d g0 w of
           (None, w1) \<Rightarrow> (Inr False, w1)
         | (Some _, w1) \<Rightarrow>
             (let g = the g0 in
              if cv_weAreAdmin c \<and> otherAdmins w1 c = [] then
                (case markDone d g w1 of (Inl err, w2) \<Rightarrow> (Inl err, w2) | (Inr _, w2) \<Rightarrow> (Inr True, w2))
              else if env_now (w_env w1) - lastRequestSentAt w1 g \<ge> REQUEST_EVERY_MS
              then (Inr False, sendRequest d g w1)
              else (Inr False, w1\<lparr>w_catchUp := snd (catchUpOf g (w_catchUp w1))\<rparr>))))"

definition continue_one :: "'e deps \<Rightarrow> string \<Rightarrow> 'e world \<Rightarrow> (string + unit) \<times> 'e world" where
  "continue_one d g w =
     (case (conversation_of w g, map_get (w_catchUp w) g) of
        (Some c, Some entry) \<Rightarrow>
          (case gc_saved entry of
             None \<Rightarrow> (Inr (), w)
           | Some s \<Rightarrow>
               (case sv_state s of
                  CatchUpNeeded \<Rightarrow>
                    (case ensureCaughtUp d c w of (Inl err, w1) \<Rightarrow> (Inl err, w1) | (Inr _, w1) \<Rightarrow> (Inr (), w1))
                | CatchUpDone \<Rightarrow> (Inr (), w)
                | CatchUpRequested \<Rightarrow>
                    (let now = env_now (w_env w);
                         since = (case sv_requestedAt s of None \<Rightarrow> of_int now | Some t \<Rightarrow> t) in
                     if cv_weAreAdmin c \<and> of_int now - since \<ge> of_int ADMIN_FALLBACK_MS then markDone d g w
                     else if now - gc_lastRequestSentAt entry \<ge> REQUEST_EVERY_MS then (Inr (), sendRequest d g w)
                     else (Inr (), w))))
      | _ \<Rightarrow> (Inr (), w))"

fun continue_all :: "'e deps \<Rightarrow> string list \<Rightarrow> 'e world \<Rightarrow> (string + unit) \<times> 'e world" where
  "continue_all d [] w = (Inr (), w)"
| "continue_all d (g # gs) w =
     (case continue_one d g w of
        (Inl err, w1) \<Rightarrow> (Inl err, w1)
      | (Inr _, w1) \<Rightarrow> continue_all d gs w1)"

definition maybeContinueCatchUp :: "'e deps \<Rightarrow> 'e world \<Rightarrow> (string + unit) \<times> 'e world" where
  "maybeContinueCatchUp d w = continue_all d (map_keys (w_catchUp w)) w"

text \<open>The receive seam only schedules \<^verbatim>\<open>ensureCaughtUp\<close>; the answer says whether it does.\<close>

definition requestCatchUpIfNeeded :: "'e world \<Rightarrow> conversation \<Rightarrow> bool" where
  "requestCatchUpIfNeeded w c = (truthy_str (cv_groupId c) \<and> catchUpState w (cv_groupId c) = CatchUpNeeded)"

section \<open>The admin's side\<close>

fun send_parts :: "'e deps \<Rightarrow> string \<Rightarrow> string list \<Rightarrow> 'e world \<Rightarrow> bool \<times> 'e world" where
  "send_parts d to [] w = (True, w)"
| "send_parts d to (body # bodies) w =
     (case enqueueMessageForSend d to body True w of
        (False, w1) \<Rightarrow> (False, w1)
      | (True, w1) \<Rightarrow> send_parts d to bodies w1)"

definition answer_key :: "string option \<Rightarrow> string \<Rightarrow> string" where
  "answer_key g sender = (case g of None \<Rightarrow> ''undefined'' | Some s \<Rightarrow> s) @ '':'' @ sender"

text \<open>\<open>copyId\<close> is the random id drawn for the copy.\<close>

definition answerCatchUpRequest :: "'e deps \<Rightarrow> string \<Rightarrow> conversation \<Rightarrow> string option \<Rightarrow> 'e world \<Rightarrow>
    (string + unit) \<times> 'e world" where
  "answerCatchUpRequest d copyId c sender0 w =
     (if \<not> truthy_str sender0 \<or> sender0 = env_ourAci (w_env w) \<or> \<not> cv_weAreAdmin c then (Inr (), w)
      else
        (let sender = the sender0 in
         if \<not> hasMember c sender then (Inr (), w)
         else
           (case ensureCaughtUp d c w of
              (Inl err, w1) \<Rightarrow> (Inl err, w1)
            | (Inr False, w1) \<Rightarrow> (Inr (), w1)
            | (Inr True, w1) \<Rightarrow>
                (let g0 = cv_groupId c; key = answer_key g0 sender; now = env_now (w_env w1);
                     before = (case map_get (w_answeredAt w1) key of None \<Rightarrow> 0 | Some t \<Rightarrow> t) in
                 if now - before < ANSWER_EVERY_MS then (Inr (), w1)
                 else
                   (case getPersonasEngine d g0 (w1\<lparr>w_answeredAt := map_set (w_answeredAt w1) key now\<rparr>) of
                      (None, w2) \<Rightarrow> (Inr (), w2)
                    | (Some eng, w2) \<Rightarrow>
                        (if conversation_of w2 sender = None then (Inr (), w2)
                         else
                           (case send_parts d sender (encodeCatchUpParts (the g0) copyId (eo_exportCatchUp (d_engine d) eng)) w2 of
                              (True, w3) \<Rightarrow> (Inr (), w3)
                            | (False, w3) \<Rightarrow> (Inr (), w3\<lparr>w_answeredAt := map_del (w_answeredAt w3) key\<rparr>))))))))"

section \<open>The newcomer's side\<close>

text \<open>A decoded part has \<open>0 \<le> i < n\<close>; outside that an array slot reads as undefined.\<close>

definition part_at :: "string option list \<Rightarrow> int \<Rightarrow> string option" where
  "part_at ps i = (if 0 \<le> i \<and> nat i < length ps then ps ! nat i else None)"

definition join_parts :: "string option list \<Rightarrow> string" where
  "join_parts ps = concat (map (\<lambda>p. case p of None \<Rightarrow> [] | Some s \<Rightarrow> s) ps)"

text \<open>One part of the copy kept under \<open>key\<close>: the joined text when it was the last one missing.\<close>

definition add_part :: "string \<Rightarrow> PersonaCatchUpPartWire \<Rightarrow> (string, Copy) jsmap \<Rightarrow>
    string option \<times> (string, Copy) jsmap" where
  "add_part key wire cs =
     (let n = nat (cu_n wire);
          (copy, cs1) = map_entry \<lparr>cp_parts = replicate n None, cp_have = 0, cp_chars = 0\<rparr> cs key in
      if length (cp_parts copy) \<noteq> n \<or> part_at (cp_parts copy) (cu_i wire) \<noteq> None then (None, cs1)
      else
        (let chars = cp_chars copy + utf16_length (cu_d wire) in
         if chars > MAX_COPY_CHARS then (None, map_del cs1 key)
         else
           (let copy1 = \<lparr>cp_parts = (cp_parts copy)[nat (cu_i wire) := Some (cu_d wire)],
                         cp_have = cp_have copy + 1, cp_chars = chars\<rparr> in
            if cp_have copy1 < cu_n wire then (None, map_set cs1 key copy1)
            else (Some (join_parts (cp_parts copy1)), map_del cs1 key))))"

definition copy_key :: "string \<Rightarrow> string \<Rightarrow> string \<Rightarrow> string" where
  "copy_key g sender s = g @ '':'' @ sender @ '':'' @ s"

definition take_copy :: "'e deps \<Rightarrow> string \<Rightarrow> string \<Rightarrow> 'e world \<Rightarrow> 'e world" where
  "take_copy d g data w =
     (case getPersonasEngine d (Some g) w of
        (None, w1) \<Rightarrow> w1
      | (Some eng, w1) \<Rightarrow>
          (case eo_importCatchUp (d_engine d) (b64_decode data) eng of
             (Inl _, eng1) \<Rightarrow> put_engine g eng1 w1
           | (Inr _, eng1) \<Rightarrow>
               snd (markDone d g
                 ((put_engine g eng1 w1)\<lparr>w_copies := filter (\<lambda>(k, _). \<not> starts_with k (g @ '':'')) (w_copies w1)\<rparr>))))"

definition ingestCatchUpPart :: "'e deps \<Rightarrow> PersonaCatchUpPartWire \<Rightarrow> string option \<Rightarrow> 'e world \<Rightarrow> 'e world" where
  "ingestCatchUpPart d wire sender0 w =
     (let g = cu_g wire; grp = conversation_of w g in
      if catchUpState w (Some g) = CatchUpDone then w
      else if \<not> isPersonasGroup (w_phantom w) grp then w
      else if \<not> truthy_str sender0 \<or> grp = None \<or> \<not> isAdmin (the grp) (the sender0) then w
      else
        (case add_part (copy_key g (the sender0) (cu_s wire)) wire (w_copies w) of
           (None, cs) \<Rightarrow> w\<lparr>w_copies := cs\<rparr>
         | (Some data, cs) \<Rightarrow> take_copy d g data (w\<lparr>w_copies := cs\<rparr>)))"

section \<open>Collecting the parts of a copy\<close>

text \<open>The copy holding exactly the parts with indices in \<open>I\<close>, of \<open>n\<close> parts \<open>f 0, f 1, \<dots>\<close>.\<close>

definition partial_copy :: "nat \<Rightarrow> (nat \<Rightarrow> string) \<Rightarrow> nat set \<Rightarrow> Copy" where
  "partial_copy n f I =
     \<lparr>cp_parts = map (\<lambda>i. if i \<in> I then Some (f i) else None) [0..<n],
      cp_have = int (card I), cp_chars = (\<Sum>i\<in>I. utf16_length (f i))\<rparr>"

definition holds_copy :: "(string, Copy) jsmap \<Rightarrow> string \<Rightarrow> nat \<Rightarrow> (nat \<Rightarrow> string) \<Rightarrow> nat set \<Rightarrow> bool" where
  "holds_copy cs key n f I =
     (case map_get cs key of None \<Rightarrow> I = {} | Some c \<Rightarrow> c = partial_copy n f I)"

lemma join_all: "{..<n} \<subseteq> I \<Longrightarrow> join_parts (cp_parts (partial_copy n f I)) = concat (map f [0..<n])"
  by (auto simp: join_parts_def partial_copy_def o_def subset_iff intro!: arg_cong [of _ _ concat])

lemma partial_insert:
  "i < n \<Longrightarrow> (cp_parts (partial_copy n f I))[i := Some (f i)] = cp_parts (partial_copy n f (insert i I))"
  by (rule nth_equalityI) (auto simp: partial_copy_def nth_list_update)

lemma add_part_step:
  assumes "holds_copy cs key n f I" and "i < n" and "i \<notin> I" and "finite I"
    and "cu_i wire = int i" and "cu_n wire = int n" and "cu_d wire = f i"
    and "(\<Sum>j\<in>insert i I. utf16_length (f j)) \<le> MAX_COPY_CHARS"
  shows "if card I + 1 < n
    then fst (add_part key wire cs) = None \<and> holds_copy (snd (add_part key wire cs)) key n f (insert i I)
    else fst (add_part key wire cs) = Some (join_parts (cp_parts (partial_copy n f (insert i I))))"
proof -
  have empty: "partial_copy n f {} = \<lparr>cp_parts = replicate n None, cp_have = 0, cp_chars = 0\<rparr>"
    by (simp add: partial_copy_def map_replicate_trivial map_replicate_const)
  obtain cs1 where e: "map_entry \<lparr>cp_parts = replicate n None, cp_have = 0, cp_chars = 0\<rparr> cs key = (partial_copy n f I, cs1)"
    using assms(1) empty by (cases "map_get cs key") (auto simp: holds_copy_def map_entry_def)
  have l: "length (cp_parts (partial_copy n f I)) = n" and a: "part_at (cp_parts (partial_copy n f I)) (int i) = None"
    using assms(2,3) by (auto simp: partial_copy_def part_at_def)
  have c: "cp_chars (partial_copy n f I) + utf16_length (f i) = (\<Sum>j\<in>insert i I. utf16_length (f j))"
    using assms(3,4) by (simp add: partial_copy_def)
  have h: "cp_have (partial_copy n f I) + 1 = int (card (insert i I))" using assms(3,4) by (simp add: partial_copy_def)
  have copy1: "\<lparr>cp_parts = (cp_parts (partial_copy n f I))[i := Some (f i)], cp_have = cp_have (partial_copy n f I) + 1,
      cp_chars = cp_chars (partial_copy n f I) + utf16_length (f i)\<rparr> = partial_copy n f (insert i I)"
    unfolding partial_insert [OF assms(2)] c h by (simp add: partial_copy_def)
  have "add_part key wire cs =
      (if int (card (insert i I)) < int n then (None, map_set cs1 key (partial_copy n f (insert i I)))
       else (Some (join_parts (cp_parts (partial_copy n f (insert i I)))), map_del cs1 key))"
    using assms(5-8) e l a c copy1 unfolding add_part_def
    by (simp add: Let_def partial_copy_def)
  then show ?thesis using assms(3,4) by (simp add: holds_copy_def)
qed

section \<open>Taking in a copy\<close>

lemma map_has_set [simp]: "map_has (map_set m k v) k' = (k' = k \<or> map_has m k')"
  by (simp add: map_has_get)

lemma getPersonasEngine_built:
  assumes "isPersonasEngineEnabled (w_env w)" and "g \<noteq> []" and "engine_of w g = Some eng"
  shows "getPersonasEngine d (Some g) w = (Some eng, w)"
  using assms by (cases "map_get (w_runtimes w) g")
    (simp_all add: getPersonasEngine_def truthy_str_def runtimeFor_def map_entry_def engine_of_def)

lemma markDone_done: "engine_of w g = Some eng \<Longrightarrow> isPersonasEngineEnabled (w_env w) \<Longrightarrow> g \<noteq> [] \<Longrightarrow>
   catchUpState (snd (markDone d g w)) (Some g) = CatchUpDone \<and> engine_of (snd (markDone d g w)) g = Some eng"
proof -
  assume e: "engine_of w g = Some eng" "isPersonasEngineEnabled (w_env w)" "g \<noteq> []"
  let ?w1 = "w\<lparr>w_catchUp := set_saved g \<lparr>sv_state = CatchUpDone, sv_requestedAt = None\<rparr> (w_catchUp w)\<rparr>"
  have g: "getPersonasEngine d (Some g) ?w1 = (Some eng, ?w1)"
    using e by (intro getPersonasEngine_built) (simp_all add: engine_of_def)
  have fr: "w_catchUp (snd (save_state d g st v)) = w_catchUp v" "w_catchUp (extras_changed d h v) = w_catchUp v"
    for st v h by (simp_all add: save_state_def extras_changed_def bump_def case_prod_unfold Let_def)
  show ?thesis
  proof (cases "eo_exportMemberState (d_engine d) eng")
    case (Inl err)
    then show ?thesis using e g by (simp add: markDone_def Let_def catchUpState_def truthy_str_def engine_of_def)
  next
    case (Inr st)
    obtain r w2 where s: "save_state d g st ?w1 = (r, w2)" by (cases "save_state d g st ?w1")
    have "w_catchUp w2 = w_catchUp ?w1" "engine_of w2 g = Some eng"
      using fr(1) [of st ?w1] save_state_frame [OF s] s e by (simp_all add: engine_of_def)
    with s Inr g e fr(2) show ?thesis
      by (cases r) (simp_all add: markDone_def Let_def catchUpState_def truthy_str_def)
  qed
qed

text \<open>The receiver's side when a copy may be taken: a personas group, an admin sending, an engine.\<close>

definition may_take_copy :: "string \<Rightarrow> string \<Rightarrow> 'e \<Rightarrow> 'e world \<Rightarrow> bool" where
  "may_take_copy g sender eng w =
     (g \<noteq> [] \<and> sender \<noteq> [] \<and> isPersonasEngineEnabled (w_env w) \<and> engine_of w g = Some eng
      \<and> catchUpState w (Some g) \<noteq> CatchUpDone
      \<and> (case conversation_of w g of None \<Rightarrow> False | Some c \<Rightarrow> isPersonasGroup (w_phantom w) (Some c) \<and> isAdmin c sender))"

lemma may_take_copies [simp]: "may_take_copy g sender eng (w\<lparr>w_copies := cs\<rparr>) = may_take_copy g sender eng w"
  by (simp add: may_take_copy_def engine_of_def catchUpState_def conversation_of_def split: option.split)

lemma ingest_admitted:
  assumes "may_take_copy g sender eng w" and "cu_g wire = g"
  shows "ingestCatchUpPart d wire (Some sender) w =
    (case add_part (copy_key g sender (cu_s wire)) wire (w_copies w) of
       (None, cs) \<Rightarrow> w\<lparr>w_copies := cs\<rparr>
     | (Some data, cs) \<Rightarrow> take_copy d g data (w\<lparr>w_copies := cs\<rparr>))"
  using assms by (auto simp: ingestCatchUpPart_def may_take_copy_def truthy_str_def Let_def split: option.splits)

lemma take_copy_imports:
  assumes "may_take_copy g sender eng w" and "eo_importCatchUp (d_engine d) (b64_decode data) eng = (Inr added, eng1)"
  shows "catchUpState (take_copy d g data w) (Some g) = CatchUpDone \<and> engine_of (take_copy d g data w) g = Some eng1"
proof -
  have g: "getPersonasEngine d (Some g) w = (Some eng, w)"
    using assms(1) by (intro getPersonasEngine_built) (simp_all add: may_take_copy_def)
  have "map_has (w_runtimes w) g"
    using assms(1) by (cases "map_get (w_runtimes w) g") (simp_all add: may_take_copy_def engine_of_def map_has_get)
  then have "engine_of ((put_engine g eng1 w)\<lparr>w_copies := cs\<rparr>) g = Some eng1" for cs
    using engine_of_put [of w g eng1 g] by (simp add: engine_of_def)
  then show ?thesis
    using assms by (simp add: take_copy_def g markDone_done may_take_copy_def)
qed

text \<open>Whatever order the missing parts come in, the last of them completes the copy.\<close>

lemma parts_in_any_order:
  assumes "may_take_copy g sender eng w" and "holds_copy (w_copies w) (copy_key g sender s) n f I"
    and "distinct is" and "set is \<inter> I = {}" and "set is \<union> I = {..<n}" and "is \<noteq> []"
    and "(\<Sum>j<n. utf16_length (f j)) \<le> MAX_COPY_CHARS"
    and "\<And>i. i < n \<Longrightarrow> wire i = \<lparr>cu_g = g, cu_s = s, cu_i = int i, cu_n = int n, cu_d = f i\<rparr>"
    and "eo_importCatchUp (d_engine d) (b64_decode (concat (map f [0..<n]))) eng = (Inr added, eng1)"
  shows "let w' = fold (\<lambda>i. ingestCatchUpPart d (wire i) (Some sender)) is w
         in catchUpState w' (Some g) = CatchUpDone \<and> engine_of w' g = Some eng1"
  using assms
proof (induction "is" arbitrary: w I)
  case (Cons i "is")
  have i: "i < n" "i \<notin> I" and I: "finite I" "I \<subseteq> {..<n}"
    using Cons.prems(4,5) by (auto intro: finite_subset [of I "{..<n}"])
  let ?key = "copy_key g sender s"
  have sums: "(\<Sum>j\<in>insert i I. utf16_length (f j)) \<le> MAX_COPY_CHARS"
    using sum_mono2 [of "{..<n}" "insert i I" "\<lambda>j. utf16_length (f j)"] i I Cons.prems(7) by simp
  note step = add_part_step [OF Cons.prems(2) i I(1), of "wire i", simplified Cons.prems(8) [OF i(1)], simplified, OF sums]
  have wire: "cu_g (wire i) = g" "cu_s (wire i) = s" using Cons.prems(8) [OF i(1)] by simp_all
  note ing = ingest_admitted [OF Cons.prems(1) wire(1), of d, unfolded wire(2)]
  have card: "card I + length (i # is) = n"
    using Cons.prems(3-5) I(1) distinct_card [of "i # is"] card_Un_disjoint [of "set (i # is)" I] by simp
  obtain r cs where ap: "add_part ?key (wire i) (w_copies w) = (r, cs)" by (cases "add_part ?key (wire i) (w_copies w)")
  show ?case
  proof (cases "is = []")
    case True
    with card step ap Cons.prems(8) [OF i(1)] have "r = Some (join_parts (cp_parts (partial_copy n f (insert i I))))" by simp
    moreover have "{..<n} \<subseteq> insert i I" using Cons.prems(5) True by auto
    ultimately show ?thesis
      using True ap ing take_copy_imports [of g sender eng "w\<lparr>w_copies := cs\<rparr>" d] Cons.prems(1,9)
      by (simp add: join_all)
  next
    case False
    with card have "card I + 1 < n" by (cases "is") simp_all
    with step ap Cons.prems(8) [OF i(1)] have r: "r = None" "holds_copy cs ?key n f (insert i I)" by simp_all
    have "ingestCatchUpPart d (wire i) (Some sender) w = w\<lparr>w_copies := cs\<rparr>" using ing ap r(1) by simp
    moreover have "let w' = fold (\<lambda>i. ingestCatchUpPart d (wire i) (Some sender)) is (w\<lparr>w_copies := cs\<rparr>)
         in catchUpState w' (Some g) = CatchUpDone \<and> engine_of w' g = Some eng1"
      by (rule Cons.IH [where I = "insert i I"]) (use Cons.prems r(2) False in auto)
    ultimately show ?thesis by simp
  qed
qed simp

lemma mset_map_permuted: "mset ys = mset (map h xs) \<Longrightarrow> \<exists>zs. mset zs = mset xs \<and> ys = map h zs"
proof (induction xs arbitrary: ys)
  case (Cons x xs)
  then have "h x \<in> set ys" by (metis list.set_intros(1) list.simps(9) mset_eq_setD)
  then obtain us vs where y: "ys = us @ h x # vs" by (meson split_list)
  with Cons.prems have "mset (us @ vs) = mset (map h xs)" by simp
  then obtain zs where z: "mset zs = mset xs" "us @ vs = map h zs" using Cons.IH by blast
  then obtain as bs where "zs = as @ bs" "us = map h as" "vs = map h bs"
    by (metis append_eq_map_conv)
  with y z(1) show ?case by (intro exI [of _ "as @ x # bs"]) simp
qed simp

lemma utf16_length_append [simp]: "utf16_length (a @ b) = utf16_length a + utf16_length b"
  by (simp add: utf16_length_def)

lemma sum_utf16_concat: "(\<Sum>j<n. utf16_length (f j)) = utf16_length (concat (map f [0..<n]))"
  by (induction n) simp_all

lemma construct_env: "w_env (construct_engine d g w) = w_env w"
proof -
  obtain j m w1 where o: "open_and_load d g w = ((j, m), w1)" by (metis prod.exhaust)
  have e: "w_env w1 = w_env w" using open_and_load_frame [OF o] by simp
  have s: "save_new_member d g x v = (ok, v') \<Longrightarrow> w_env v' = w_env v" for x v ok v'
    by (auto simp: save_new_member_def split: sum.splits prod.splits save_result.splits dest: save_state_frame)
  have i: "w_env (initPersonasCatchUp d g f v) = w_env v" for f v
    by (simp add: initPersonasCatchUp_def extras_changed_def bump_def)
  show ?thesis
    unfolding construct_engine_def o prod.case
    by (cases m) (auto simp: e i set_runtime_def Let_def split: sum.split prod.split dest: s)
qed

lemma getPersonasEngine_env: "w_env (snd (getPersonasEngine d g w)) = w_env w"
  by (auto simp: getPersonasEngine_def runtimeFor_def Let_def construct_env split: prod.split)

section \<open>A group that needs its history\<close>

definition demo_conversation :: conversation where
  "demo_conversation = the (map_get (env_conversations demo_env) ''G'')"

text \<open>The demo group, with the history missing; and the same with alice as its one admin.\<close>

definition demo_needed :: "nat world" where
  "demo_needed = demo_world\<lparr>w_catchUp :=
     [(''G'', \<lparr>gc_saved = Some \<lparr>sv_state = CatchUpNeeded, sv_requestedAt = None\<rparr>, gc_lastRequestSentAt = 0\<rparr>)]\<rparr>"

definition demo_late :: "nat world" where
  "demo_late = demo_needed\<lparr>w_env := demo_env\<lparr>env_conversations :=
     [(''G'', demo_conversation\<lparr>cv_weAreAdmin := False, cv_admins := [''alice'']\<rparr>)]\<rparr>\<rparr>"

lemma demo_late_ready: "may_take_copy ''G'' ''alice'' 0 demo_late"
  by (simp add: may_take_copy_def demo_late_def demo_needed_def demo_world_def demo_env_def demo_conversation_def
      demo_group_def isPersonasEngineEnabled_def truthy_str_def engine_of_def conversation_of_def catchUpState_def
      saved_at_def map_get_def isPersonasGroup_def map_has_def isAdmin_def)

lemma demo_needed_engine:
  "getPersonasEngine d (Some ''G'') demo_needed = (Some 0, demo_needed)"
  by (intro getPersonasEngine_built)
     (simp_all add: demo_needed_def demo_world_def demo_env_def isPersonasEngineEnabled_def truthy_str_def engine_of_def map_get_def)

section \<open>What catch-up guarantees\<close>

text \<open>C13. Only an admin's copy is taken: a part changes anything at all (the copies being collected,
  the engine, the group's standing) only if the group still needs its history, is one of our
  personas groups, and the sender is one of its admins.\<close>

theorem copies_only_from_admins:
  assumes "ingestCatchUpPart d wire sender w \<noteq> w"
  shows "catchUpState w (Some (cu_g wire)) \<noteq> CatchUpDone
    \<and> (\<exists>c sid. conversation_of w (cu_g wire) = Some c \<and> isPersonasGroup (w_phantom w) (Some c)
         \<and> sender = Some sid \<and> isAdmin c sid)"
  using assms by (auto simp: ingestCatchUpPart_def Let_def truthy_str_def split: if_splits)

theorem copies_only_from_admins_witness:
  "ingestCatchUpPart (demo_deps SaveOk) \<lparr>cu_g = ''G'', cu_s = ''s'', cu_i = 0, cu_n = 2, cu_d = ''aa''\<rparr> (Some ''alice'') demo_late \<noteq> demo_late
   \<and> (\<exists>c. conversation_of demo_late ''G'' = Some c \<and> isAdmin c ''alice'')"
proof -
  let ?wire = "\<lparr>cu_g = ''G'', cu_s = ''s'', cu_i = 0, cu_n = 2, cu_d = ''aa''\<rparr>"
  have g: "cu_g ?wire = ''G''" by simp
  have "w_copies (ingestCatchUpPart (demo_deps SaveOk) ?wire (Some ''alice'') demo_late) \<noteq> w_copies demo_late"
    unfolding ingest_admitted [OF demo_late_ready g]
    by (simp add: add_part_def map_entry_def demo_late_def demo_needed_def demo_world_def map_get_def part_at_def
        utf16_length_def utf16_units_def code_of_def MAX_COPY_CHARS_def map_set_def)
  then have "ingestCatchUpPart (demo_deps SaveOk) ?wire (Some ''alice'') demo_late \<noteq> demo_late" by metis
  from this copies_only_from_admins [OF this] show ?thesis by auto
qed

text \<open>C12. A copy arrives: when every part of a history reaches a newcomer exactly once, in whatever
  order, from one admin, and the engine accepts the history, the engine is given exactly the
  admin's history and the newcomer is caught up.  (Within the limits of 10,000 parts and
  \<open>MAX_COPY_CHARS\<close>.)\<close>

theorem copy_arrives_in_any_order:
  assumes "may_take_copy g sender eng w" and "map_get (w_copies w) (copy_key g sender s) = None"
    and "part_count (b64_encode history) \<le> 10000" and "utf16_length (b64_encode history) \<le> MAX_COPY_CHARS"
    and "mset bodies = mset (encodeCatchUpParts g s history)"
    and "eo_importCatchUp (d_engine d) history eng = (Inr added, eng1)"
  shows "let w' = fold (\<lambda>body w. case decodeCatchUpPart (Some body) of
                         None \<Rightarrow> w | Some wire \<Rightarrow> ingestCatchUpPart d wire (Some sender) w) bodies w
         in catchUpState w' (Some g) = CatchUpDone \<and> engine_of w' g = Some eng1"
proof -
  let ?data = "b64_encode history" and ?n = "part_count (b64_encode history)"
  let ?f = "\<lambda>i. cu_d (catch_up_wire g s ?data i)"
  obtain "is" where "is": "mset is = mset [0..<?n]" "bodies = map (\<lambda>i. part_body (catch_up_wire g s ?data i)) is"
    using assms(5) unfolding encodeCatchUpParts_def Let_def by (metis mset_map_permuted)
  have d: "distinct is" "set is = {..<?n}" using "is"(1) by (metis distinct_upt mset_eq_imp_distinct_iff, metis atLeast_upt mset_eq_setD)
  have fold_eq: "fold (\<lambda>body w. case decodeCatchUpPart (Some body) of
        None \<Rightarrow> w | Some wire \<Rightarrow> ingestCatchUpPart d wire (Some sender) w) bodies w
      = fold (\<lambda>i. ingestCatchUpPart d (catch_up_wire g s ?data i) (Some sender)) is w"
    unfolding "is"(2) fold_map using d(2) assms(3) by (intro fold_cong) (simp_all add: parts_decode)
  have sum: "(\<Sum>j<?n. utf16_length (?f j)) = utf16_length ?data"
    unfolding sum_utf16_concat by (simp only: parts_concat)
  have "0 < ?n" by (simp add: part_count_def)
  then have "is \<noteq> []" using d(2) by (metis empty_iff lessThan_iff list.set(1))
  then show ?thesis
    unfolding fold_eq
    by (intro parts_in_any_order [where n = ?n and f = ?f and I = "{}" and s = s])
       (use assms d sum in \<open>simp_all add: holds_copy_def parts_concat, simp_all add: catch_up_wire_def\<close>)
qed

theorem copy_arrives_in_any_order_witness:
  "let w' = fold (\<lambda>body w. case decodeCatchUpPart (Some body) of
              None \<Rightarrow> w | Some wire \<Rightarrow> ingestCatchUpPart (demo_deps SaveOk) wire (Some ''alice'') w)
            (rev (encodeCatchUpParts ''G'' ''s'' ''history'')) demo_late
   in catchUpState w' (Some ''G'') = CatchUpDone \<and> engine_of w' ''G'' = Some 0"
proof (rule copy_arrives_in_any_order [OF demo_late_ready, where s = "''s''" and history = "''history''" and added = 1])
  show "part_count (b64_encode ''history'') \<le> 10000" by code_simp
  have "utf16_length (b64_encode ''history'') = 12" by code_simp
  then show "utf16_length (b64_encode ''history'') \<le> MAX_COPY_CHARS" by (simp add: MAX_COPY_CHARS_def)
qed (simp_all add: demo_late_def demo_needed_def demo_world_def map_get_def, simp add: demo_ops_def)



end
