(* ===== verification/Frames.thy ===== *)
theory Frames
  imports CatchUp
begin

text \<open>
  What the engine service and catch-up leave alone.

  The locale \<open>engine_frame\<close> is the contract of a part of the world that depends on none of the
  variables these services write; it follows that building an engine, saving, composing and taking
  in records keep that part.  \<open>service_frame\<close> adds the variables a send writes.  Both are interpreted
  on the parts of the world the later components reason about.
\<close>

locale engine_frame =
  fixes part :: "'e world \<Rightarrow> 'x"
  assumes part_ps: "part (w\<lparr>w_ps := a\<rparr>) = part w"
    and part_step: "part (w\<lparr>w_step := b\<rparr>) = part w"
    and part_runtimes: "part (w\<lparr>w_runtimes := c\<rparr>) = part w"
    and part_catchUp: "part (w\<lparr>w_catchUp := cu\<rparr>) = part w"
    and part_tickers: "part (w\<lparr>w_tickers := ti\<rparr>) = part w"
    and part_topics: "part (w\<lparr>w_topics := to\<rparr>) = part w"
    and part_pseudonyms: "part (w\<lparr>w_pseudonyms := ps\<rparr>) = part w"
    and part_own: "part (w\<lparr>w_ownRequests := ow\<rparr>) = part w"
    and part_received: "part (w\<lparr>w_received := re\<rparr>) = part w"
    and part_registry: "part (w\<lparr>w_registry := rg\<rparr>) = part w"
begin

lemmas part_simps [simp] =
  part_ps part_step part_runtimes part_catchUp part_tickers part_topics part_pseudonyms part_own
  part_received part_registry

lemma part_bump [simp]: "part (bump w) = part w"
  by (simp add: bump_def)

lemma part_save [simp]: "part (snd (save_state d g m w)) = part w"
  by (simp add: save_state_def case_prod_unfold Let_def)

lemma part_extras [simp]: "part (extras_changed d h w) = part w"
  by (simp add: extras_changed_def)

lemma part_put_engine [simp]: "part (put_engine g e w) = part w"
  by (simp add: put_engine_def split: option.split)

lemma part_restore: "x \<in> set (world_extras d now) \<Longrightarrow> part (ex_restore x g j w) = part w"
  by (auto simp: world_extras_def)

lemma part_load:
  assumes "loadPersonasState ae (world_extras d now) r t g (w, ps) = (m, w1, ps1)"
  shows "part w1 = part w"
  using load_app [of ae "world_extras d now" r t g w ps] assms
    restore_extras_frame [of "world_extras d now" part g, OF part_restore]
  by auto

lemma part_open_and_load: "open_and_load d g w = (jm, w1) \<Longrightarrow> part w1 = part w"
  unfolding open_and_load_def
  by (auto split: option.splits if_splits prod.splits dest: part_load)

lemma part_save_new: "part (snd (save_new_member d g e w)) = part w"
proof (cases "eo_exportMemberState (d_engine d) e")
  case (Inr st)
  obtain r w1 where s: "save_state d g st w = (r, w1)" by (cases "save_state d g st w")
  then have "part w1 = part w" using part_save [of d g st w] by simp
  with Inr s show ?thesis by (cases r) (simp_all add: save_new_member_def)
qed (simp add: save_new_member_def)

lemma part_init [simp]: "part (initPersonasCatchUp d g f w) = part w"
  by (simp add: initPersonasCatchUp_def)

lemma part_set_runtime [simp]: "part (set_runtime g r w) = part w"
  by (simp add: set_runtime_def)

lemma part_construct [simp]: "part (construct_engine d g w) = part w"
proof -
  obtain j m w1 where o: "open_and_load d g w = ((j, m), w1)" by (metis prod.exhaust)
  show ?thesis
    unfolding construct_engine_def o prod.case
    using part_open_and_load [OF o] part_save_new [of d g]
    by (cases m) (simp_all add: Let_def case_prod_unfold split: sum.split)
qed

lemma part_engine [simp]: "part (snd (getPersonasEngine d g w)) = part w"
  by (simp add: getPersonasEngine_def runtimeFor_def Let_def case_prod_unfold)

lemma part_engine_eq: "getPersonasEngine d g w = (e, w1) \<Longrightarrow> part w1 = part w"
  using part_engine [of d g w] by simp

lemma part_persist: "part (snd (persistAfterEmit d g e w)) = part w"
proof (cases "eo_exportMemberState (d_engine d) e")
  case (Inr st)
  obtain r w1 where s: "save_state d g st w = (r, w1)" by (cases "save_state d g st w")
  then have "part w1 = part w" using part_save [of d g st w] by simp
  with Inr s show ?thesis by (cases r) (simp_all add: persistAfterEmit_def)
qed (simp add: persistAfterEmit_def)

lemma part_emit: "part (snd (emit_and_persist d g req e w)) = part w"
proof -
  obtain r e1 where em: "eo_emit (d_engine d) req e = (r, e1)" by (cases "eo_emit (d_engine d) req e")
  obtain ok w1 where p: "persistAfterEmit d g e1 (put_engine g e1 w) = (ok, w1)"
    by (cases "persistAfterEmit d g e1 (put_engine g e1 w)")
  then have "part w1 = part w" using part_persist [of d g e1 "put_engine g e1 w"] by simp
  with em p show ?thesis by (cases r; cases ok) (simp_all add: emit_and_persist_def)
qed

lemma part_selfIngest: "part (snd (selfIngest d g em w)) = part w"
  by (auto simp: selfIngest_def Let_def split: prod.split option.split sum.split)

lemma part_compose:
  "part (snd (compose_strict d g req w)) = part w" "part (snd (compose_caught d g req w)) = part w"
proof -
  obtain eo w1 where g: "getPersonasEngine d g w = (eo, w1)" by (cases "getPersonasEngine d g w")
  have w1: "part w1 = part w" using part_engine_eq [OF g] .
  have "part (snd (compose_strict d g req w)) = part w \<and> part (snd (compose_caught d g req w)) = part w"
  proof (cases eo)
    case None
    then show ?thesis using g w1 by (simp add: compose_strict_def compose_caught_def)
  next
    case (Some eng)
    obtain r w2 where e: "emit_and_persist d (the g) req eng w1 = (r, w2)" by (cases "emit_and_persist d (the g) req eng w1")
    have w2: "part w2 = part w" using part_emit [of d "the g" req eng w1] e w1 by simp
    show ?thesis
    proof (cases r)
      case (Inl err)
      then show ?thesis using g Some e w2 by (simp add: compose_strict_def compose_caught_def)
    next
      case (Inr em)
      obtain x w3 where i: "selfIngest d (the g) em w2 = (x, w3)" by (cases "selfIngest d (the g) em w2")
      have "part w3 = part w" using part_selfIngest [of d "the g" em w2] i w2 by simp
      then show ?thesis using g Some e Inr i by (cases x) (simp_all add: compose_strict_def compose_caught_def)
    qed
  qed
  then show "part (snd (compose_strict d g req w)) = part w" "part (snd (compose_caught d g req w)) = part w" by simp_all
qed

lemma part_with_body [simp]: "part (snd (with_body enc rw)) = part (snd rw)"
  by (simp add: with_body_def case_prod_unfold)

lemma part_composers [simp]:
  "part (snd (emitAndSelfIngest d g req w)) = part w" "part (snd (emitBadgeRecord d g req w)) = part w"
  "part (snd (commitPersonaScan d g w)) = part w" "part (snd (composePersonaRate d g eh delta w)) = part w"
  "part (snd (composePersonaVote d g eh i w)) = part w" "part (snd (composePersonaPoll d g pd t w)) = part w"
  by (simp_all add: emitAndSelfIngest_def emitBadgeRecord_def commitPersonaScan_def composePersonaRate_def
      composePersonaVote_def composePersonaPoll_def part_compose)

lemma part_composePost [simp]: "part (snd (composePersonaPost d g text choice w)) = part w"
  using part_compose(2) [of d g "post_request text choice" w]
  by (cases "compose_caught d g (post_request text choice) w") (auto simp: composePersonaPost_def split: sum.split)

lemma part_markDone [simp]: "part (snd (markDone d g w)) = part w"
proof -
  let ?w1 = "w\<lparr>w_catchUp := set_saved g \<lparr>sv_state = CatchUpDone, sv_requestedAt = None\<rparr> (w_catchUp w)\<rparr>"
  obtain e w2 where g: "getPersonasEngine d (Some g) ?w1 = (e, w2)" by (cases "getPersonasEngine d (Some g) ?w1")
  have w2: "part w2 = part w" using part_engine_eq [OF g] by simp
  have s: "save_state d g st w2 = (r, w3) \<Longrightarrow> part w3 = part w" for st r w3
    using part_save [of d g st w2] w2 by simp
  show ?thesis
  proof (cases "case e of None \<Rightarrow> Inr None | Some e \<Rightarrow> eo_exportMemberState (d_engine d) e")
    case (Inl err)
    then show ?thesis using g w2 by (simp add: markDone_def Let_def)
  next
    case (Inr st)
    obtain r w3 where sv: "save_state d g st w2 = (r, w3)" by (cases "save_state d g st w2")
    with Inr g s [OF sv] show ?thesis by (cases r) (simp_all add: markDone_def Let_def)
  qed
qed

end

text \<open>The parts a send keeps too.\<close>

locale service_frame = engine_frame part for part :: "'e world \<Rightarrow> 'x" +
  assumes part_out: "part (w\<lparr>w_out := ou\<rparr>) = part w"
    and part_messages: "part (w\<lparr>w_messages := me\<rparr>) = part w"
begin

lemma part_enqueue [simp]: "part (snd (enqueue d to og hid ts w)) = part w"
proof -
  have "part (w\<lparr>w_registry := a, w_messages := b, w_out := c\<rparr>) = part w" for a b c
    using part_out part_messages part_registry by metis
  then show ?thesis by (simp add: enqueue_def case_prod_unfold Let_def)
qed

lemma part_enqueueMessage [simp]: "part (snd (enqueueMessageForSend d to body hid w)) = part w"
  by (simp add: enqueueMessageForSend_def)

lemma part_sendRequest [simp]: "part (sendRequest d g w) = part w"
  by (simp add: sendRequest_def Let_def case_prod_unfold)

lemma part_ensureCaughtUp [simp]: "part (snd (ensureCaughtUp d c w)) = part w"
proof -
  obtain e w1 where g: "getPersonasEngine d (cv_groupId c) w = (e, w1)" by (cases "getPersonasEngine d (cv_groupId c) w")
  have w1: "part w1 = part w" using part_engine_eq [OF g] .
  obtain r w2 where m: "markDone d (the (cv_groupId c)) w1 = (r, w2)" by (cases "markDone d (the (cv_groupId c)) w1")
  have "part w2 = part w" using part_markDone [of d "the (cv_groupId c)" w1] m w1 by simp
  with g w1 m show ?thesis
    by (cases e; cases r) (simp_all add: ensureCaughtUp_def Let_def)
qed

end

text \<open>The clock, the accounts and conversations; the bundles; the variables of the later components.\<close>

definition client_state :: "'e world \<Rightarrow>
    (string, GroupJoin) jsmap \<times> string list \<times> bool \<times> int \<times> string list \<times> badge_selection \<times> (string, int) jsmap" where
  "client_state w = (w_joins w, w_warmed w, w_scanInFlight w, w_lastScanProofMs w, w_dismissed w, w_badge w, w_answeredAt w)"

interpretation env_frame: service_frame "w_env :: 'e world \<Rightarrow> env"
  by unfold_locales simp_all

interpretation phantom_frame: service_frame "w_phantom :: 'e world \<Rightarrow> phantom"
  by unfold_locales simp_all

interpretation client_frame: service_frame "client_state :: 'e world \<Rightarrow> _"
  by unfold_locales (simp_all add: client_state_def)

interpretation out_frame: engine_frame "w_out :: 'e world \<Rightarrow> sent_message list"
  by unfold_locales simp_all

interpretation messages_frame: engine_frame "w_messages :: 'e world \<Rightarrow> (string, Message) jsmap"
  by unfold_locales simp_all

section \<open>When composing succeeds\<close>

lemma compose_succeeds:
  assumes "isPersonasEngineEnabled (w_env w)" and "g \<noteq> []" and "engine_of w g = Some eng"
    and "eo_emit (d_engine d) req eng = (Inr em, eng1)" and "eo_exportMemberState (d_engine d) eng1 = Inr (Some st)"
    and "\<forall>t. \<exists>status. fst (eo_ingest (d_engine d) (em_bytes em) t eng1) = Inr status"
    and "group_open (w_ps w) g key folder m" and "d_save d (w_step w) = SaveOk"
  shows "\<exists>w' t. compose_strict d (Some g) req w = (Inr (Some em), w') \<and> compose_caught d (Some g) req w = (Inr (Some em), w')
    \<and> engine_of w' g = Some (snd (eo_ingest (d_engine d) (em_bytes em) t eng1)) \<and> w_catchUp w' = w_catchUp w"
proof -
  let ?w0 = "put_engine g eng1 w"
  have has: "map_has (w_runtimes w) g" using assms(3) by (cases "map_get (w_runtimes w) g") (simp_all add: engine_of_def map_has_get)
  have e: "getPersonasEngine d (Some g) w = (Some eng, w)" using assms(1-3) by (rule getPersonasEngine_built)
  have o: "group_open (w_ps ?w0) g key folder m" using assms(7) by simp
  have step: "w_step ?w0 = w_step w" by (simp add: put_engine_def split: option.split)
  obtain w1 where s: "save_state d g (Some st) ?w0 = (Saved, w1)" and cu: "w_catchUp w1 = w_catchUp ?w0"
    using assms(8) unfolding save_state_def save_open_group [OF o] step by (auto simp: Let_def bump_def)
  have en: "engine_of w1 g = Some eng1"
    using save_state_frame [OF s] engine_of_put [OF has, of eng1 g] by (simp add: engine_of_def)
  obtain sentAt reg where st: "stampOwnRecord (env_now (w_env w1)) (b64_encode (em_bytes em)) (w_registry w1) = (sentAt, reg)"
    by (cases "stampOwnRecord (env_now (w_env w1)) (b64_encode (em_bytes em)) (w_registry w1)")
  let ?t = "ingestTimestampFor (w_phantom w1) (env_now (w_env w1)) (Some g) (Some sentAt)"
  obtain status e2 where i: "eo_ingest (d_engine d) (em_bytes em) ?t eng1 = (Inr status, e2)"
    using assms(6) by (metis prod.collapse)
  let ?w2 = "put_engine g e2 (w1\<lparr>w_registry := reg\<rparr>)"
  have self: "selfIngest d g em w1 = (Inr (), ?w2)" using st en i by (simp add: selfIngest_def Let_def engine_of_def)
  have "map_has (w_runtimes w1) g" using en by (cases "map_get (w_runtimes w1) g") (simp_all add: engine_of_def map_has_get)
  then have "engine_of ?w2 g = Some (snd (eo_ingest (d_engine d) (em_bytes em) ?t eng1))" using i by (simp add: engine_of_put)
  moreover have "w_catchUp ?w2 = w_catchUp w" using cu by (simp add: put_engine_def split: option.split)
  moreover have "emit_and_persist d g req eng w = (Inr em, w1)" using assms(4,5) s by (simp add: emit_and_persist_def persistAfterEmit_def)
  ultimately show ?thesis using e self by (auto simp: compose_strict_def compose_caught_def)
qed

end
