(* ===== verification/Membership.thy ===== *)
theory Membership
  imports Frames
begin

text \<open>
  \<^verbatim>\<open>ts/services/personasSealedSender.preload.ts\<close> and \<^verbatim>\<open>ts/services/personasMembership.preload.ts\<close>: the
  one warm-up message of a group, and the join that every persona action makes sure of first.

  \<^verbatim>\<open>ensurePersonaJoined\<close> is split where it suspends: \<open>join_enter\<close> runs up to starting the join (no
  suspension between looking at the join under way and recording a new one), \<open>join_run\<close> is the join
  itself.  \<open>ensurePersonaJoined\<close> is both in sequence; \<open>join_events\<close> is any interleaving of several
  callers.

  Main facts: overlapping persona actions send at most one join; a join that is sent names our own
  account and is attributable; a join whose send fails is taken for a membership afterwards.
\<close>

section \<open>Sealed sender\<close>

definition WARM_UP_BODY :: string where
  "WARM_UP_BODY = ''(setting up private posting for this group '' @ [char_of (226::nat), char_of (128::nat), char_of (148::nat)]
     @ '' you can ignore this message)''"

record SealedSenderReadiness =
  sr_ready :: bool
  sr_missing :: "string list"
  sr_total :: nat

definition getSealedSenderReadiness :: "conversation \<Rightarrow> SealedSenderReadiness" where
  "getSealedSenderReadiness c =
     (let others = filter (\<lambda>m. \<not> mb_isMe m) (cv_members c);
          missing = map (\<lambda>m. if mb_title m \<noteq> [] then mb_title m else mb_conversationId m)
                      (filter (\<lambda>m. \<not> truthy_str (mb_profileKey m)) others)
      in \<lparr>sr_ready = (missing = []), sr_missing = missing, sr_total = length others\<rparr>)"

definition isSealedSenderReady :: "conversation \<Rightarrow> bool" where
  "isSealedSenderReady c = sr_ready (getSealedSenderReadiness c)"

text \<open>\<open>cid\<close> is the conversation's id.\<close>

definition ensureSealedSenderWarmedUp :: "'e deps \<Rightarrow> string \<Rightarrow> conversation \<Rightarrow> 'e world \<Rightarrow>
    SealedSenderReadiness \<times> 'e world" where
  "ensureSealedSenderWarmedUp d cid c w =
     (let before = getSealedSenderReadiness c in
      if \<not> isPersonasEngineEnabled (w_env w) then (before, w)
      else if sr_ready before then (before, w)
      else if cid \<in> set (w_warmed w) then (before, w)
      else
        (case enqueueMessageForSend d cid WARM_UP_BODY False (w\<lparr>w_warmed := cid # w_warmed w\<rparr>) of
           (True, w1) \<Rightarrow> (getSealedSenderReadiness c, w1)
         | (False, w1) \<Rightarrow> (getSealedSenderReadiness c, w1\<lparr>w_warmed := removeAll cid (w_warmed w1)\<rparr>)))"

section \<open>Membership\<close>

definition joinOf :: "string \<Rightarrow> 'e world \<Rightarrow> GroupJoin \<times> 'e world" where
  "joinOf g w =
     (let (entry, js) = map_entry \<lparr>gj_state = NotJoined, gj_inFlight = False\<rparr> (w_joins w) g in (entry, w\<lparr>w_joins := js\<rparr>))"

definition set_join :: "string \<Rightarrow> GroupJoin \<Rightarrow> 'e world \<Rightarrow> 'e world" where
  "set_join g e w = w\<lparr>w_joins := map_set (w_joins w) g e\<rparr>"

definition isRestoredMember :: "'e deps \<Rightarrow> string \<Rightarrow> 'e world \<Rightarrow> bool \<times> 'e world" where
  "isRestoredMember d g w0 =
     (let (entry, w) = joinOf g w0 in
      if gj_state entry = Joined then (True, w)
      else
        (case getPersonasEngine d (Some g) w of
           (None, w1) \<Rightarrow> (False, w1)
         | (Some eng, w1) \<Rightarrow>
             (if eo_memberOnBulletin (d_engine d) eng
              then (True, set_join g (entry\<lparr>gj_state := Joined\<rparr>) w1) else (False, w1))))"

definition hasJoinedPersonaGroup :: "'e deps \<Rightarrow> string option \<Rightarrow> 'e world \<Rightarrow> bool \<times> 'e world" where
  "hasJoinedPersonaGroup d g w = (case g of None \<Rightarrow> (False, w) | Some g \<Rightarrow> isRestoredMember d g w)"

definition accountOf :: "string option \<Rightarrow> string option" where
  "accountOf serviceId = map_option (\<lambda>s. to_lower (no_dashes s)) serviceId"

definition ourPersonasAccount :: "'e world \<Rightarrow> string option" where
  "ourPersonasAccount w = accountOf (env_ourAci (w_env w))"

definition forgetPersonaJoin :: "string \<Rightarrow> 'e world \<Rightarrow> 'e world" where
  "forgetPersonaJoin g w0 = (let (entry, w) = joinOf g w0 in set_join g (entry\<lparr>gj_state := NotJoined\<rparr>) w)"

definition sendJoin :: "'e deps \<Rightarrow> string \<Rightarrow> 'e world \<Rightarrow> (string + bool) \<times> 'e world" where
  "sendJoin d g w =
     (if \<not> truthy_str (ourPersonasAccount w) then (Inr False, w)
      else
        (case emitAndSelfIngest d (Some g) (EmitJoin (the (ourPersonasAccount w))) w of
           (Inl err, w1) \<Rightarrow> (Inl err, w1)
         | (Inr None, w1) \<Rightarrow> (Inr False, w1)
         | (Inr (Some (eh, body)), w1) \<Rightarrow>
             (case enqueueMessageForSend d g body True w1 of
                (True, w2) \<Rightarrow> (Inr True, w2)
              | (False, w2) \<Rightarrow> (Inl ''send failed'', w2))))"

datatype join_call = JoinRefused | JoinAlready | JoinWaits | JoinStarts

definition join_enter :: "'e deps \<Rightarrow> conversation \<Rightarrow> 'e world \<Rightarrow> (string + join_call) \<times> 'e world" where
  "join_enter d c w =
     (if \<not> isPersonasEngineEnabled (w_env w) then (Inr JoinRefused, w)
      else if \<not> truthy_str (cv_groupId c) \<or> \<not> isPersonasGroup (w_phantom w) (Some c) then (Inr JoinRefused, w)
      else
        (let g = the (cv_groupId c) in
         case ensureCaughtUp d c w of
           (Inl err, w1) \<Rightarrow> (Inl err, w1)
         | (Inr False, w1) \<Rightarrow> (Inr JoinRefused, w1)
         | (Inr True, w1) \<Rightarrow>
             (case isRestoredMember d g w1 of
                (True, w2) \<Rightarrow> (Inr JoinAlready, w2)
              | (False, w2) \<Rightarrow>
                  (let (entry, w3) = joinOf g w2 in
                   if gj_inFlight entry then (Inr JoinWaits, w3)
                   else (Inr JoinStarts, set_join g (entry\<lparr>gj_state := Joining, gj_inFlight := True\<rparr>) w3)))))"

text \<open>The join under way: whatever happens, nothing is in flight afterwards.\<close>

definition join_run :: "'e deps \<Rightarrow> conversation \<Rightarrow> 'e world \<Rightarrow> bool \<times> 'e world" where
  "join_run d c w =
     (let g = the (cv_groupId c);
          (_, w1) = ensureSealedSenderWarmedUp d g c w in
      case sendJoin d g w1 of
        (Inr ok, w2) \<Rightarrow> (ok, set_join g \<lparr>gj_state = (if ok then Joined else NotJoined), gj_inFlight = False\<rparr> w2)
      | (Inl _, w2) \<Rightarrow> (False, set_join g \<lparr>gj_state = NotJoined, gj_inFlight = False\<rparr> w2))"

text \<open>One caller alone.  A caller that finds a join under way gets that join's answer, which is not
  known here; alone, it never finds one.\<close>

definition ensurePersonaJoined :: "'e deps \<Rightarrow> conversation \<Rightarrow> 'e world \<Rightarrow> (string + bool) \<times> 'e world" where
  "ensurePersonaJoined d c w =
     (case join_enter d c w of
        (Inl err, w1) \<Rightarrow> (Inl err, w1)
      | (Inr JoinRefused, w1) \<Rightarrow> (Inr False, w1)
      | (Inr JoinAlready, w1) \<Rightarrow> (Inr True, w1)
      | (Inr JoinWaits, w1) \<Rightarrow> (Inr False, w1)
      | (Inr JoinStarts, w1) \<Rightarrow> (case join_run d c w1 of (ok, w2) \<Rightarrow> (Inr ok, w2)))"

section \<open>Overlapping callers\<close>

text \<open>Callers entering and the join under way finishing, in any order: how many joins were started
  and how many were sent.\<close>

datatype join_event = Enter | Finish

definition in_flight :: "string \<Rightarrow> 'e world \<Rightarrow> bool" where
  "in_flight g w = (case map_get (w_joins w) g of None \<Rightarrow> False | Some e \<Rightarrow> gj_inFlight e)"

definition join_state :: "string \<Rightarrow> 'e world \<Rightarrow> JoinState" where
  "join_state g w = (case map_get (w_joins w) g of None \<Rightarrow> NotJoined | Some e \<Rightarrow> gj_state e)"

fun join_events :: "'e deps \<Rightarrow> conversation \<Rightarrow> join_event list \<Rightarrow> nat \<times> nat \<times> 'e world \<Rightarrow> nat \<times> nat \<times> 'e world" where
  "join_events d c [] s = s"
| "join_events d c (Enter # es) (started, sent, w) =
     (case join_enter d c w of
        (r, w1) \<Rightarrow> join_events d c es ((if r = Inr JoinStarts then started + 1 else started), sent, w1))"
| "join_events d c (Finish # es) (started, sent, w) =
     (if in_flight (the (cv_groupId c)) w
      then (case join_run d c w of (ok, w1) \<Rightarrow> join_events d c es (started, (if ok then sent + 1 else sent), w1))
      else join_events d c es (started, sent, w))"

lemma joins_frame:
  "w_joins (snd (getPersonasEngine d g w)) = w_joins w" "w_joins (snd (ensureCaughtUp d c w)) = w_joins w"
  using client_frame.part_engine [of d g w] client_frame.part_ensureCaughtUp [of d c w]
  by (simp_all add: client_state_def)

lemma joinOf_props:
  assumes "joinOf g w = (entry, w1)"
  shows "map_get (w_joins w1) g = Some entry \<and> gj_state entry = join_state g w \<and> gj_inFlight entry = in_flight g w"
  using assms by (auto simp: joinOf_def map_entry_def join_state_def in_flight_def Let_def split: option.splits)

lemma restored_effect:
  assumes "isRestoredMember d g w = (b, w1)"
  shows "in_flight g w1 = in_flight g w \<and> (b \<longleftrightarrow> join_state g w1 = Joined) \<and> (join_state g w = Joined \<longrightarrow> b)"
proof -
  obtain entry w0 where j: "joinOf g w = (entry, w0)" by (cases "joinOf g w")
  note p = joinOf_props [OF j]
  obtain e w2 where g: "getPersonasEngine d (Some g) w0 = (e, w2)" by (cases "getPersonasEngine d (Some g) w0")
  then have f: "w_joins w2 = w_joins w0" using joins_frame(1) [of d "Some g" w0] by simp
  show ?thesis
    using assms p f
    by (auto simp: isRestoredMember_def j g Let_def in_flight_def join_state_def set_join_def split: if_splits option.splits)
qed

lemma enter_effect:
  assumes "join_enter d c w = (r, w1)" and "cv_groupId c = Some g"
  shows "if r = Inr JoinStarts then \<not> in_flight g w \<and> join_state g w \<noteq> Joined \<and> in_flight g w1
         else in_flight g w1 = in_flight g w \<and> (join_state g w = Joined \<longrightarrow> join_state g w1 = Joined)"
proof (cases "\<not> isPersonasEngineEnabled (w_env w) \<or> \<not> truthy_str (cv_groupId c) \<or> \<not> isPersonasGroup (w_phantom w) (Some c)")
  case True
  then have "join_enter d c w = (Inr JoinRefused, w)"
    by (cases "isPersonasEngineEnabled (w_env w)") (simp_all add: join_enter_def)
  then show ?thesis using assms by simp
next
  case False
  obtain x w2 where e: "ensureCaughtUp d c w = (x, w2)" by (cases "ensureCaughtUp d c w")
  have j2: "w_joins w2 = w_joins w" using joins_frame(2) [of d c w] e by simp
  obtain b w3 where m: "isRestoredMember d g w2 = (b, w3)" by (cases "isRestoredMember d g w2")
  note me = restored_effect [OF m]
  obtain entry w4 where j: "joinOf g w3 = (entry, w4)" by (cases "joinOf g w3")
  note p = joinOf_props [OF j]
  have same: "in_flight g w2 = in_flight g w" "join_state g w2 = join_state g w"
    by (simp_all add: in_flight_def join_state_def j2)
  have same4: "in_flight g w4 = in_flight g w3" "join_state g w4 = join_state g w3"
    using p by (simp_all add: in_flight_def join_state_def)
  consider err where "x = Inl err" | "x = Inr False" | "x = Inr True" by (metis (full_types) sum.exhaust)
  then show ?thesis
  proof cases
    case 3
    show ?thesis
    proof (cases b)
      case True
      then show ?thesis using assms False e 3 m me same by (auto simp: join_enter_def)
    next
      case nb: False
      show ?thesis
        using assms False e 3 m me same nb j p same4
        by (auto simp: join_enter_def set_join_def in_flight_def)
    qed
  qed (use assms False e same in \<open>auto simp: join_enter_def\<close>)
qed

lemma run_effect:
  assumes "join_run d c w = (ok, w1)" and "cv_groupId c = Some g"
  shows "\<not> in_flight g w1 \<and> (ok \<longleftrightarrow> join_state g w1 = Joined)"
  using assms
  by (auto simp: join_run_def Let_def set_join_def in_flight_def join_state_def split: prod.splits sum.splits if_splits)

lemma join_events_inv:
  assumes "cv_groupId c = Some g" and "join_events d c es (started, sent, w) = (started', sent', w')"
    and "sent \<le> 1" and "sent = 1 \<longrightarrow> join_state g w = Joined \<and> \<not> in_flight g w"
  shows "sent' \<le> 1 \<and> (sent' = 1 \<longrightarrow> join_state g w' = Joined \<and> \<not> in_flight g w')"
  using assms(2-)
proof (induction es arbitrary: started sent w)
  case (Cons e es)
  show ?case
  proof (cases e)
    case Enter
    obtain r w1 where r: "join_enter d c w = (r, w1)" by (cases "join_enter d c w")
    have "sent = 1 \<longrightarrow> join_state g w1 = Joined \<and> \<not> in_flight g w1"
      using enter_effect [OF r assms(1)] Cons.prems(3) by (auto split: if_splits)
    moreover have "join_events d c es (if r = Inr JoinStarts then started + 1 else started, sent, w1) = (started', sent', w')"
      using Cons.prems(1) Enter r by simp
    ultimately show ?thesis using Cons.IH Cons.prems(2) by blast
  next
    case Finish
    obtain ok w1 where r: "join_run d c w = (ok, w1)" by (cases "join_run d c w")
    show ?thesis
    proof (cases "in_flight g w")
      case True
      then have z: "sent = 0" using Cons.prems(2,3) by auto
      have "join_events d c es (started, (if ok then sent + 1 else sent), w1) = (started', sent', w')"
        using Cons.prems(1) Finish True r assms(1) by simp
      moreover have "(if ok then sent + 1 else sent) \<le> 1"
        "(if ok then sent + 1 else sent) = 1 \<longrightarrow> join_state g w1 = Joined \<and> \<not> in_flight g w1"
        using z run_effect [OF r assms(1)] by simp_all
      ultimately show ?thesis by (rule Cons.IH)
    next
      case False
      then have "join_events d c es (started, sent, w) = (started', sent', w')" using Cons.prems(1) Finish assms(1) by simp
      then show ?thesis using Cons.prems(2,3) by (rule Cons.IH)
    qed
  qed
qed simp

section \<open>What membership guarantees\<close>


text \<open>A join goes out under our own account, in a body every recipient reads as an attributable
  record.\<close>

lemma sendJoin_sent:
  assumes "sendJoin d g w = (Inr True, w')"
  shows "\<exists>account em. ourPersonasAccount w = Some account \<and> emitted_and_saved d (Some g) (EmitJoin account) em w
           (snd (emitAndSelfIngest d (Some g) (EmitJoin account) w))
     \<and> w_out w' = w_out w @ [\<lparr>sm_to = g, sm_wire = wire_body d (plain_out (Some (encodeRecordBody (em_bytes em)))),
           sm_sentAt = sm_sentAt (last (w_out w')), sm_hidden = True, sm_ok = True\<rparr>]
     \<and> \<not> isPersonaPhantomBody (Some (encodeRecordBody (em_bytes em)))"
proof -
  obtain account where a: "ourPersonasAccount w = Some account" "account \<noteq> []"
    using assms by (auto simp: sendJoin_def truthy_str_def split: if_splits)
  obtain eh body w1 where e: "emitAndSelfIngest d (Some g) (EmitJoin account) w = (Inr (Some (eh, body)), w1)"
      "enqueueMessageForSend d g body True w1 = (True, w')"
    using assms a by (auto simp: sendJoin_def truthy_str_def split: sum.splits option.splits prod.splits bool.splits)
  obtain em where em: "compose_strict d (Some g) (EmitJoin account) w = (Inr (Some em), w1)" "body = encodeRecordBody (em_bytes em)"
    using with_body_Some [OF e(1) [unfolded emitAndSelfIngest_def]] by blast
  have s: "emitted_and_saved d (Some g) (EmitJoin account) em w w1" using compose_saved em(1) by blast
  then have o1: "w_out w1 = w_out w" by (simp add: emitted_and_saved_def)
  have "w' = snd (enqueue d g (plain_out (Some body)) True None w1)" "d_send d (w_step w1)"
    using e(2) frame_enqueue(6) [of d g "plain_out (Some body)" True None w1] by (simp_all add: enqueueMessageForSend_def)
  then have "w_out w' = w_out w @ [\<lparr>sm_to = g, sm_wire = wire_body d (plain_out (Some body)),
      sm_sentAt = sm_sentAt (last (w_out w')), sm_hidden = True, sm_ok = True\<rparr>]"
    by (simp add: enqueue_out o1)
  moreover have "\<not> isPersonaPhantomBody (Some (encodeRecordBody (em_bytes em)))"
    by (simp add: isPersonaPhantomBody_def encodeRecordBody_def marked_def starts_with_def PHANTOM_MARKERS_def marker_defs)
  ultimately show ?thesis using a(1) s e(1) em(2) by auto
qed


lemma catchUpState_cong: "w_catchUp v = w_catchUp w \<Longrightarrow> catchUpState v g = catchUpState w g"
  by (simp add: catchUpState_def)

text \<open>A join that could not be handed to the send path is nevertheless taken for a membership: the
  own engine has already taken it in, so the next persona action finds the member on its bulletin
  and proceeds, although no join was sent.\<close>

theorem unsent_join_reads_as_joined:
  assumes "cv_groupId c = Some g" and "g \<noteq> []" and "isPersonasGroup (w_phantom w) (Some c)"
    and "isPersonasEngineEnabled (w_env w)" and "isSealedSenderReady c"
    and "ourPersonasAccount w = Some account" and "account \<noteq> []"
    and "emitAndSelfIngest d (Some g) (EmitJoin account) w = (Inr (Some (eh, body)), w1)"
    and "engine_of w1 g = Some eng" and "eo_memberOnBulletin (d_engine d) eng"
    and "catchUpState w1 (Some g) = CatchUpDone" and "\<not> d_send d (w_step w1)"
  shows "\<exists>w2 w3. join_run d c w = (False, w2) \<and> ensurePersonaJoined d c w2 = (Inr True, w3)
    \<and> (\<exists>m. w_out w3 = w_out w @ [m] \<and> \<not> sm_ok m)"
proof -
  have env: "w_env w1 = w_env w" "w_phantom w1 = w_phantom w" "w_out w1 = w_out w"
    using env_frame.part_composers(1) [of d "Some g" "EmitJoin account" w]
      phantom_frame.part_composers(1) [of d "Some g" "EmitJoin account" w]
      out_frame.part_composers(1) [of d "Some g" "EmitJoin account" w] assms(8) by simp_all
  obtain w2 where s: "enqueueMessageForSend d g body True w1 = (False, w2)"
    using assms(12) by (cases "enqueueMessageForSend d g body True w1") (simp add: enqueueMessageForSend_def enqueue_def case_prod_unfold Let_def)
  then have w2: "w2 = snd (enqueue d g (plain_out (Some body)) True None w1)" by (simp add: enqueueMessageForSend_def)
  let ?w3 = "set_join g \<lparr>gj_state = NotJoined, gj_inFlight = False\<rparr> w2"
  have run: "join_run d c w = (False, ?w3)"
    using assms(1,2,5-8) s
    by (simp add: join_run_def ensureSealedSenderWarmedUp_def isSealedSenderReady_def sendJoin_def truthy_str_def Let_def)
  have w3: "w_env ?w3 = w_env w" "w_phantom ?w3 = w_phantom w" "engine_of ?w3 g = Some eng" "catchUpState ?w3 (Some g) = CatchUpDone"
    using env assms(9,11) catchUpState_cong [of ?w3 w1]
    by (simp_all add: set_join_def w2 engine_of_def)
  have e: "getPersonasEngine d (Some g) ?w3 = (Some eng, ?w3)"
    using assms(2,4) w3 by (intro getPersonasEngine_built) simp_all
  have j: "joinOf g ?w3 = (\<lparr>gj_state = NotJoined, gj_inFlight = False\<rparr>, ?w3)"
    by (simp add: joinOf_def set_join_def map_entry_def)
  have "ensureCaughtUp d c ?w3 = (Inr True, ?w3)" using assms(1) w3(4) by (simp add: ensureCaughtUp_def)
  then have "join_enter d c ?w3 = (Inr JoinAlready, set_join g \<lparr>gj_state = Joined, gj_inFlight = False\<rparr> ?w3)"
    using assms(1-4,10) w3 e j by (simp add: join_enter_def truthy_str_def isRestoredMember_def)
  then have "ensurePersonaJoined d c ?w3 = (Inr True, set_join g \<lparr>gj_state = Joined, gj_inFlight = False\<rparr> ?w3)"
    by (simp add: ensurePersonaJoined_def)
  moreover have "w_out (set_join g \<lparr>gj_state = Joined, gj_inFlight = False\<rparr> ?w3)
      = w_out w @ [\<lparr>sm_to = g, sm_wire = wire_body d (plain_out (Some body)),
          sm_sentAt = fst (send_time None (plain_out (Some body)) (env_now (w_env w1)) (w_registry w1)), sm_hidden = True, sm_ok = False\<rparr>]"
    using assms(12) env by (simp add: set_join_def w2 enqueue_out)
  ultimately show ?thesis using run by auto
qed

definition offline_deps :: "nat deps" where
  "offline_deps = (demo_deps SaveOk)\<lparr>d_engine := demo_ops\<lparr>eo_memberOnBulletin := (\<lambda>n. n > 0)\<rparr>, d_send := (\<lambda>_. False)\<rparr>"

theorem unsent_join_reads_as_joined_witness:
  "\<exists>c w2 w3. join_run offline_deps c demo_world = (False, w2) \<and> ensurePersonaJoined offline_deps c w2 = (Inr True, w3)
    \<and> (\<exists>m. w_out w3 = w_out demo_world @ [m] \<and> \<not> sm_ok m)"
proof -
  let ?d = offline_deps and ?c = "demo_conversation\<lparr>cv_members := []\<rparr>"
  let ?em = "\<lparr>em_bytes = ''rec'', em_eh = ''eh'', em_persona = None\<rparr>"
  have d [simp]: "d_engine ?d = demo_ops\<lparr>eo_memberOnBulletin := (\<lambda>n. n > 0)\<rparr>" "d_save ?d n = SaveOk" "d_send ?d n = False" for n
    by (simp_all add: offline_deps_def)
  have en: "isPersonasEngineEnabled (w_env demo_world)" by code_simp
  obtain w2 t where cs: "compose_strict ?d (Some ''G'') (EmitJoin ''me'') demo_world = (Inr (Some ?em), w2)"
      "engine_of w2 ''G'' = Some (snd (eo_ingest (d_engine ?d) (em_bytes ?em) t 1))" "w_catchUp w2 = w_catchUp demo_world"
    using compose_succeeds [OF en _ _ _ _ _ demo_open, where d = ?d and eng = 0 and ?eng1.0 = 1 and req = "EmitJoin ''me''" and em = ?em]
    by (auto simp: demo_world_def engine_of_def map_get_def)
  have w2: "engine_of w2 ''G'' = Some 1" "w_catchUp w2 = []" using cs(2,3) by (simp_all add: demo_world_def)
  have "emitAndSelfIngest ?d (Some ''G'') (EmitJoin ''me'') demo_world = (Inr (Some (''eh'', encodeRecordBody ''rec'')), w2)"
    using cs(1) by (simp add: emitAndSelfIngest_def with_body_def)
  note emitted = this
  have c: "cv_groupId ?c = Some ''G''" "isPersonasGroup (w_phantom demo_world) (Some ?c)" "isSealedSenderReady ?c"
    by (simp_all add: demo_conversation_def demo_env_def map_get_def isSealedSenderReady_def getSealedSenderReadiness_def
        Let_def isPersonasGroup_def demo_world_def demo_group_def map_has_def)
  have a: "ourPersonasAccount demo_world = Some ''me''" by code_simp
  have done1: "catchUpState w2 (Some ''G'') = CatchUpDone" using w2(2) by (simp add: catchUpState_def saved_at_def map_get_def)
  have b: "eo_memberOnBulletin (d_engine ?d) 1" "\<not> d_send ?d (w_step w2)" by simp_all
  have "''G'' \<noteq> ([] :: string)" "''me'' \<noteq> ([] :: string)" by simp_all
  from unsent_join_reads_as_joined [OF c(1) this(1) c(2) en c(3) a this(2) emitted w2(1) b(1) done1 b(2)]
  show ?thesis by blast
qed

end
