(* ===== verification/Reset.thy ===== *)
theory Reset
  imports Actions
begin

text \<open>
  \<^verbatim>\<open>ts/services/personasReset.preload.ts\<close>: asking for a new membership, completing it once an admin
  approved it, the requests an admin receives, and the checks of who sent a record.

  Main facts: a member starts afresh only in a later barrier than one in which the approval was
  already in its replica; a request is filed under its sender's account only and shown as proved
  only if the own replica verified the proof; a join, a re-join approval or a ban is refused
  exactly when the wrong account sent it.
\<close>

section \<open>The own request\<close>

datatype ResetState = ResetNone | ResetRequested | ResetApproved

definition ownResetState :: "string option \<Rightarrow> 'e world \<Rightarrow> ResetState" where
  "ownResetState g w =
     (case (if truthy_str g then map_get (w_ownRequests w) (the g) else None) of
        None \<Rightarrow> ResetNone
      | Some r \<Rightarrow> if or_approvedAtBarrier r \<noteq> None then ResetApproved else ResetRequested)"

datatype reset_result = ResetSent bool | ResetFailed string

text \<open>One attempt at the proof; the engine is the group's, in the state it has by then.\<close>

definition tryProve :: "'e deps \<Rightarrow> string \<Rightarrow> string \<Rightarrow> 'e world \<Rightarrow> string + string" where
  "tryProve d g account w =
     (case engine_of w g of
        None \<Rightarrow> Inl []
      | Some eng \<Rightarrow> map_sum id b64_encode (eo_proveNotBanned (d_engine d) eng account))"

definition requestPersonasReset :: "'e deps \<Rightarrow> conversation \<Rightarrow> ('e world \<Rightarrow> bool \<times> 'e world) \<Rightarrow> 'e world \<Rightarrow>
    reset_result \<times> 'e world" where
  "requestPersonasReset d c fullSweep w0 =
     (case getPersonasEngine d (cv_groupId c) w0 of
        (None, w) \<Rightarrow> (ResetFailed ''the personas engine is not ready'', w)
      | (Some _, w) \<Rightarrow>
          (if \<not> truthy_str (cv_groupId c) \<or> \<not> truthy_str (ourPersonasAccount w)
           then (ResetFailed ''the personas engine is not ready'', w)
           else
             (let g = the (cv_groupId c);
                  account = the (ourPersonasAccount w);
                  (outcome, w1) =
                    (case tryProve d g account w of
                       Inr p \<Rightarrow> (Inr p, w)
                     | Inl reason \<Rightarrow>
                         (if \<not> str_includes reason ''full scan'' then (Inl reason, w)
                          else (case fullSweep w of
                                  (False, w1) \<Rightarrow> (Inl reason, w1)
                                | (True, w1) \<Rightarrow> (tryProve d g account w1, w1))));
                  wire = (case outcome of
                            Inr p \<Rightarrow> \<lparr>rr_a = account, rr_p = Some p, rr_r = None\<rparr>
                          | Inl reason \<Rightarrow>
                              \<lparr>rr_a = account, rr_p = None, rr_r = (if reason \<noteq> [] then Some (utf16_take 200 reason) else None)\<rparr>)
              in case enqueueMessageForSend d g (encodeResetRequest wire) True w1 of
                   (False, w2) \<Rightarrow> (ResetFailed ''could not send the request'', w2)
                 | (True, w2) \<Rightarrow>
                     (ResetSent (rr_p wire \<noteq> None),
                      extras_changed d (Some g) (w2\<lparr>w_ownRequests := map_set (w_ownRequests w2) g
                        \<lparr>or_requestedAt = of_int (env_now (w_env w2)), or_approvedAtBarrier = None\<rparr>\<rparr>)))))"

section \<open>Completing a reset\<close>

text \<open>A fresh member: new object, no pseudonyms, not joined, saved, then joining again.\<close>

definition become_fresh :: "'e deps \<Rightarrow> string \<Rightarrow> 'e \<Rightarrow> conversation \<Rightarrow> 'e world \<Rightarrow> (string + unit) \<times> 'e world" where
  "become_fresh d g eng c w =
     (let fresh = eo_resetMember (d_engine d) eng;
          w1 = put_engine g fresh w;
          w2 = extras_changed d (Some g) (w1\<lparr>w_pseudonyms := clearPseudonyms g (w_pseudonyms w1)\<rparr>);
          w3 = forgetPersonaJoin g w2;
          w4 = w3\<lparr>w_ownRequests := map_del (w_ownRequests w3) g\<rparr> in
      case eo_exportMemberState (d_engine d) fresh of
        Inl err \<Rightarrow> (Inl err, w4)
      | Inr st \<Rightarrow>
          (case save_state d g st w4 of
             (Raised, w5) \<Rightarrow> (Inl ''save failed'', w5)
           | (_, w5) \<Rightarrow> (case ensurePersonaJoined d c w5 of (Inl err, w6) \<Rightarrow> (Inl err, w6) | (Inr _, w6) \<Rightarrow> (Inr (), w6))))"

text \<open>What a tick finds: nothing to do, the approval for the first time, or that a barrier has passed since.\<close>

datatype 'e reset_verdict = ResetWaits | ResetSeen OwnRequest int | ResetDue 'e conversation

definition reset_decision :: "'e deps \<Rightarrow> string \<Rightarrow> OwnRequest option \<Rightarrow> 'e option \<Rightarrow> 'e world \<Rightarrow> 'e reset_verdict" where
  "reset_decision d g request engine w =
     (case (request, engine) of
        (Some ownRequest, Some eng) \<Rightarrow>
          (if \<not> truthy_str (ourPersonasAccount w) then ResetWaits
           else
             (let (joins, approved) = eo_joinCounts (d_engine d) eng (the (ourPersonasAccount w));
                  barrier = eo_currentBarrier (d_engine d) eng in
              if joins \<ge> 1 + approved then ResetWaits
              else
                (case or_approvedAtBarrier ownRequest of
                   None \<Rightarrow> ResetSeen ownRequest barrier
                 | Some approvedAtBarrier \<Rightarrow>
                     (if of_int barrier \<le> approvedAtBarrier then ResetWaits
                      else (case conversation_of w g of None \<Rightarrow> ResetWaits | Some c \<Rightarrow> ResetDue eng c)))))
      | _ \<Rightarrow> ResetWaits)"

text \<open>The request is the object found first: a map entry replaced while the engine was being built is
  another object and is not changed.\<close>

definition completePersonasResetIfApproved :: "'e deps \<Rightarrow> string \<Rightarrow> 'e world \<Rightarrow> (string + unit) \<times> 'e world" where
  "completePersonasResetIfApproved d g w0 =
     (let request = map_get (w_ownRequests w0) g;
          (engine, w) = getPersonasEngine d (Some g) w0 in
      case reset_decision d g request engine w of
        ResetWaits \<Rightarrow> (Inr (), w)
      | ResetSeen ownRequest barrier \<Rightarrow>
          (Inr (), extras_changed d (Some g)
             (if map_get (w_ownRequests w) g = request
              then w\<lparr>w_ownRequests := map_set (w_ownRequests w) g (ownRequest\<lparr>or_approvedAtBarrier := Some (of_int barrier)\<rparr>)\<rparr>
              else w))
      | ResetDue eng c \<Rightarrow> become_fresh d g eng c w)"

definition maybeCompletePersonasReset :: "'e deps \<Rightarrow> 'e world \<Rightarrow> 'e world" where
  "maybeCompletePersonasReset d w = fold (\<lambda>g w. snd (completePersonasResetIfApproved d g w)) (map_keys (w_ownRequests w)) w"

section \<open>Requests received\<close>

definition PROOF_NOT_YET :: string where
  "PROOF_NOT_YET =
     ''not verified yet '' @ map (char_of :: nat \<Rightarrow> char) [226, 128, 148] @ '' it was made against group state this device does not have. '' @
     ''Usually their latest scan has not arrived here yet (it is re-checked '' @
     ''automatically); if it stays like this, they are out of sync with the group.''"

definition checkResetProof :: "'e deps \<Rightarrow> string \<Rightarrow> string \<Rightarrow> string option \<Rightarrow> 'e world \<Rightarrow> bool \<times> 'e world" where
  "checkResetProof d g account p w0 =
     (case getPersonasEngine d (Some g) w0 of
        (None, w) \<Rightarrow> (False, w)
      | (Some eng, w) \<Rightarrow>
          (truthy_str p \<and> eo_verifyNotBanned (d_engine d) eng (b64_decode (the p)) = Inr (Some account), w))"

definition put_request :: "string \<Rightarrow> ReceivedResetRequest \<Rightarrow> 'e world \<Rightarrow> 'e world" where
  "put_request g r w = w\<lparr>w_received := map_set (w_received w) g (map_set (requests_of (w_received w) g) (rq_account r) r)\<rparr>"

definition drop_request :: "string \<Rightarrow> string \<Rightarrow> 'e world \<Rightarrow> 'e world" where
  "drop_request g account w = w\<lparr>w_received := map_set (w_received w) g (map_del (requests_of (w_received w) g) account)\<rparr>"

definition ingestResetRequest :: "'e deps \<Rightarrow> string option \<Rightarrow> PersonaResetRequestWire \<Rightarrow> string option \<Rightarrow> 'e world \<Rightarrow> 'e world" where
  "ingestResetRequest d g wire sender w =
     (if \<not> truthy_str g then w
      else if accountOf sender \<noteq> Some (rr_a wire) then w
      else
        (let (proofOk, w1) = checkResetProof d (the g) (rr_a wire) (rr_p wire) w;
             title = (if truthy_str sender then map_option cv_title (conversation_of w1 (the sender)) else None);
             name = (if truthy_str title then the title else ''a member'') in
         extras_changed d g (put_request (the g)
           \<lparr>rq_account = rr_a wire, rq_name = name, rq_proofOk = proofOk,
            rq_reason = (if proofOk then None
                         else Some (if truthy_str (rr_p wire) then PROOF_NOT_YET
                                    else case rr_r wire of None \<Rightarrow> ''no proof'' | Some r \<Rightarrow> r)),
            rq_proof = (if truthy_str (rr_p wire) then rr_p wire else None),
            rq_at = of_int (env_now (w_env w1))\<rparr> w1)))"

text \<open>The second look at the proofs that had not verified.\<close>

fun recheck :: "'e deps \<Rightarrow> string \<Rightarrow> ReceivedResetRequest list \<Rightarrow> 'e world \<Rightarrow> bool \<times> 'e world" where
  "recheck d g [] w = (False, w)"
| "recheck d g (r # rs) w =
     (if rq_proofOk r \<or> \<not> truthy_str (rq_proof r) then recheck d g rs w
      else
        (case checkResetProof d g (rq_account r) (rq_proof r) w of
           (False, w1) \<Rightarrow> recheck d g rs w1
         | (True, w1) \<Rightarrow> (True, snd (recheck d g rs (put_request g (r\<lparr>rq_proofOk := True, rq_reason := None\<rparr>) w1)))))"

definition listResetRequests :: "'e deps \<Rightarrow> string option \<Rightarrow> 'e world \<Rightarrow> ReceivedResetRequest list \<times> 'e world" where
  "listResetRequests d g w0 =
     (if \<not> truthy_str g then ([], w0)
      else
        (let (e, w) = getPersonasEngine d g w0;
             (changed, w1) = recheck d (the g) (map snd (requests_of (w_received w) (the g))) w;
             w2 = (if changed then extras_changed d g w1 else w1) in
         (filter (\<lambda>r. case e of
                        None \<Rightarrow> True
                      | Some eng \<Rightarrow> (case eo_joinCounts (d_engine d) eng (rq_account r) of (joins, approved) \<Rightarrow> joins \<ge> 1 + approved))
            (map snd (requests_of (w_received w2) (the g))), w2)))"

definition approvePersonasReset :: "'e deps \<Rightarrow> conversation \<Rightarrow> string \<Rightarrow> 'e world \<Rightarrow> (string + unit) \<times> 'e world" where
  "approvePersonasReset d c account w =
     (if \<not> cv_weAreAdmin c then (Inl ''only a group admin can approve a reset'', w)
      else
        (case emitAndSelfIngest d (cv_groupId c) (EmitRejoinApprove account) w of
           (Inl err, w1) \<Rightarrow> (Inl err, w1)
         | (Inr None, w1) \<Rightarrow> (Inl ''the personas engine is not ready'', w1)
         | (Inr (Some (eh, body)), w1) \<Rightarrow>
             (case enqueueMessageForSend d (the (cv_groupId c)) body True w1 of
                (False, w2) \<Rightarrow> (Inl ''send failed'', w2)
              | (True, w2) \<Rightarrow>
                  (Inr (), if truthy_str (cv_groupId c)
                           then extras_changed d (cv_groupId c) (drop_request (the (cv_groupId c)) account w2) else w2))))"

definition dismissResetRequest :: "'e deps \<Rightarrow> string option \<Rightarrow> string \<Rightarrow> 'e world \<Rightarrow> 'e world" where
  "dismissResetRequest d g account w =
     (if \<not> truthy_str g then w else extras_changed d g (drop_request (the g) account w))"

section \<open>Who may send what\<close>

definition recordSenderProblem :: "'e deps \<Rightarrow> string option \<Rightarrow> string option \<Rightarrow> conversation \<Rightarrow> 'e world \<Rightarrow>
    string option \<times> 'e world" where
  "recordSenderProblem d body sender c w0 =
     (case (decodeRecordBody body, getPersonasEngine d (cv_groupId c) w0) of
        (Some rec, (Some eng, w)) \<Rightarrow>
          (let fromAdmin = (truthy_str sender \<and> isAdmin c (the sender)) in
           (case eo_recordAccountClaim (d_engine d) eng rec of
              None \<Rightarrow> None
            | Some (kind, account) \<Rightarrow>
                if kind = ClaimJoin \<and> accountOf sender \<noteq> Some account then Some ''a join for another account than its sender''
                else if kind = ClaimRejoinApprove \<and> \<not> fromAdmin
                then Some ''a re-join approval from someone who is not a group admin''
                else if kind = ClaimBan \<and> \<not> fromAdmin then Some ''a ban from someone who is not a group admin''
                else None, w))
      | (_, (_, w)) \<Rightarrow> (None, w))"

section \<open>When a member starts afresh\<close>

text \<open>Ticks of the flag loop; between two ticks the replica moves on to whatever state the records give it.\<close>

definition decision_at :: "'e deps \<Rightarrow> string \<Rightarrow> 'e world \<Rightarrow> 'e reset_verdict" where
  "decision_at d g w = reset_decision d g (map_get (w_ownRequests w) g) (engine_of w g) w"

inductive awaiting :: "'e deps \<Rightarrow> string \<Rightarrow> 'e world \<Rightarrow> 'e list \<Rightarrow> 'e world \<Rightarrow> bool" for d g w where
  start: "awaiting d g w [] w"
| tick: "awaiting d g w seen w1 \<Longrightarrow> (\<forall>eng c. decision_at d g (put_engine g e w1) \<noteq> ResetDue eng c) \<Longrightarrow>
     awaiting d g w (seen @ [e]) (snd (completePersonasResetIfApproved d g (put_engine g e w1)))"

definition approved_in :: "'e deps \<Rightarrow> string \<Rightarrow> 'e \<Rightarrow> bool" where
  "approved_in d account e = (case eo_joinCounts (d_engine d) e account of (joins, approved) \<Rightarrow> joins < 1 + approved)"

definition request_invariant :: "'e deps \<Rightarrow> string \<Rightarrow> string \<Rightarrow> 'e list \<Rightarrow> 'e world \<Rightarrow> bool" where
  "request_invariant d g account seen w =
     (isPersonasEngineEnabled (w_env w) \<and> map_has (w_runtimes w) g \<and> ourPersonasAccount w = Some account
      \<and> (\<forall>r b. map_get (w_ownRequests w) g = Some r \<longrightarrow> or_approvedAtBarrier r = Some b \<longrightarrow>
            (\<exists>e \<in> set seen. approved_in d account e \<and> b = of_int (eo_currentBarrier (d_engine d) e))))"

lemma decision_cases:
  assumes "map_get (w_ownRequests w) g = request" and "engine_of w g = Some eng" and "ourPersonasAccount w = Some account"
  shows "decision_at d g w = ResetSeen r b \<Longrightarrow> request = Some r \<and> approved_in d account eng \<and> b = eo_currentBarrier (d_engine d) eng"
    and "decision_at d g w = ResetDue eng' c \<Longrightarrow> \<exists>r b. request = Some r \<and> or_approvedAtBarrier r = Some b
      \<and> b < of_int (eo_currentBarrier (d_engine d) eng) \<and> approved_in d account eng \<and> eng' = eng"
  using assms
  by (auto simp: decision_at_def reset_decision_def approved_in_def Let_def split: option.splits if_splits prod.splits)

lemma extras_own [simp]: "w_ownRequests (extras_changed d h w) = w_ownRequests w" "w_env (extras_changed d h w) = w_env w"
  by (simp_all add: extras_changed_def bump_def)

lemma put_engine_own [simp]: "w_ownRequests (put_engine g e w) = w_ownRequests w" "w_env (put_engine g e w) = w_env w"
  by (simp_all add: put_engine_def split: option.split)

lemma tick_keeps_invariant:
  assumes "request_invariant d g account seen w" and "g \<noteq> []"
    and "\<forall>eng c. decision_at d g (put_engine g e w) \<noteq> ResetDue eng c"
  shows "request_invariant d g account (seen @ [e]) (snd (completePersonasResetIfApproved d g (put_engine g e w)))"
proof -
  let ?w = "put_engine g e w"
  have h: "isPersonasEngineEnabled (w_env ?w)" "map_has (w_runtimes ?w) g" "ourPersonasAccount ?w = Some account" "engine_of ?w g = Some e"
    using assms(1) engine_of_put [of w g e g]
    by (auto simp: request_invariant_def ourPersonasAccount_def put_engine_def map_has_get split: option.split)
  have b: "getPersonasEngine d (Some g) ?w = (Some e, ?w)" by (rule getPersonasEngine_built [OF h(1) assms(2) h(4)])
  have dec: "reset_decision d g (map_get (w_ownRequests ?w) g) (Some e) ?w = decision_at d g ?w" by (simp add: decision_at_def h(4))
  show ?thesis
  proof (cases "decision_at d g ?w")
    case ResetWaits
    then show ?thesis using assms(1) h b dec by (auto simp: completePersonasResetIfApproved_def request_invariant_def)
  next
    case (ResetSeen r n)
    note s = decision_cases(1) [OF refl h(4,3) ResetSeen]
    then show ?thesis using assms(1) h b dec ResetSeen
      by (auto simp: completePersonasResetIfApproved_def request_invariant_def ourPersonasAccount_def)
  qed (use assms(3) in auto)
qed

text \<open>C14. A member starts afresh only in a later barrier than one in which the approval was already in
  its replica: however the replica moves between the ticks, when a tick goes ahead with the reset,
  some earlier tick saw a replica with an unused approval at a strictly earlier barrier, and the
  approval is still unused.\<close>

theorem fresh_start_in_a_later_barrier:
  assumes "awaiting d g w seen w1" and "decision_at d g (put_engine g e w1) = ResetDue eng c"
    and "isPersonasEngineEnabled (w_env w)" and "g \<noteq> []" and "map_has (w_runtimes w) g" and "ourPersonasAccount w = Some account"
    and "map_get (w_ownRequests w) g = Some r" and "or_approvedAtBarrier r = None"
  shows "approved_in d account e \<and>
    (\<exists>e0 \<in> set seen. approved_in d account e0 \<and> eo_currentBarrier (d_engine d) e0 < eo_currentBarrier (d_engine d) e)"
proof -
  have inv: "request_invariant d g account seen w1"
    using assms(1)
  proof (induction rule: awaiting.induct)
    case start
    show ?case using assms(3-8) by (simp add: request_invariant_def)
  next
    case (tick seen w1 e)
    show ?case by (rule tick_keeps_invariant [OF tick.IH assms(4) tick.hyps(2)])
  qed
  have h: "ourPersonasAccount (put_engine g e w1) = Some account" "engine_of (put_engine g e w1) g = Some e"
    using inv engine_of_put [of w1 g e g] by (auto simp: request_invariant_def ourPersonasAccount_def)
  obtain r b where "map_get (w_ownRequests w1) g = Some r" "or_approvedAtBarrier r = Some b"
      "b < of_int (eo_currentBarrier (d_engine d) e)" "approved_in d account e"
    using decision_cases(2) [OF _ h(2,1) assms(2)] by auto
  then show ?thesis using inv by (fastforce simp: request_invariant_def)
qed

definition reset_deps :: "nat deps" where
  "reset_deps = (demo_deps SaveOk)\<lparr>d_engine := demo_ops\<lparr>eo_currentBarrier := int, eo_joinCounts := (\<lambda>n _. (1, if n > 0 then 1 else 0))\<rparr>\<rparr>"

definition asking_world :: "nat world" where
  "asking_world = demo_world\<lparr>w_ownRequests := [(''G'', \<lparr>or_requestedAt = 0, or_approvedAtBarrier = None\<rparr>)]\<rparr>"

lemma asking_world_facts:
  "isPersonasEngineEnabled (w_env asking_world)" "map_has (w_runtimes asking_world) ''G''" "ourPersonasAccount asking_world = Some ''me''"
  "map_get (w_ownRequests asking_world) ''G'' = Some \<lparr>or_requestedAt = 0, or_approvedAtBarrier = None\<rparr>"
  "conversation_of asking_world ''G'' = Some demo_conversation"
proof -
  have a: "isPersonasEngineEnabled demo_env" "accountOf (env_ourAci demo_env) = Some ''me''" by code_simp+
  have e: "w_env asking_world = demo_env" by (simp add: asking_world_def demo_world_def)
  show "isPersonasEngineEnabled (w_env asking_world)" "ourPersonasAccount asking_world = Some ''me''"
    using a by (simp_all add: e ourPersonasAccount_def)
  show "map_has (w_runtimes asking_world) ''G''" using demo_runtime by (simp add: asking_world_def)
  show "map_get (w_ownRequests asking_world) ''G'' = Some \<lparr>or_requestedAt = 0, or_approvedAtBarrier = None\<rparr>"
    by (simp add: asking_world_def map_get_def)
  show "conversation_of asking_world ''G'' = Some demo_conversation"
    by (simp add: conversation_of_def e demo_conversation_def) (simp add: demo_env_def map_get_def)
qed

theorem fresh_start_in_a_later_barrier_witness:
  "\<exists>w1. awaiting reset_deps ''G'' asking_world [3] w1
     \<and> decision_at reset_deps ''G'' (put_engine ''G'' 5 w1) = ResetDue 5 demo_conversation
     \<and> (\<exists>e0 \<in> set [3]. eo_currentBarrier (d_engine reset_deps) e0 < eo_currentBarrier (d_engine reset_deps) 5)"
proof -
  let ?d = reset_deps and ?w = "put_engine ''G'' 3 asking_world"
  let ?r = "\<lparr>or_requestedAt = 0, or_approvedAtBarrier = None\<rparr>"
  note f = asking_world_facts
  have d: "d_engine ?d = demo_ops\<lparr>eo_currentBarrier := int, eo_joinCounts := (\<lambda>n _. (1, if n > 0 then 1 else 0))\<rparr>"
    by (simp add: reset_deps_def)
  have e: "engine_of ?w ''G'' = Some 3" "ourPersonasAccount ?w = Some ''me''" "map_has (w_runtimes ?w) ''G''"
    using engine_of_put [OF f(2), of 3 "''G''"] f(2,3)
    by (auto simp: ourPersonasAccount_def put_engine_def map_has_get split: option.split)
  have seen: "decision_at ?d ''G'' ?w = ResetSeen ?r 3"
    using e f(4) by (simp add: decision_at_def reset_decision_def truthy_str_def d)
  let ?w1 = "snd (completePersonasResetIfApproved ?d ''G'' ?w)"
  have aw: "awaiting ?d ''G'' asking_world ([] @ [3]) ?w1" using seen by (intro awaiting.tick awaiting.start) simp
  have "isPersonasEngineEnabled (w_env ?w)" using f(1) by simp
  from getPersonasEngine_built [OF this _ e(1), of ?d]
  have w1: "?w1 = extras_changed ?d (Some ''G'')
      (?w\<lparr>w_ownRequests := map_set (w_ownRequests ?w) ''G'' (?r\<lparr>or_approvedAtBarrier := Some 3\<rparr>)\<rparr>)"
    using seen e(1) f(4) by (simp add: completePersonasResetIfApproved_def decision_at_def)
  have h: "map_has (w_runtimes ?w1) ''G''" "w_env ?w1 = w_env asking_world" using e(3) by (simp_all add: w1)
  let ?w2 = "put_engine ''G'' 5 ?w1"
  have v: "engine_of ?w2 ''G'' = Some 5" "ourPersonasAccount ?w2 = Some ''me''" "conversation_of ?w2 ''G'' = Some demo_conversation"
    using engine_of_put [OF h(1), of 5 "''G''"] f(3,5) h(2) by (simp_all add: ourPersonasAccount_def conversation_of_def)
  have own: "map_get (w_ownRequests ?w2) ''G'' = Some (?r\<lparr>or_approvedAtBarrier := Some 3\<rparr>)" unfolding put_engine_own w1 by simp
  have due: "decision_at ?d ''G'' ?w2 = ResetDue 5 demo_conversation"
    unfolding decision_at_def own v(1) by (simp add: reset_decision_def v truthy_str_def d)
  have "''G'' \<noteq> ([] :: string)" by simp
  from fresh_start_in_a_later_barrier [OF aw due f(1) this f(2-4)] aw due show ?thesis by auto
qed

section \<open>What an admin is shown\<close>

definition vouched :: "'e deps \<Rightarrow> 'e \<Rightarrow> ReceivedResetRequest \<Rightarrow> bool" where
  "vouched d eng r =
     (rq_proofOk r \<longrightarrow> (\<exists>p. rq_proof r = Some p \<and> eo_verifyNotBanned (d_engine d) eng (b64_decode p) = Inr (Some (rq_account r))))"

definition request_at :: "'e world \<Rightarrow> string \<Rightarrow> string \<Rightarrow> ReceivedResetRequest option" where
  "request_at w g account = map_get (requests_of (w_received w) g) account"

definition engine_built :: "string \<Rightarrow> 'e \<Rightarrow> 'e world \<Rightarrow> bool" where
  "engine_built g eng w = (isPersonasEngineEnabled (w_env w) \<and> g \<noteq> [] \<and> engine_of w g = Some eng)"

lemma built_engine: "engine_built g eng w \<Longrightarrow> getPersonasEngine d (Some g) w = (Some eng, w)"
  by (simp add: engine_built_def getPersonasEngine_built)

lemma built_frame [simp]:
  "engine_built g eng (put_request g' r w) = engine_built g eng w" "engine_built g eng (extras_changed d h w) = engine_built g eng w"
  by (simp_all add: engine_built_def put_request_def engine_of_def)

lemma request_at_put [simp]:
  "request_at (put_request g r w) g a = (if a = rq_account r then Some r else request_at w g a)"
  by (simp add: request_at_def put_request_def)

lemma extras_received [simp]: "request_at (extras_changed d h w) g a = request_at w g a"
    "w_received (extras_changed d h w) = w_received w"
  by (simp_all add: request_at_def extras_changed_def bump_def)

lemma recheck_vouches:
  "engine_built g eng w \<Longrightarrow> recheck d g rs w = (ch, w1) \<Longrightarrow>
     engine_built g eng w1 \<and> (map_wf (requests_of (w_received w) g) \<longrightarrow> map_wf (requests_of (w_received w1) g))
     \<and> (\<forall>a r. request_at w1 g a = Some r \<longrightarrow> request_at w g a = Some r \<or> vouched d eng r \<and> rq_account r = a)"
proof (induction rs arbitrary: w ch w1)
  case (Cons r rs)
  note e = built_engine [OF Cons.prems(1), of d]
  show ?case
  proof (cases "\<not> rq_proofOk r \<and> (\<exists>p. rq_proof r = Some p \<and> p \<noteq> [] \<and> eo_verifyNotBanned (d_engine d) eng (b64_decode p) = Inr (Some (rq_account r)))")
    case True
    let ?r = "r\<lparr>rq_proofOk := True, rq_reason := None\<rparr>"
    have v: "vouched d eng ?r" using True by (auto simp: vouched_def)
    obtain ch2 where "recheck d g rs (put_request g ?r w) = (ch2, w1)"
      using Cons.prems(2) True e
      by (cases "recheck d g rs (put_request g ?r w)") (auto simp: checkResetProof_def truthy_str_def)
    moreover have "engine_built g eng (put_request g ?r w)" using Cons.prems(1) by simp
    ultimately have ih: "engine_built g eng w1" "map_wf (requests_of (w_received (put_request g ?r w)) g) \<longrightarrow> map_wf (requests_of (w_received w1) g)"
        "\<And>a r'. request_at w1 g a = Some r' \<Longrightarrow> request_at (put_request g ?r w) g a = Some r' \<or> vouched d eng r' \<and> rq_account r' = a"
      using Cons.IH by blast+
    have "request_at w g a = Some r' \<or> vouched d eng r' \<and> rq_account r' = a" if "request_at w1 g a = Some r'" for a r'
      using ih(3) [OF that] v by (cases "a = rq_account ?r") auto
    then show ?thesis using ih(1,2) by (simp add: put_request_def)
  next
    case False
    then have "recheck d g rs w = (ch, w1)"
      using Cons.prems(2) e by (auto simp: checkResetProof_def truthy_str_def split: if_splits)
    then show ?thesis using Cons.IH [OF Cons.prems(1)] by blast
  qed
qed auto

text \<open>C25. What an admin decides on: a reset request is filed only under the account that sent it, and it
  is shown as proved only if the own replica verified the proof for that very account (now or when it
  was shown before); requests whose approval is already there are not listed.\<close>

theorem reset_requests_are_vouched:
  assumes "isPersonasEngineEnabled (w_env w)" and "g \<noteq> []" and "engine_of w g = Some eng"
  shows "(request_at (ingestResetRequest d (Some g) wire sender w) g a = Some r \<longrightarrow>
           request_at w g a = Some r \<or> accountOf sender = Some a \<and> rq_account r = a \<and> vouched d eng r)
    \<and> (listResetRequests d (Some g) w = (rs, w') \<longrightarrow> r \<in> set rs \<longrightarrow> map_wf (requests_of (w_received w) g) \<longrightarrow>
           (\<exists>a. request_at w' g a = Some r \<and> (request_at w g a = Some r \<or> vouched d eng r))
           \<and> (case eo_joinCounts (d_engine d) eng (rq_account r) of (joins, approved) \<Rightarrow> joins \<ge> 1 + approved))"
proof (intro conjI impI)
  have b: "engine_built g eng w" using assms by (simp add: engine_built_def)
  note e = built_engine [OF b, of d]
  { assume "request_at (ingestResetRequest d (Some g) wire sender w) g a = Some r"
    then show "request_at w g a = Some r \<or> accountOf sender = Some a \<and> rq_account r = a \<and> vouched d eng r"
      using assms(2) e
      by (cases "accountOf sender = Some (rr_a wire)")
         (auto simp: ingestResetRequest_def checkResetProof_def truthy_str_def Let_def vouched_def split: if_splits) }
  assume l: "listResetRequests d (Some g) w = (rs, w')" and r: "r \<in> set rs" and wf0: "map_wf (requests_of (w_received w) g)"
  obtain ch w1 where c: "recheck d g (map snd (requests_of (w_received w) g)) w = (ch, w1)"
    by (cases "recheck d g (map snd (requests_of (w_received w) g)) w")
  have w': "w' = (if ch then extras_changed d (Some g) w1 else w1)"
    and rs: "rs = filter (\<lambda>r. case eo_joinCounts (d_engine d) eng (rq_account r) of (joins, approved) \<Rightarrow> joins \<ge> 1 + approved)
        (map snd (requests_of (w_received w') g))"
    using l e c assms(2) by (auto simp: listResetRequests_def truthy_str_def Let_def)
  then obtain a where "(a, r) \<in> set (requests_of (w_received w') g)" using r by auto
  moreover have wf: "map_wf (requests_of (w_received w') g)" using recheck_vouches [OF b c] wf0 w' by simp
  ultimately have at: "request_at w' g a = Some r" by (simp add: request_at_def map_get_def map_wf_def)
  have "request_at w1 g a = Some r" using at w' by (simp split: if_splits)
  then show "\<exists>a. request_at w' g a = Some r \<and> (request_at w g a = Some r \<or> vouched d eng r)"
    using recheck_vouches [OF b c] at by blast
  show "case eo_joinCounts (d_engine d) eng (rq_account r) of (joins, approved) \<Rightarrow> joins \<ge> 1 + approved" using rs r by auto
qed

text \<open>Who may send what: a record that names an account or a power is let through exactly when a
  join comes from the account it names, and an approval or a ban from an admin of the group.\<close>

theorem sender_problem_iff:
  assumes "decodeRecordBody body = Some rec" and "getPersonasEngine d (cv_groupId c) w = (Some eng, w1)"
  shows "recordSenderProblem d body sender c w = (None, w1) \<longleftrightarrow>
    (\<forall>kind account. eo_recordAccountClaim (d_engine d) eng rec = Some (kind, account) \<longrightarrow>
       (if kind = ClaimJoin then accountOf sender = Some account
        else \<exists>sid. sender = Some sid \<and> sid \<noteq> [] \<and> isAdmin c sid))"
proof -
  have k: "kind = ClaimJoin \<or> kind = ClaimRejoinApprove \<or> kind = ClaimBan" for kind by (cases kind) auto
  show ?thesis
  proof (cases "eo_recordAccountClaim (d_engine d) eng rec")
    case None
    then show ?thesis using assms by (simp add: recordSenderProblem_def)
  next
    case (Some ka)
    obtain kind account where "ka = (kind, account)" by (cases ka)
    then show ?thesis using assms Some k [of kind] by (auto simp: recordSenderProblem_def Let_def truthy_str_def)
  qed
qed

theorem sender_problem_iff_witness:
  "recordSenderProblem (demo_deps SaveOk) (Some (encodeRecordBody ''ban'')) (Some ''me'') demo_conversation demo_world = (None, demo_world)
   \<and> recordSenderProblem (demo_deps SaveOk) (Some (encodeRecordBody ''ban'')) (Some ''alice'') demo_conversation demo_world \<noteq> (None, demo_world)"
proof -
  have e: "getPersonasEngine (demo_deps SaveOk) (cv_groupId demo_conversation) demo_world = (Some 0, demo_world)"
    using demo_engine by (simp add: demo_conversation_group)
  have r: "decodeRecordBody (Some (encodeRecordBody ''ban'')) = Some ''ban''" by (simp add: record_codec.dec_enc)
  have a: "isAdmin demo_conversation ''me''" "\<not> isAdmin demo_conversation ''alice''"
    by (simp_all add: isAdmin_def demo_conversation_def demo_env_def map_get_def)
  have "eo_recordAccountClaim (d_engine (demo_deps SaveOk)) 0 ''ban'' = Some (ClaimBan, [])" by (simp add: demo_ops_def)
  with sender_problem_iff [OF r e, of "Some ''me''"] sender_problem_iff [OF r e, of "Some ''alice''"] a show ?thesis by simp
qed

definition vouching_deps :: "nat deps" where
  "vouching_deps = (demo_deps SaveOk)\<lparr>d_engine := demo_ops\<lparr>eo_verifyNotBanned := (\<lambda>_ p. Inr (Some p))\<rparr>\<rparr>"

theorem reset_requests_are_vouched_witness:
  "\<exists>r. request_at (ingestResetRequest vouching_deps (Some ''G'')
          \<lparr>rr_a = ''me'', rr_p = Some (b64_encode ''me''), rr_r = None\<rparr> (Some ''me'') demo_world) ''G'' ''me'' = Some r
     \<and> rq_proofOk r \<and> vouched vouching_deps 0 r"
proof -
  let ?wire = "\<lparr>rr_a = ''me'', rr_p = Some (b64_encode ''me''), rr_r = None\<rparr>"
  have en: "isPersonasEngineEnabled (w_env demo_world)" by code_simp
  have e: "engine_of demo_world ''G'' = Some 0" by (simp add: engine_of_def demo_world_def map_get_def)
  have g: "getPersonasEngine vouching_deps (Some ''G'') demo_world = (Some 0, demo_world)"
    using getPersonasEngine_built [OF en _ e] by simp
  have a: "accountOf (Some ''me'') = Some ''me''" by code_simp
  have "\<exists>r. request_at (ingestResetRequest vouching_deps (Some ''G'') ?wire (Some ''me'') demo_world) ''G'' ''me'' = Some r \<and> rq_proofOk r"
    using g a by (simp add: ingestResetRequest_def truthy_str_def checkResetProof_def Let_def vouching_deps_def del: b64_encode.simps)
  then obtain r where r: "request_at (ingestResetRequest vouching_deps (Some ''G'') ?wire (Some ''me'') demo_world) ''G'' ''me'' = Some r" "rq_proofOk r"
    by blast
  moreover have "request_at demo_world ''G'' ''me'' = None" by (simp add: request_at_def requests_of_def demo_world_def map_get_def)
  ultimately show ?thesis
    using reset_requests_are_vouched [OF en _ e, where d = vouching_deps and wire = ?wire and sender = "Some ''me''" and a = "''me''" and r = r]
    by (simp del: b64_encode.simps)
qed

end
