(* ===== verification/BadgeFlow.thy ===== *)
theory BadgeFlow
  imports Reset
begin

text \<open>
  Badges and proofs in the client: the request and approval flow
  (\<^verbatim>\<open>ts/services/personasBadgeFlow.preload.ts\<close>), the selected badge and its file
  (\<^verbatim>\<open>personasBadgeState.preload.ts\<close>), badge proofs (\<^verbatim>\<open>personasBadgeProof.preload.ts\<close>) and
  authorship proofs (\<^verbatim>\<open>personasAuthorship.preload.ts\<close>).

  Main facts: a dismissed request can no longer be approved here; a proof is only sent
  once the own verifier accepted it, names what the verifier read from it, and travels under the
  phantom identity; a selected badge that was written is read back by the next start, and counts
  only while the group's engine holds it.
\<close>

section \<open>Requests and approvals\<close>

definition BADGE_SLOTS :: "(int \<times> string) list" where
  "BADGE_SLOTS = [(1, ''Faculty''), (2, ''Student''), (3, ''Industry'')]"

definition badgeNameForSlot :: "int \<Rightarrow> string" where
  "badgeNameForSlot slot = (case map_of BADGE_SLOTS slot of Some name \<Rightarrow> name | None \<Rightarrow> ''slot '' @ show_int slot)"

definition DASH :: string where "DASH = map (char_of :: nat \<Rightarrow> char) [226, 128, 148]"

definition COULD_NOT_JOIN :: string where
  "COULD_NOT_JOIN =
     ''could not join the bulletin (sealed sender may not be ready yet) '' @ DASH @ '' try again in a moment''"

definition badge_out :: "string \<Rightarrow> outgoing" where
  "badge_out body = (plain_out None)\<lparr>og_personaCarriageBody := Some body, og_personaAnonymous := True\<rparr>"

text \<open>What the two flows share once their guards have passed.\<close>

definition badge_record :: "'e deps \<Rightarrow> conversation \<Rightarrow> bool \<Rightarrow> int \<Rightarrow>
    ('e world \<Rightarrow> (string + (string \<times> string) option) \<times> 'e world) \<Rightarrow> 'e world \<Rightarrow> (string + unit) \<times> 'e world" where
  "badge_record d c approve slot compose w =
     (case ensureReadyForPersonaAction d c w of
        (Inl err, w1) \<Rightarrow> (Inl err, w1)
      | (Inr False, w1) \<Rightarrow> (Inl COULD_NOT_JOIN, w1)
      | (Inr True, w1) \<Rightarrow>
          (case compose w1 of
             (Inl err, w2) \<Rightarrow> (Inl err, w2)
           | (Inr None, w2) \<Rightarrow> (Inl ''the engine is unavailable (not joined, or no replica yet)'', w2)
           | (Inr (Some (eh, body)), w2) \<Rightarrow>
               (case enqueue d (the (cv_groupId c)) ((badge_out body)\<lparr>og_personaBadgeNotice := Some (approve, eh, slot)\<rparr>) False None w2 of
                  (True, w3) \<Rightarrow> (Inr (), w3)
                | (False, w3) \<Rightarrow> (Inl ''send failed'', w3))))"

definition requestBadge :: "'e deps \<Rightarrow> conversation \<Rightarrow> int \<Rightarrow> 'e world \<Rightarrow> (string + unit) \<times> 'e world" where
  "requestBadge d c slot w =
     (if \<not> isPersonasEngineEnabled (w_env w) then (Inl ''the personas engine is not enabled'', w)
      else if slot \<notin> fst ` set BADGE_SLOTS then (Inl (show_int slot @ '' is not a known badge slot''), w)
      else badge_record d c False slot (composeBadgeRequest d (cv_groupId c) slot) w)"

definition isBadgeRequestPending :: "'e deps \<Rightarrow> string option \<Rightarrow> string \<Rightarrow> 'e world \<Rightarrow> bool \<times> 'e world" where
  "isBadgeRequestPending d g requestEh w =
     (if requestEh \<in> set (w_dismissed w) then (False, w)
      else (case listPendingBadgeRequests d g w of (rs, w1) \<Rightarrow> (requestEh \<in> fst ` set rs, w1)))"

definition approveBadge :: "'e deps \<Rightarrow> conversation \<Rightarrow> string \<Rightarrow> int \<Rightarrow> 'e world \<Rightarrow> (string + unit) \<times> 'e world" where
  "approveBadge d c requestEh slot w =
     (if \<not> isPersonasEngineEnabled (w_env w) then (Inl ''the personas engine is not enabled'', w)
      else
        (case isBadgeRequestPending d (cv_groupId c) requestEh w of
           (False, w1) \<Rightarrow> (Inl ''that request has already been handled'', w1)
         | (True, w1) \<Rightarrow> badge_record d c True slot (composeBadgeApprove d (cv_groupId c) requestEh slot) w1))"

definition dismissBadgeRequest :: "'e deps \<Rightarrow> string option \<Rightarrow> string \<Rightarrow> 'e world \<Rightarrow> bool \<times> 'e world" where
  "dismissBadgeRequest d g requestEh w =
     (case isBadgeRequestPending d g requestEh w of
        (False, w1) \<Rightarrow> (False, w1)
      | (True, w1) \<Rightarrow> (True, w1\<lparr>w_dismissed := List.insert requestEh (w_dismissed w1)\<rparr>))"

definition pendingBadgeRequests :: "'e deps \<Rightarrow> string option \<Rightarrow> 'e world \<Rightarrow> (string \<times> int \<times> string) list \<times> 'e world" where
  "pendingBadgeRequests d g w =
     (case listPendingBadgeRequests d g w of
        (rs, w1) \<Rightarrow> (map (\<lambda>(eh, slot). (eh, slot, badgeNameForSlot slot)) (filter (\<lambda>r. fst r \<notin> set (w_dismissed w1)) rs), w1))"

section \<open>The selected badge\<close>

text \<open>\<^verbatim>\<open>JSON.stringify({badge}, null, 2)\<close>.\<close>

definition badge_file_text :: "string option \<Rightarrow> string" where
  "badge_file_text badge =
     [CHR ''{'', CHR 0x0A] @ ''  '' @ json_stringify (JStr ''badge'') @ '': '' @
     json_stringify (case badge of None \<Rightarrow> JNull | Some b \<Rightarrow> JStr b) @ [CHR 0x0A, CHR ''}'']"

definition badge_of_text :: "string option \<Rightarrow> string option" where
  "badge_of_text t =
     (case Option.bind t json_parse of
        None \<Rightarrow> None
      | Some parsed \<Rightarrow> if isPersonaBadge (jget parsed ''badge'') then jget_str parsed ''badge'' else None)"

definition getSelectedBadge :: "'e deps \<Rightarrow> 'e world \<Rightarrow> string option \<times> 'e world" where
  "getSelectedBadge d w =
     (let bg = w_badge w in
      if bg_loaded bg then (bg_cached bg, w)
      else if \<not> d_badgeDir d then (None, w\<lparr>w_badge := bg\<lparr>bg_loaded := True\<rparr>\<rparr>)
      else (let badge = badge_of_text (bg_file bg) in (badge, w\<lparr>w_badge := bg\<lparr>bg_loaded := True, bg_cached := badge\<rparr>\<rparr>)))"

definition getSelectedBadgeIfHeld :: "'e deps \<Rightarrow> string option \<Rightarrow> 'e world \<Rightarrow> string option \<times> 'e world" where
  "getSelectedBadgeIfHeld d g w =
     (case getSelectedBadge d w of
        (selected, w1) \<Rightarrow>
          (if \<not> truthy_str selected then (None, w1)
           else (case heldBadges d g w1 of (held, w2) \<Rightarrow> (if the selected \<in> set held then selected else None, w2))))"

definition setSelectedBadge :: "'e deps \<Rightarrow> string option \<Rightarrow> 'e world \<Rightarrow> 'e world" where
  "setSelectedBadge d badge w =
     (let bg = (w_badge w)\<lparr>bg_cached := badge, bg_loaded := True\<rparr> in
      if \<not> d_badgeDir d then w\<lparr>w_badge := bg\<rparr>
      else bump (w\<lparr>w_badge := (if d_badgeWrite d (w_step w) then bg\<lparr>bg_file := Some (badge_file_text badge)\<rparr> else bg)\<rparr>))"

section \<open>Proofs\<close>

definition sendBadgeProof :: "'e deps \<Rightarrow> conversation \<Rightarrow> string \<Rightarrow> 'e world \<Rightarrow> (string + string) \<times> 'e world" where
  "sendBadgeProof d c badge w =
     (if \<not> isPersonasEngineEnabled (w_env w) then (Inl ''the personas engine is not enabled'', w)
      else
        (case ensureReadyForPersonaAction d c w of
           (Inl err, w1) \<Rightarrow> (Inl err, w1)
         | (Inr False, w1) \<Rightarrow> (Inl (''could not join the bulletin '' @ DASH @ '' try again in a moment''), w1)
         | (Inr True, w1) \<Rightarrow>
             (case composePersonaBadgeProof d (cv_groupId c) badge w1 of
                (None, w2) \<Rightarrow> (Inl (''you do not hold '' @ badge @ '' in your object yet '' @ DASH @ '' an admin must approve it and you must then Scan now''), w2)
              | (Some (body, proof), w2) \<Rightarrow>
                  (case verifyPersonaBadgeProof d (cv_groupId c) proof w2 of
                     (verified, w3) \<Rightarrow>
                       (if \<not> truthy_str verified then (Inl ''the proof did not verify locally, so it was not sent'', w3)
                        else if the verified \<noteq> badge then (Inl (''the proof verifies as '' @ the verified @ '', not '' @ badge), w3)
                        else (case enqueue d (the (cv_groupId c)) ((badge_out body)\<lparr>og_personaBadgeProof := verified\<rparr>) False None w3 of
                                (True, w4) \<Rightarrow> (Inr (the verified), w4)
                              | (False, w4) \<Rightarrow> (Inl ''send failed'', w4)))))))"

definition sendAuthorshipClaim :: "'e deps \<Rightarrow> conversation \<Rightarrow> jsnum \<Rightarrow> jsnum \<Rightarrow> 'e world \<Rightarrow> bool \<times> 'e world" where
  "sendAuthorshipClaim d c contextA contextB w =
     (if \<not> isPersonasEngineEnabled (w_env w) then (False, w)
      else
        (case (contextA, contextB) of
           (Fin a, Fin b) \<Rightarrow>
             (if a = b then (False, w)
              else
                (case composePersonaAuthorship d (cv_groupId c) a b w of
                   (None, w1) \<Rightarrow> (False, w1)
                 | (Some (body, proof), w1) \<Rightarrow>
                     (case verifyPersonaAuthorship d (cv_groupId c) proof w1 of
                        (None, w2) \<Rightarrow> (False, w2)
                      | (Some verified, w2) \<Rightarrow>
                          enqueue d (the (cv_groupId c)) ((badge_out body)\<lparr>og_personaAuthorship := Some verified\<rparr>) False None w2)))
         | _ \<Rightarrow> (False, w)))"

section \<open>The selection survives a restart\<close>

lemma badge_file_roundtrip:
  assumes "badge = None \<or> (\<exists>b. badge = Some b \<and> b \<in> set BADGE_LABELS)"
  shows "badge_of_text (Some (badge_file_text badge)) = badge"
proof -
  have "badge_of_text (Some (badge_file_text None)) = None"
    "\<forall>b \<in> set BADGE_LABELS. badge_of_text (Some (badge_file_text (Some b))) = Some b" by code_simp+
  then show ?thesis using assms by auto
qed

text \<open>The selected badge survives a restart: what was written is what the next start reads, and until
  then what was set is what is selected.\<close>

theorem selected_badge_survives_restart:
  assumes "d_badgeDir d" and "d_badgeWrite d (w_step w)" and "badge = None \<or> the badge \<in> set BADGE_LABELS"
  shows "fst (getSelectedBadge d (setSelectedBadge d badge w)) = badge
    \<and> fst (getSelectedBadge d ((setSelectedBadge d badge w)\<lparr>w_badge :=
              \<lparr>bg_cached = None, bg_loaded = False, bg_file = bg_file (w_badge (setSelectedBadge d badge w))\<rparr>\<rparr>)) = badge"
proof -
  have "badge_of_text (Some (badge_file_text badge)) = badge" using assms(3) by (intro badge_file_roundtrip) (cases badge; simp)
  then show ?thesis using assms(1,2) by (simp add: getSelectedBadge_def setSelectedBadge_def bump_def Let_def)
qed

theorem selected_badge_survives_restart_witness:
  "fst (getSelectedBadge (demo_deps SaveOk) ((setSelectedBadge (demo_deps SaveOk) (Some ''Faculty'') demo_world)\<lparr>w_badge :=
      \<lparr>bg_cached = None, bg_loaded = False,
       bg_file = bg_file (w_badge (setSelectedBadge (demo_deps SaveOk) (Some ''Faculty'') demo_world))\<rparr>\<rparr>)) = Some ''Faculty''"
proof -
  have "''Faculty'' \<in> set BADGE_LABELS" by code_simp
  then show ?thesis
    using selected_badge_survives_restart [of "demo_deps SaveOk" demo_world "Some ''Faculty''"] by (simp add: demo_deps_def)
qed

section \<open>What is sent about badges\<close>

lemma proof_wire: "wire_body d ((badge_out body)\<lparr>og_personaBadgeProof := b\<rparr>) = Some body"
    "wire_body d ((badge_out body)\<lparr>og_personaAuthorship := n\<rparr>) = Some body" if "body \<noteq> []"
  using that by (simp_all add: wire_body_def badge_out_def plain_out_def truthy_str_def)

lemma proof_copy:
  "msg_personaBadgeProof (sent_copy to ((badge_out body)\<lparr>og_personaBadgeProof := b\<rparr>)) = b"
  "msg_personaAnonymous (sent_copy to ((badge_out body)\<lparr>og_personaBadgeProof := b\<rparr>))"
  "msg_personaAuthorship (sent_copy to ((badge_out body)\<lparr>og_personaAuthorship := n\<rparr>)) = n"
  "msg_personaAnonymous (sent_copy to ((badge_out body)\<lparr>og_personaAuthorship := n\<rparr>))"
  by (simp_all add: sent_copy_def badge_out_def plain_out_def)

lemma proof_bodies [simp]: "encodeBadgeProof p \<noteq> []" "encodeAuthorshipProof p \<noteq> []"
    "isPersonaPhantomBody (Some (encodeBadgeProof p))" "isPersonaPhantomBody (Some (encodeAuthorshipProof p))"
proof -
  have "PERSONAS_BADGE_PROOF_MARKER \<in> set PHANTOM_MARKERS" "PERSONAS_AUTHORSHIP_MARKER \<in> set PHANTOM_MARKERS"
    by (simp_all add: PHANTOM_MARKERS_def)
  then show "isPersonaPhantomBody (Some (encodeBadgeProof p))" "isPersonaPhantomBody (Some (encodeAuthorshipProof p))"
    by (simp_all add: encodeBadgeProof_def encodeAuthorshipProof_def phantom_marker)
qed (simp_all add: encodeBadgeProof_def encodeAuthorshipProof_def marker_defs)

lemma enqueue_last:
  assumes "enqueue d to og hid ts w = (True, w')"
  shows "sm_wire (last_sent w') = wire_body d og \<and> sm_ok (last_sent w')
    \<and> (\<exists>mid. map_get (w_messages w') mid = Some (sent_copy to og))"
  using assms enqueue_out [of d to og hid ts w] frame_enqueue(6) [of d to og hid ts w]
  by (auto simp: last_sent_def enqueue_def bump_def Let_def case_prod_unfold)

lemma badge_proof_checked:
  assumes "composePersonaBadgeProof d g badge w1 = (Some (body, p), w2)"
    and "verifyPersonaBadgeProof d g p w2 = (verified, w3)"
  shows "body = encodeBadgeProof p \<and> (verified = Some b \<longrightarrow> (\<exists>eng. eo_verifyBadgeProof (d_engine d) eng p = Inr (Some b)))"
  using assms
  by (auto simp: composePersonaBadgeProof_def verifyPersonaBadgeProof_def sum_or_def
      split: prod.splits option.splits sum.splits)

lemma authorship_checked:
  assumes "composePersonaAuthorship d g a b w1 = (Some (body, p), w2)"
    and "verifyPersonaAuthorship d g p w2 = (Some names, w3)"
  shows "body = encodeAuthorshipProof p \<and> (\<exists>eng. eo_verifyAuthorship (d_engine d) eng p = Inr (Some names))"
  using assms
  by (auto simp: composePersonaAuthorship_def verifyPersonaAuthorship_def sum_or_def
      split: prod.splits option.splits sum.splits)

lemma badge_proof_sent:
  assumes "sendBadgeProof d c badge w = (Inr b, w')"
  shows "b = badge \<and> (\<exists>p eng. eo_verifyBadgeProof (d_engine d) eng p = Inr (Some badge)
    \<and> sm_wire (last_sent w') = Some (encodeBadgeProof p)
    \<and> (\<exists>mid m. map_get (w_messages w') mid = Some m \<and> msg_personaBadgeProof m = Some badge \<and> msg_personaAnonymous m))"
proof -
  obtain r w1 where r: "ensureReadyForPersonaAction d c w = (r, w1)" by (cases "ensureReadyForPersonaAction d c w")
  have ok: "r = Inr True" using assms r by (cases r) (auto simp: sendBadgeProof_def split: if_splits bool.splits)
  obtain x w2 where x: "composePersonaBadgeProof d (cv_groupId c) badge w1 = (x, w2)"
    by (cases "composePersonaBadgeProof d (cv_groupId c) badge w1")
  obtain body p where bp: "x = Some (body, p)" using assms r ok x by (cases x) (auto simp: sendBadgeProof_def split: if_splits)
  obtain v w3 where v: "verifyPersonaBadgeProof d (cv_groupId c) p w2 = (v, w3)"
    by (cases "verifyPersonaBadgeProof d (cv_groupId c) p w2")
  let ?og = "(badge_out body)\<lparr>og_personaBadgeProof := v\<rparr>"
  obtain s w4 where s: "enqueue d (the (cv_groupId c)) ?og False None w3 = (s, w4)"
    by (cases "enqueue d (the (cv_groupId c)) ?og False None w3")
  have vb: "v = Some badge" using assms r ok x bp v by (cases v) (auto simp: sendBadgeProof_def truthy_str_def split: if_splits)
  have "badge \<noteq> []" using assms r ok x bp v vb by (auto simp: sendBadgeProof_def truthy_str_def split: if_splits)
  then have f: "s" "b = badge" "w4 = w'" using assms r ok x bp v vb s
    by (cases s; simp add: sendBadgeProof_def truthy_str_def split: if_splits)+
  have c: "body = encodeBadgeProof p" "\<exists>eng. eo_verifyBadgeProof (d_engine d) eng p = Inr (Some badge)"
    using badge_proof_checked [OF x [unfolded bp] v] vb by auto
  have "enqueue d (the (cv_groupId c)) ?og False None w3 = (True, w')" using s f by simp
  from enqueue_last [OF this] have "sm_wire (last_sent w') = Some (encodeBadgeProof p)"
      "\<exists>mid m. map_get (w_messages w') mid = Some m \<and> msg_personaBadgeProof m = Some badge \<and> msg_personaAnonymous m"
    using c(1) vb by (auto simp: proof_wire intro: proof_copy)
  then show ?thesis using c(2) f(2) by blast
qed

lemma authorship_sent:
  assumes "sendAuthorshipClaim d c x y w = (True, w')"
  shows "\<exists>a b p eng names. x = Fin a \<and> y = Fin b \<and> a \<noteq> b \<and> eo_verifyAuthorship (d_engine d) eng p = Inr (Some names)
    \<and> sm_wire (last_sent w') = Some (encodeAuthorshipProof p)
    \<and> (\<exists>mid m. map_get (w_messages w') mid = Some m \<and> msg_personaAuthorship m = Some names \<and> msg_personaAnonymous m)"
proof -
  obtain a b where ab: "x = Fin a" "y = Fin b" "a \<noteq> b"
    using assms by (cases x; cases y) (auto simp: sendAuthorshipClaim_def split: if_splits)
  obtain cl w1 where cl: "composePersonaAuthorship d (cv_groupId c) a b w = (cl, w1)"
    by (cases "composePersonaAuthorship d (cv_groupId c) a b w")
  obtain body p where bp: "cl = Some (body, p)" using assms ab cl by (cases cl) (auto simp: sendAuthorshipClaim_def split: if_splits)
  obtain v w2 where v: "verifyPersonaAuthorship d (cv_groupId c) p w1 = (v, w2)" by (cases "verifyPersonaAuthorship d (cv_groupId c) p w1")
  obtain names where n: "v = Some names" using assms ab cl bp v by (cases v) (auto simp: sendAuthorshipClaim_def split: if_splits)
  let ?og = "(badge_out body)\<lparr>og_personaAuthorship := Some names\<rparr>"
  have s: "enqueue d (the (cv_groupId c)) ?og False None w2 = (True, w')"
    using assms ab cl bp v n by (auto simp: sendAuthorshipClaim_def split: if_splits)
  have c: "body = encodeAuthorshipProof p" "\<exists>eng. eo_verifyAuthorship (d_engine d) eng p = Inr (Some names)"
    using authorship_checked [OF cl [unfolded bp] v [unfolded n]] by auto
  from enqueue_last [OF s] have "sm_wire (last_sent w') = Some (encodeAuthorshipProof p)"
      "\<exists>mid m. map_get (w_messages w') mid = Some m \<and> msg_personaAuthorship m = Some names \<and> msg_personaAnonymous m"
    using c(1) by (auto simp: proof_wire intro: proof_copy)
  then show ?thesis using c(2) ab by blast
qed

text \<open>C24. Nothing unproved is claimed: a badge proof or an authorship proof goes out only after the own
  verifier accepted that very proof, what the own copy shows is what the verifier read from it (for a
  badge, the badge asked for), and both travel under the phantom identity.\<close>

theorem proofs_are_verified_before_sending:
  "(sendBadgeProof d c badge w = (Inr b, w') \<longrightarrow>
      b = badge \<and> isPersonaPhantomBody (sm_wire (last_sent w'))
      \<and> (\<exists>p eng. sm_wire (last_sent w') = Some (encodeBadgeProof p) \<and> eo_verifyBadgeProof (d_engine d) eng p = Inr (Some badge)
           \<and> (\<exists>mid m. map_get (w_messages w') mid = Some m \<and> msg_personaBadgeProof m = Some badge \<and> msg_personaAnonymous m)))
   \<and> (sendAuthorshipClaim d c x y w = (True, w') \<longrightarrow>
      x \<noteq> y \<and> isPersonaPhantomBody (sm_wire (last_sent w'))
      \<and> (\<exists>p eng names. sm_wire (last_sent w') = Some (encodeAuthorshipProof p)
           \<and> eo_verifyAuthorship (d_engine d) eng p = Inr (Some names)
           \<and> (\<exists>mid m. map_get (w_messages w') mid = Some m \<and> msg_personaAuthorship m = Some names \<and> msg_personaAnonymous m)))"
  using badge_proof_sent [of d c badge w b w'] authorship_sent [of d c x y w w'] by (intro conjI impI) force+

definition holder_deps :: "nat deps" where
  "holder_deps = (demo_deps SaveOk)\<lparr>d_engine := demo_ops\<lparr>eo_emitBadgeProof := (\<lambda>_ _. Inr ''p''),
     eo_verifyBadgeProof := (\<lambda>_ _. Inr (Some ''Faculty'')), eo_pendingBadgeRequests := (\<lambda>_. Inr [(''q'', 1)])\<rparr>\<rparr>"

lemma holder_settled: "settled_member holder_deps demo_conversation ''G'' 0 joined_world"
  using joined_world_settled [of SaveOk] by (simp add: settled_member_def holder_deps_def)

theorem proofs_are_verified_before_sending_witness:
  "\<exists>w'. sendBadgeProof holder_deps demo_conversation ''Faculty'' joined_world = (Inr ''Faculty'', w')
     \<and> isPersonaPhantomBody (sm_wire (last_sent w'))"
proof -
  let ?d = holder_deps
  have e: "getPersonasEngine ?d (Some ''G'') joined_world = (Some 0, joined_world)"
    using settled_engine [OF holder_settled] by (simp add: demo_conversation_group)
  have d: "d_send ?d n = True" "eo_emitBadgeProof (d_engine ?d) k x = Inr ''p''" "eo_verifyBadgeProof (d_engine ?d) k y = Inr (Some ''Faculty'')" for n k x y
    by (simp_all add: holder_deps_def)
  let ?og = "(badge_out (encodeBadgeProof ''p''))\<lparr>og_personaBadgeProof := Some ''Faculty''\<rparr>"
  obtain w' where q: "enqueue ?d ''G'' ?og False None joined_world = (True, w')"
    using frame_enqueue(6) [of ?d "''G''" ?og False None joined_world] d(1) by (cases "enqueue ?d ''G'' ?og False None joined_world") simp
  have "isPersonasEngineEnabled (w_env joined_world)" using holder_settled by (simp add: settled_member_def)
  then have "sendBadgeProof ?d demo_conversation ''Faculty'' joined_world = (Inr ''Faculty'', w')"
    using settled_ready [OF holder_settled] q e
    by (simp add: sendBadgeProof_def composePersonaBadgeProof_def verifyPersonaBadgeProof_def demo_conversation_group d sum_or_def truthy_str_def)
  then show ?thesis using proofs_are_verified_before_sending [of ?d demo_conversation "''Faculty''" joined_world "''Faculty''" w'] by blast
qed

lemma pending_frame: "w_dismissed (snd (listPendingBadgeRequests d g w)) = w_dismissed w" "w_out (snd (listPendingBadgeRequests d g w)) = w_out w"
proof -
  obtain e w1 where g: "getPersonasEngine d g w = (e, w1)" by (cases "getPersonasEngine d g w")
  have "client_state w1 = client_state w" "w_out w1 = w_out w"
    using client_frame.part_engine_eq [OF g] out_frame.part_engine_eq [OF g] by simp_all
  then show "w_dismissed (snd (listPendingBadgeRequests d g w)) = w_dismissed w" "w_out (snd (listPendingBadgeRequests d g w)) = w_out w"
    using g by (cases e; simp add: listPendingBadgeRequests_def client_state_def)+
qed

text \<open>Dismissing a badge request is final here and stays here: it sends nothing, and from then on the
  request is neither listed nor can it be approved on this device.\<close>

theorem dismissed_request_is_never_approved:
  assumes "dismissBadgeRequest d g eh w = (True, w1)"
  shows "w_out w1 = w_out w \<and> eh \<notin> fst ` set (fst (pendingBadgeRequests d g w1))
    \<and> (isPersonasEngineEnabled (w_env w1) \<longrightarrow> approveBadge d c eh slot w1 = (Inl ''that request has already been handled'', w1))"
proof -
  obtain p w2 where p: "isBadgeRequestPending d g eh w = (p, w2)" by (cases "isBadgeRequestPending d g eh w")
  have w1: "w1 = w2\<lparr>w_dismissed := List.insert eh (w_dismissed w2)\<rparr>" "p"
    using assms p by (cases p; simp add: dismissBadgeRequest_def)+
  have "w_out w2 = w_out w" using p pending_frame(2) [of d g w]
    by (auto simp: isBadgeRequestPending_def split: if_splits prod.splits)
  moreover have dis: "eh \<in> set (w_dismissed w1)" by (simp add: w1)
  moreover have "eh \<notin> fst ` set (fst (pendingBadgeRequests d g w1))"
    using dis pending_frame(1) [of d g w1] by (auto simp: pendingBadgeRequests_def split: prod.splits)
  ultimately show ?thesis by (simp add: w1(1) approveBadge_def isBadgeRequestPending_def)
qed

theorem dismissed_request_is_never_approved_witness:
  "\<exists>w1. dismissBadgeRequest holder_deps (Some ''G'') ''q'' joined_world = (True, w1)
     \<and> ''q'' \<notin> fst ` set (fst (pendingBadgeRequests holder_deps (Some ''G'') w1))"
proof -
  have e: "getPersonasEngine holder_deps (Some ''G'') joined_world = (Some 0, joined_world)"
    using settled_engine [OF holder_settled] by (simp add: demo_conversation_group)
  have "w_dismissed joined_world = []" by (simp add: joined_world_def demo_world_def)
  then have "\<exists>w1. dismissBadgeRequest holder_deps (Some ''G'') ''q'' joined_world = (True, w1)"
    using e by (simp add: dismissBadgeRequest_def isBadgeRequestPending_def listPendingBadgeRequests_def holder_deps_def sum_or_def)
  then show ?thesis using dismissed_request_is_never_approved by blast
qed

end
