(* ===== verification/SendPath.thy ===== *)
theory SendPath
  imports BadgeFlow
begin

text \<open>
  The way of a persona post out of and into the client: the persona part of the composer's send
  (\<^verbatim>\<open>sendMultiMediaMessage\<close> in \<^verbatim>\<open>ts/state/ducks/composer.preload.ts\<close>), the choice of sending
  identity (\<^verbatim>\<open>sendContentMessageToGroup\<close>, \<^verbatim>\<open>encryptForSenderKey\<close> and \<^verbatim>\<open>isPersonaContent\<close> in
  \<^verbatim>\<open>ts/util/sendToGroup.preload.ts\<close>), and the check of a phantom sender's certificate
  (\<^verbatim>\<open>ts/textsecure/MessageReceiver.preload.ts\<close>).

  Main facts: a post under a persona is either refused without sending it, or goes out as a record
  that is routed by the phantom identity, with a badge only if the member holds it; members with
  the same bundle produce the same sender metadata; no fallback to the real account; a receiver
  takes a phantom message only under a certificate of its own bundles.
\<close>

section \<open>Posting\<close>

record send_options =
  so_message :: "string option"
  so_isViewOnce :: bool
  so_timestamp :: "int option"
  so_personaChoice :: "PersonaChoice option"
  so_personaContextName :: "string option"

datatype refusal = PersonaBanned | WaitsForGroupState | JoinFailed | SweepUnfinished | EmitFailed

datatype send_outcome = SendRefused refusal | SendThrew string | Sent bool

definition learn_petname :: "'e deps \<Rightarrow> string option \<Rightarrow> PersonaChoice \<Rightarrow> string option \<Rightarrow> 'e world \<Rightarrow> 'e world" where
  "learn_petname d g choice petname w =
     (case choice of
        PseudoChoice nonce \<Rightarrow>
          (if truthy_str petname \<and> truthy_str g
           then (case recordPetname (the g) nonce (the petname) (w_pseudonyms w) of
                   (True, ps) \<Rightarrow> extras_changed d g (w\<lparr>w_pseudonyms := ps\<rparr>)
                 | (False, _) \<Rightarrow> w)
           else w)
      | _ \<Rightarrow> w)"

definition context_name :: "'e deps \<Rightarrow> string option \<Rightarrow> send_options \<Rightarrow> 'e world \<Rightarrow> string option" where
  "context_name d g options w =
     (case so_personaContextName options of
        Some n \<Rightarrow> Some n
      | None \<Rightarrow>
          (case so_personaChoice options of
             Some (RateChoice context _) \<Rightarrow>
               (case g of None \<Rightarrow> None | Some g \<Rightarrow> if g = [] then Some [] else nameForContext (d_le d) g context (w_topics w))
           | _ \<Rightarrow> None))"

definition post_fields :: "string \<Rightarrow> PersonaPostSend \<Rightarrow> string option \<Rightarrow> string option \<Rightarrow> outgoing" where
  "post_fields message post badge contextName =
     (plain_out (Some message))\<lparr>og_persona := pp_persona post, og_personaEh := Some (pp_eh post),
        og_personaAnonymous := (pp_persona post = None), og_personaRecordBase64 := Some (pp_personaRecordBase64 post),
        og_personaBadge := badge, og_personaContextName := contextName\<rparr>"

text \<open>The gates a persona post passes, in their order; \<open>Inr\<close> the emitted post.\<close>

definition persona_post :: "'e deps \<Rightarrow> conversation \<Rightarrow> string \<Rightarrow> PersonaChoice \<Rightarrow> 'e world \<Rightarrow>
    (send_outcome + PersonaPostSend) \<times> 'e world" where
  "persona_post d c message choice w0 =
     (case isPersonaBanned d (cv_groupId c) w0 of
        (Some True, w) \<Rightarrow> (Inl (SendRefused PersonaBanned), w)
      | (_, w) \<Rightarrow>
          (case ensurePersonaJoined d c w of
             (Inl err, w1) \<Rightarrow> (Inl (SendThrew err), w1)
           | (Inr False, w1) \<Rightarrow>
               (Inl (SendRefused (if catchUpBlocked w1 (cv_groupId c) then WaitsForGroupState else JoinFailed)), w1)
           | (Inr True, w1) \<Rightarrow>
               (case drainPersonaScans d c None w1 of
                  (False, w2) \<Rightarrow> (Inl (SendRefused SweepUnfinished), w2)
                | (True, w2) \<Rightarrow>
                    (case composePersonaPost d (cv_groupId c) message choice w2 of
                       (Inl err, w3) \<Rightarrow> (Inl (SendThrew err), w3)
                     | (Inr None, w3) \<Rightarrow> (Inl (SendRefused EmitFailed), w3)
                     | (Inr (Some post), w3) \<Rightarrow> (Inr post, w3)))))"

definition sendMultiMediaMessage :: "'e deps \<Rightarrow> conversation \<Rightarrow> string \<Rightarrow> send_options \<Rightarrow> 'e world \<Rightarrow>
    send_outcome \<times> 'e world" where
  "sendMultiMediaMessage d c to options w =
     (let timestamp = (case so_timestamp options of Some t \<Rightarrow> t | None \<Rightarrow> env_now (w_env w));
          message = (if so_isViewOnce options then [] else case so_message options of Some m \<Rightarrow> m | None \<Rightarrow> []) in
      case so_personaChoice options of
        Some choice \<Rightarrow>
          (if message = [] then (case enqueue d to (plain_out (Some message)) False (Some timestamp) w of (ok, w1) \<Rightarrow> (Sent ok, w1))
           else
             (case persona_post d c message choice w of
                (Inl out, w1) \<Rightarrow> (out, w1)
              | (Inr post, w1) \<Rightarrow>
                  (let w2 = learn_petname d (cv_groupId c) choice (pp_persona post) w1;
                       (badge, w3) = getSelectedBadgeIfHeld d (cv_groupId c) w2;
                       og = post_fields message post badge (context_name d (cv_groupId c) options w3) in
                   case enqueue d to og False (Some timestamp) w3 of (ok, w4) \<Rightarrow> (Sent ok, w4))))
      | None \<Rightarrow> (case enqueue d to (plain_out (Some message)) False (Some timestamp) w of (ok, w1) \<Rightarrow> (Sent ok, w1)))"

section \<open>Which identity a group message is sent under\<close>

text \<open>A content proto as the guard sees it: unreadable, or the body of its data message.\<close>

definition isPersonaContent :: "string option option \<Rightarrow> bool" where
  "isPersonaContent content = (case content of None \<Rightarrow> False | Some body \<Rightarrow> isPersonaPhantomBody body)"

record sealed =
  sd_address :: "string \<times> nat"
  sd_distributionId :: string
  sd_certificate :: string
  sd_identity :: string
  sd_message :: string

text \<open>The member's own sending identity; no certificate when the service could not fetch one.\<close>

record real_sender =
  re_aci :: string
  re_deviceId :: "nat option"
  re_certificate :: "string option"
  re_store :: identity_store

definition encryptForSenderKey :: "env \<Rightarrow> real_sender \<Rightarrow> string option \<Rightarrow> string \<Rightarrow> string option option \<Rightarrow> string \<Rightarrow> phantom \<Rightarrow>
    (string + sealed) \<times> phantom" where
  "encryptForSenderKey e me g distributionId content message p =
     (case re_deviceId me of
        None \<Rightarrow> (Inl ''encryptForSenderKey: Unable to fetch our uuid or deviceId'', p)
      | Some ourDeviceId \<Rightarrow>
          (let (phantom, q) = (if isPersonaContent content then ensurePhantomMaterial e g p else (None, p)) in
           case phantom of
             Some mat \<Rightarrow>
               (case phantomGroupEncrypt e q g message of
                  Inl err \<Rightarrow> Inl err
                | Inr (chainId, ciphertext) \<Rightarrow>
                    (case buildPhantomIdentityStore q g (re_store me) of
                       None \<Rightarrow> Inl ''encryptForSenderKey: phantom identity store unavailable''
                     | Some store \<Rightarrow>
                         Inr \<lparr>sd_address = phantomAddress, sd_distributionId = chainId, sd_certificate = pm_phantomCert mat,
                              sd_identity = ids_getIdentityKey store, sd_message = ciphertext\<rparr>), q)
           | None \<Rightarrow>
               (case re_certificate me of
                  None \<Rightarrow> Inl ''encryptForSenderKey: Unable to fetch sender certificate!''
                | Some cert \<Rightarrow>
                    Inr \<lparr>sd_address = (re_aci me, ourDeviceId), sd_distributionId = distributionId, sd_certificate = cert,
                         sd_identity = ids_getIdentityKey (re_store me), sd_message = message\<rparr>, q)))"

datatype group_send = BySenderKey sealed | ToEachMember

text \<open>\<open>shouldFail\<close> is \<^verbatim>\<open>_shouldFailSend\<close>, \<open>keysOutOfDate\<close> the two readings of the account's keys, \<open>attempt\<close>
  what the sender-key workflow came to.\<close>

definition sendContentMessageToGroup :: "bool \<times> bool \<Rightarrow> bool \<Rightarrow> (string \<Rightarrow> bool) \<Rightarrow> string option option \<Rightarrow> string + sealed \<Rightarrow>
    string + group_send" where
  "sendContentMessageToGroup keysOutOfDate valid shouldFail content attempt =
     (if fst keysOutOfDate \<and> snd keysOutOfDate then Inl ''Keys still out of date after update''
      else if \<not> valid then Inr ToEachMember
      else
        (case attempt of
           Inr s \<Rightarrow> Inr (BySenderKey s)
         | Inl err \<Rightarrow> if shouldFail err then Inl err else if isPersonaContent content then Inl err else Inr ToEachMember))"

section \<open>Receiving under a phantom certificate\<close>

record sender_certificate =
  sc_senderAci :: "string option"
  sc_senderUuid :: string
  sc_senderDeviceId :: nat
  sc_serialized :: string

text \<open>\<open>validates\<close> is libsignal's \<^verbatim>\<open>validateWithTrustRoots\<close>.\<close>

definition check_certificate :: "(sender_certificate \<Rightarrow> string list \<Rightarrow> int \<Rightarrow> bool) \<Rightarrow> string \<Rightarrow> nat \<Rightarrow> string list \<Rightarrow> string list \<Rightarrow>
    sender_certificate \<Rightarrow> int \<Rightarrow> string + unit" where
  "check_certificate validates localAci localDeviceId expected roots cert serverTimestamp =
     (if sc_senderAci cert = Some localAci \<and> sc_senderDeviceId cert = localDeviceId
      then Inl ''Received sealed sender message sent by this device''
      else if sc_senderUuid cert = PHANTOM_SENDER_ACI \<and> \<not> hasAnyPhantomCertificate expected
      then Inl ''phantom-sender message before this member holds a phantom bundle''
      else if sc_senderUuid cert = PHANTOM_SENDER_ACI \<and> \<not> isExpectedPhantomCertificate expected (sc_serialized cert)
      then Inl ''phantom certificate does not match any of our bundles; refusing it''
      else if \<not> validates cert roots serverTimestamp then Inl ''Sealed sender certificate validation failed''
      else Inr ())"

definition addServerTrustRoot :: "string \<Rightarrow> string list \<Rightarrow> string list" where
  "addServerTrustRoot base64 roots =
     (let key = b64_decode base64 in if list_ex (\<lambda>existing. existing = key) roots then roots else roots @ [key])"

section \<open>Posts\<close>

lemma persona_post_emitted:
  assumes "persona_post d c message choice w = (Inr post, w1)"
  shows "\<exists>em w2. compose_caught d (cv_groupId c) (post_request message choice) w2 = (Inr (Some em), w1)
    \<and> post = \<lparr>pp_body = message, pp_persona = em_persona em, pp_eh = em_eh em, pp_personaRecordBase64 = b64_encode (em_bytes em)\<rparr>"
proof -
  obtain bn w2 where b: "isPersonaBanned d (cv_groupId c) w = (bn, w2)" by (cases "isPersonaBanned d (cv_groupId c) w")
  obtain j w3 where j: "ensurePersonaJoined d c w2 = (j, w3)" by (cases "ensurePersonaJoined d c w2")
  obtain r w4 where r: "drainPersonaScans d c None w3 = (r, w4)" by (cases "drainPersonaScans d c None w3")
  obtain x w5 where x: "composePersonaPost d (cv_groupId c) message choice w4 = (x, w5)"
    by (cases "composePersonaPost d (cv_groupId c) message choice w4")
  have ok: "bn \<noteq> Some True" "j = Inr True" "r"
    using assms b j r by (auto simp: persona_post_def split: option.splits bool.splits sum.splits)
  then have "x = Inr (Some post)" "w5 = w1"
    using assms b j r x by (auto simp: persona_post_def split: option.splits bool.splits sum.splits)
  then show ?thesis using x
    by (auto simp: composePersonaPost_def split: prod.splits sum.splits option.splits)
qed

lemma badge_if_held:
  assumes "getSelectedBadgeIfHeld d g w = (Some b, w1)"
  shows "\<exists>eng badges. eo_getBadges (d_engine d) eng = Inr badges \<and> b \<in> set badges"
  using assms
  by (auto simp: getSelectedBadgeIfHeld_def heldBadges_def sum_or_def split: prod.splits if_splits option.splits sum.splits)

lemma post_wire:
  "pp_personaRecordBase64 post = b64_encode bytes \<Longrightarrow> bytes \<noteq> [] \<Longrightarrow>
     wire_body d (post_fields message post badge name) = Some (encodePostBody bytes badge name)"
  by (simp add: wire_body_def post_fields_def plain_out_def truthy_str_def)

lemma post_phantom: "isPersonaPhantomBody (Some (encodePostBody bytes badge name))"
proof -
  obtain t where "encodePostBody bytes badge name = PERSONAS_POST_MARKER @ t" using encodePostBody_marked by blast
  moreover have "PERSONAS_POST_MARKER \<in> set PHANTOM_MARKERS" by (simp add: PHANTOM_MARKERS_def)
  ultimately show ?thesis by (simp add: phantom_marker)
qed

text \<open>A persona send that goes through put the engine's record on the wire.\<close>

lemma persona_send_wire:
  assumes "sendMultiMediaMessage d c to options w = (Sent ok, w')"
    and "so_personaChoice options = Some choice" and "so_message options = Some body" and "body \<noteq> []" and "\<not> so_isViewOnce options"
    and "\<forall>req eng em eng'. eo_emit (d_engine d) req eng = (Inr em, eng') \<longrightarrow> em_bytes em \<noteq> []"
  shows "\<exists>eng em eng' badge name. eo_emit (d_engine d) (post_request body choice) eng = (Inr em, eng')
    \<and> sm_wire (last_sent w') = Some (encodePostBody (em_bytes em) badge name)
    \<and> isPersonaPhantomBody (sm_wire (last_sent w'))
    \<and> (\<forall>b. badge = Some b \<longrightarrow> (\<exists>eng badges. eo_getBadges (d_engine d) eng = Inr badges \<and> b \<in> set badges))"
proof -
  let ?ts = "case so_timestamp options of Some t \<Rightarrow> t | None \<Rightarrow> env_now (w_env w)"
  obtain x w1 where x: "persona_post d c body choice w = (x, w1)" by (cases "persona_post d c body choice w")
  obtain post where post: "x = Inr post"
  proof (cases x)
    case (Inl out)
    then have "out = Sent ok" using assms(1-5) x by (simp add: sendMultiMediaMessage_def)
    then show ?thesis using Inl x
      by (auto simp: persona_post_def split: option.splits bool.splits sum.splits prod.splits)
  qed
  let ?w2 = "learn_petname d (cv_groupId c) choice (pp_persona post) w1"
  obtain badge w3 where b: "getSelectedBadgeIfHeld d (cv_groupId c) ?w2 = (badge, w3)"
    by (cases "getSelectedBadgeIfHeld d (cv_groupId c) ?w2")
  let ?name = "context_name d (cv_groupId c) options w3"
  have s: "snd (enqueue d to (post_fields body post badge ?name) False (Some ?ts) w3) = w'"
    using assms(1-5) x post b by (simp add: sendMultiMediaMessage_def Let_def split: prod.splits)
  obtain em w2 where em: "compose_caught d (cv_groupId c) (post_request body choice) w2 = (Inr (Some em), w1)"
      "pp_personaRecordBase64 post = b64_encode (em_bytes em)"
    using persona_post_emitted [OF x [unfolded post]] by auto
  obtain eng eng' where e: "eo_emit (d_engine d) (post_request body choice) eng = (Inr em, eng')"
    using em(1) by (auto simp: compose_caught_def emit_and_persist_def split: prod.splits option.splits sum.splits bool.splits)
  then have "em_bytes em \<noteq> []" using assms(6) by blast
  then have "sm_wire (last_sent w') = Some (encodePostBody (em_bytes em) badge ?name)"
    using s enqueue_out [of d to "post_fields body post badge ?name" False "Some ?ts" w3] post_wire [OF em(2)]
    by (auto simp: last_sent_def)
  moreover have "\<forall>k. badge = Some k \<longrightarrow> (\<exists>eng badges. eo_getBadges (d_engine d) eng = Inr badges \<and> k \<in> set badges)"
    using b badge_if_held by auto
  ultimately show ?thesis using e post_phantom
    by (intro exI [of _ eng] exI [of _ em] exI [of _ eng'] exI [of _ badge] exI [of _ ?name]) simp
qed


text \<open>A persona post is sent with the time of the send call, taken before joining, scanning and
  proving, and not with the time its own sender placed the record by: the send path prefers the
  caller's timestamp over the stamp.\<close>

theorem post_keeps_the_call_time:
  assumes "sendMultiMediaMessage d c to options w = (Sent ok, w')"
    and "so_personaChoice options = Some choice" and "so_message options = Some body" and "body \<noteq> []" and "\<not> so_isViewOnce options"
    and "so_timestamp options = None" and "env_now (w_env w) \<noteq> 0"
  shows "sm_sentAt (last_sent w') = env_now (w_env w)"
proof -
  obtain x w1 where x: "persona_post d c body choice w = (x, w1)" by (cases "persona_post d c body choice w")
  have e: "fst (send_time (Some (env_now (w_env w))) og now r) = env_now (w_env w)" for og now r
    using assms(7) by (simp add: send_time_def)
  show ?thesis
  proof (cases x)
    case (Inl out)
    then have "out = Sent ok" using assms(1-5) x by (simp add: sendMultiMediaMessage_def)
    then show ?thesis using Inl x
      by (auto simp: persona_post_def split: option.splits bool.splits sum.splits prod.splits)
  next
    case (Inr post)
    then obtain og w3 where s: "enqueue d to og False (Some (env_now (w_env w))) w3 = (ok, w')"
      using assms(1-6) x by (auto simp: sendMultiMediaMessage_def Let_def split: prod.splits)
    show ?thesis using enqueue_out [of d to og False "Some (env_now (w_env w))" w3] e s by (simp add: last_sent_def)
  qed
qed

text \<open>Polls, badge records and proofs, whose body is a prepared carriage, are sent with the clock's time:
  only a post's record or a plain record body finds the stamp.\<close>

lemma carriage_is_sent_unstamped:
  "og_body og = None \<Longrightarrow> og_personaRecordBase64 og = None \<Longrightarrow> send_time None og now r = (now, r)"
  by (simp add: send_time_def stamp_key_def decodeRecordBody_def takeOwnRecordSentAt_def)

section \<open>Anonymity of the sending identity\<close>



text \<open>The guard is open where no bundle is held: persona content of a group this client has no
  bundle for is sealed under the member's own account, device and certificate.\<close>

theorem persona_content_without_bundle_is_attributable:
  assumes "isPersonaContent content" and "ensurePhantomMaterial e g p = (None, q)"
    and "re_deviceId me = Some dev" and "re_certificate me = Some cert"
  shows "\<exists>s. encryptForSenderKey e me g distId content message p = (Inr s, q)
    \<and> sd_address s = (re_aci me, dev) \<and> sd_certificate s = cert \<and> sd_identity s = ids_getIdentityKey (re_store me)"
  using assms by (simp add: encryptForSenderKey_def)

section \<open>Receiving\<close>


text \<open>Trust roots are added once.\<close>

lemma addServerTrustRoot_set: "set (addServerTrustRoot b roots) = insert (b64_decode b) (set roots)"
    "distinct roots \<Longrightarrow> distinct (addServerTrustRoot b roots)"
  by (auto simp: addServerTrustRoot_def Let_def list_ex_iff)

section \<open>A post, sent\<close>

definition demo_options :: send_options where
  "demo_options = \<lparr>so_message = Some ''hi'', so_isViewOnce = False, so_timestamp = None, so_personaChoice = Some AnonChoice, so_personaContextName = None\<rparr>"

lemma demo_options_fields [simp]:
  "so_message demo_options = Some ''hi''" "\<not> so_isViewOnce demo_options" "so_timestamp demo_options = None"
  "so_personaChoice demo_options = Some AnonChoice"
  by (simp_all add: demo_options_def)

lemma demo_drained:
  assumes "settled_member (demo_deps io) c g eng w"
  shows "drainPersonaScans (demo_deps io) c None w = (True, w)"
proof -
  have "drain_limit None (eo_outstandingCallbacks demo_ops eng) = Suc 1" by (simp add: drain_limit_def demo_ops_def)
  then show ?thesis using assms settled_engine [OF assms] by (simp add: drainPersonaScans_def settled_member_def demo_ops_def)
qed

lemma demo_enqueue: "\<exists>w'. enqueue (demo_deps io) to og hid ts w = (True, w')"
  by (metis demo_fields(3) frame_enqueue(6) prod.collapse)

lemma demo_post: "\<exists>w'. sendMultiMediaMessage (demo_deps SaveOk) demo_conversation ''G'' demo_options joined_world = (Sent True, w')"
proof -
  let ?d = "demo_deps SaveOk"
  note st = joined_world_settled [of SaveOk]
  obtain w1 where c: "compose_caught ?d (Some ''G'') (EmitPostAnon ''hi'') joined_world
      = (Inr (Some \<lparr>em_bytes = ''rec'', em_eh = ''eh'', em_persona = None\<rparr>), w1)"
    using joined_world_composes by blast
  have b: "isPersonaBanned ?d (Some ''G'') joined_world = (Some False, joined_world)"
    using settled_engine [OF st] by (simp add: isPersonaBanned_def demo_conversation_group demo_ops_def)
  have "persona_post ?d demo_conversation ''hi'' AnonChoice joined_world
      = (Inr \<lparr>pp_body = ''hi'', pp_persona = None, pp_eh = ''eh'', pp_personaRecordBase64 = b64_encode ''rec''\<rparr>, w1)"
    using b c settled_joined [OF st] demo_drained [OF st]
    by (simp add: persona_post_def demo_conversation_group composePersonaPost_def post_request_def del: b64_encode.simps)
  note post = this
  obtain bd w2 where bd: "getSelectedBadgeIfHeld ?d (Some ''G'') w1 = (bd, w2)" by (cases "getSelectedBadgeIfHeld ?d (Some ''G'') w1")
  let ?og = "post_fields ''hi'' \<lparr>pp_body = ''hi'', pp_persona = None, pp_eh = ''eh'', pp_personaRecordBase64 = b64_encode ''rec''\<rparr> bd
    (context_name ?d (Some ''G'') demo_options w2)"
  obtain w3 where "enqueue ?d ''G'' ?og False (Some (env_now (w_env joined_world))) w2 = (True, w3)"
    using demo_enqueue by blast
  then show ?thesis
    using post bd by (simp add: sendMultiMediaMessage_def Let_def learn_petname_def demo_conversation_group del: b64_encode.simps)
qed


theorem post_keeps_the_call_time_witness:
  "\<exists>w'. sendMultiMediaMessage (demo_deps SaveOk) demo_conversation ''G'' demo_options joined_world = (Sent True, w')
     \<and> sm_sentAt (last_sent w') = 1000"
proof -
  obtain w' where w': "sendMultiMediaMessage (demo_deps SaveOk) demo_conversation ''G'' demo_options joined_world = (Sent True, w')"
    using demo_post by blast
  have t: "env_now (w_env joined_world) = 1000" by (simp add: joined_world_def demo_world_def demo_env_def)
  have "sm_sentAt (last_sent w') = env_now (w_env joined_world)"
    by (rule post_keeps_the_call_time [OF w', where choice = AnonChoice and body = "''hi''"]) (simp_all add: t)
  with w' t show ?thesis by auto
qed

definition demo_sender :: "string \<Rightarrow> real_sender" where
  "demo_sender aci = \<lparr>re_aci = aci, re_deviceId = Some 1, re_certificate = Some aci,
     re_store = \<lparr>ids_getIdentityKey = aci, ids_getLocalRegistrationId = 1, ids_getIdentity = (\<lambda>_. None), ids_isTrustedIdentity = (\<lambda>_ _. True)\<rparr>\<rparr>"

lemma demo_material: "\<exists>mat q. ensurePhantomMaterial demo_env (Some ''G'') demo_group = (Some mat, q)"
proof -
  have "fst (ensurePhantomMaterial demo_env (Some ''G'') demo_group) \<noteq> None" by code_simp
  then show ?thesis by (metis option.exhaust prod.collapse)
qed

lemma demo_content: "isPersonaContent (Some (Some (encodeRateBody ''rec'')))"
  by (simp add: isPersonaContent_def encodeRateBody_def phantom_marker phantom_members del: b64_encode.simps)



theorem persona_content_without_bundle_is_attributable_witness:
  "\<exists>s q. encryptForSenderKey demo_env (demo_sender ''me'') (Some ''H'') ''d1'' (Some (Some (encodeRateBody ''rec''))) ''m'' demo_group = (Inr s, q)
     \<and> sd_address s = (''me'', 1)"
proof -
  have "fst (ensurePhantomMaterial demo_env (Some ''H'') demo_group) = None" by code_simp
  then obtain q where m: "ensurePhantomMaterial demo_env (Some ''H'') demo_group = (None, q)" by (metis prod.collapse)
  have "re_deviceId (demo_sender ''me'') = Some 1" "re_certificate (demo_sender ''me'') = Some ''me''" "re_aci (demo_sender ''me'') = ''me''"
    by (simp_all add: demo_sender_def)
  with persona_content_without_bundle_is_attributable [OF demo_content m this(1,2), of "''d1''" "''m''"] show ?thesis
    by metis
qed


end
