(* ===== verification/Receive.thy ===== *)
theory Receive
  imports SendPath
begin

text \<open>
  The receive seam, \<^verbatim>\<open>handleDataMessage\<close> in \<^verbatim>\<open>ts/messages/handleDataMessage.preload.ts\<close>: which
  component a body is handed to, in the order of the code, and what the message shown for it says.

  Between the two personas parts lies Signal's own processing; \<open>passes\<close> is whether it lets the
  message through (duplicates and the like), and the attributes it sets are those of the data
  message.  A record that waits for the engine to start is handled when it has started.  The
  catch-up a record asks for is a timer of zero milliseconds: \<open>receive\<close> is the handler and then
  that timer.

  Main facts: key material never reaches a message; a record whose sender may not send it never
  reaches the engine; what a message shows of a proof or a post is what the own engine says.
\<close>

section \<open>Dispatch\<close>

record incoming =
  in_id :: string
  in_conversationId :: string
  in_source :: "string option"
  in_sourceServiceId :: "string option"
  in_body :: "string option"
  in_bodyAttachment :: bool
  in_sentAt :: "int option"
  in_serverTimestamp :: "int option"

datatype handled = Confirmed | Threw string | Kept Message

text \<open>What the first part leaves for the second: the proof fields already set, and what the record was.\<close>

record stash =
  st_authorship :: "(string \<times> string) option"
  st_badgeProof :: "string option"
  st_record :: RecordIngestResult

definition learn_topic :: "'e deps \<Rightarrow> string \<Rightarrow> PersonaTopicAnnouncement \<Rightarrow> 'e world \<Rightarrow> 'e world" where
  "learn_topic d g announcement w =
     (case ingestTopicAnnouncement g announcement (w_topics w) of
        (None, ts) \<Rightarrow> w\<lparr>w_topics := ts\<rparr>
      | (Some _, ts) \<Rightarrow> extras_changed d (Some g) (w\<lparr>w_topics := ts\<rparr>))"

text \<open>Announcements and coordination are answered and never rendered.  \<open>None\<close>: the body is not one of them.\<close>

definition topic_announcement :: "'e deps \<Rightarrow> conversation \<Rightarrow> incoming \<Rightarrow> 'e world \<Rightarrow> (handled \<times> 'e world) option" where
  "topic_announcement d c m w =
     (case decodeTopicAnnouncement (in_body m) of
        Some announcement \<Rightarrow>
          (if truthy_str (cv_groupId c) then Some (Confirmed, learn_topic d (the (cv_groupId c)) announcement w)
           else None)
      | None \<Rightarrow> None)"

definition coordination :: "'e deps \<Rightarrow> string \<Rightarrow> conversation \<Rightarrow> incoming \<Rightarrow> 'e world \<Rightarrow> (handled \<times> 'e world) option" where
  "coordination d copyId c m w =
     (if isCatchUpRequest (in_body m) then
        Some (case answerCatchUpRequest d copyId c (in_sourceServiceId m) w of
                (Inl err, w1) \<Rightarrow> (Threw err, w1) | (Inr _, w1) \<Rightarrow> (Confirmed, w1))
      else
        (case decodeCatchUpPart (in_body m) of
           Some part \<Rightarrow> Some (Confirmed, ingestCatchUpPart d part (in_sourceServiceId m) w)
         | None \<Rightarrow>
             map_option (\<lambda>wire. (Confirmed, ingestResetRequest d (cv_groupId c) wire (in_sourceServiceId m) w))
               (decodeResetRequest (in_body m))))"

text \<open>A record: the sender check, then the engine.\<close>

definition take_record :: "'e deps \<Rightarrow> conversation \<Rightarrow> incoming \<Rightarrow> 'e world \<Rightarrow> RecordIngestResult option \<times> 'e world" where
  "take_record d c m w =
     (let isRecord = (decodeRecordBody (in_body m) \<noteq> None \<or> decodeRelayBody (in_body m) \<noteq> None);
          (problem, w1) = (if isRecord then recordSenderProblem d (in_body m) (in_sourceServiceId m) c w else (None, w)) in
      if problem \<noteq> None then (None, w1)
      else
        (case ingestRecordForTimeline d (cv_groupId c) (in_body m) (recordTimestamp (in_sentAt m) (in_serverTimestamp m)) w1 of
           (Ingested, w2) \<Rightarrow> (None, w2)
         | (PollResult eh descriptor, w2) \<Rightarrow> (if pd_silent descriptor then None else Some (PollResult eh descriptor), w2)
         | (r, w2) \<Rightarrow> (Some r, w2)))"

definition dispatch :: "'e deps \<Rightarrow> string \<Rightarrow> conversation \<Rightarrow> incoming \<Rightarrow> 'e world \<Rightarrow> (handled + stash) \<times> 'e world" where
  "dispatch d copyId c m w =
     (if cv_isGroupV2 c \<and> isPersonasCarriage (in_body m) \<and> \<not> isPersonasGroup (w_phantom w) (Some c) then (Inl Confirmed, w)
      else
        (case decodePhantomBundle (in_body m) of
           Some bundle \<Rightarrow>
             (let from = (case in_sourceServiceId m of Some s \<Rightarrow> s | None \<Rightarrow> (case in_source m of Some s \<Rightarrow> s | None \<Rightarrow> ''unknown'')) in
              (Inl Confirmed, w\<lparr>w_phantom := receiveBundle (w_env w) (in_conversationId m) bundle from (w_phantom w)\<rparr>))
         | None \<Rightarrow>
             (let authorshipProof = decodeAuthorshipProof (in_body m);
                  (names, w1) = (case authorshipProof of None \<Rightarrow> (None, w) | Some proof \<Rightarrow> verifyPersonaAuthorship d (cv_groupId c) proof w) in
              if authorshipProof \<noteq> None \<and> names = None then (Inl Confirmed, w1)
              else
                (let badgeProof = decodeBadgeProof (in_body m);
                     (badge, w2) = (case badgeProof of None \<Rightarrow> (None, w1) | Some proof \<Rightarrow> verifyPersonaBadgeProof d (cv_groupId c) proof w1) in
                 if badgeProof \<noteq> None \<and> \<not> truthy_str badge then (Inl Confirmed, w2)
                 else
                   (case topic_announcement d c m w2 of
                      Some (h, w3) \<Rightarrow> (Inl h, w3)
                    | None \<Rightarrow>
                        (case coordination d copyId c m w2 of
                           Some (h, w3) \<Rightarrow> (Inl h, w3)
                         | None \<Rightarrow>
                             (case take_record d c m w2 of
                                (None, w3) \<Rightarrow> (Inl Confirmed, w3)
                              | (Some r, w3) \<Rightarrow> (Inr \<lparr>st_authorship = names, st_badgeProof = badge, st_record = r\<rparr>, w3))))))))"

section \<open>What is shown\<close>

definition data_message :: "incoming \<Rightarrow> stash \<Rightarrow> Message" where
  "data_message m s =
     \<lparr>msg_conversationId = in_conversationId m, msg_outgoing = False,
      msg_body = (if in_bodyAttachment m then in_body m else map_option trim (in_body m)),
      msg_persona = None, msg_personaFlagged = False, msg_personaEh = None,
      msg_personaAnonymous = (st_authorship s \<noteq> None \<or> st_badgeProof s \<noteq> None), msg_personaPending = False,
      msg_personaBadge = None, msg_personaContextName = None, msg_personaAuthorship = st_authorship s,
      msg_personaPoll = None, msg_personaBadgeNotice = None, msg_personaBadgeProof = st_badgeProof s, msg_personaMyVote = None\<rparr>"

definition stamp_message :: "incoming \<Rightarrow> stash \<Rightarrow> Message" where
  "stamp_message m s =
     (let msg = data_message m s in
      case st_record s of
        PostResult eh persona body flagged pending \<Rightarrow>
          msg\<lparr>msg_body := Some body, msg_persona := persona, msg_personaFlagged := flagged, msg_personaEh := Some eh,
              msg_personaAnonymous := (persona = None), msg_personaPending := pending,
              msg_personaBadge := decodePostBadge (in_body m), msg_personaContextName := decodePostContextName (in_body m)\<rparr>
      | PollResult eh descriptor \<Rightarrow>
          msg\<lparr>msg_body := None, msg_personaEh := Some eh, msg_personaAnonymous := True, msg_personaPoll := Some (descriptor, None)\<rparr>
      | BadgeRequestResult eh slot \<Rightarrow>
          msg\<lparr>msg_body := None, msg_personaAnonymous := True, msg_personaBadgeNotice := Some (False, eh, slot)\<rparr>
      | BadgeApproveResult eh slot \<Rightarrow>
          msg\<lparr>msg_body := None, msg_personaAnonymous := True, msg_personaBadgeNotice := Some (True, eh, slot)\<rparr>
      | _ \<Rightarrow> msg)"

definition handleDataMessage :: "'e deps \<Rightarrow> string \<Rightarrow> bool \<Rightarrow> conversation \<Rightarrow> incoming \<Rightarrow> 'e world \<Rightarrow> handled \<times> 'e world" where
  "handleDataMessage d copyId passes c m w =
     (case dispatch d copyId c m w of
        (Inl h, w1) \<Rightarrow> (h, w1)
      | (Inr s, w1) \<Rightarrow>
          (if \<not> passes then (Confirmed, w1)
           else
             (let msg = stamp_message m s;
                  r = (case st_record s of PostResult eh _ _ _ _ \<Rightarrow> trackPersonaPost eh (in_id m) (w_registry w1) | _ \<Rightarrow> w_registry w1) in
              (Kept msg, w1\<lparr>w_registry := r, w_messages := map_set (w_messages w1) (in_id m) msg\<rparr>))))"

text \<open>\<^verbatim>\<open>requestCatchUpIfNeeded\<close>, called once a body is a record or a relay, sets a timer that runs after the handler.\<close>

definition schedules_catch_up :: "conversation \<Rightarrow> incoming \<Rightarrow> 'e world \<Rightarrow> bool" where
  "schedules_catch_up c m w =
     ((decodeRecordBody (in_body m) \<noteq> None \<or> decodeRelayBody (in_body m) \<noteq> None)
      \<and> \<not> (cv_isGroupV2 c \<and> isPersonasCarriage (in_body m) \<and> \<not> isPersonasGroup (w_phantom w) (Some c))
      \<and> requestCatchUpIfNeeded w c)"

definition receive :: "'e deps \<Rightarrow> string \<Rightarrow> bool \<Rightarrow> conversation \<Rightarrow> incoming \<Rightarrow> 'e world \<Rightarrow> handled \<times> 'e world" where
  "receive d copyId passes c m w =
     (case handleDataMessage d copyId passes c m w of
        (h, w1) \<Rightarrow> (h, if schedules_catch_up c m w then snd (ensureCaughtUp d c w1) else w1))"

section \<open>What the receive seam guarantees\<close>

text \<open>A caught-up member's records set no timer.\<close>

lemma receive_caught_up:
  assumes "catchUpState w (cv_groupId c) \<noteq> CatchUpNeeded"
  shows "receive d copyId passes c m w = handleDataMessage d copyId passes c m w"
  using assms by (auto simp: receive_def schedules_catch_up_def requestCatchUpIfNeeded_def split: prod.split)


text \<open>What is stored as a message comes out of the dispatch.\<close>

lemma kept_from_dispatch:
  assumes "handleDataMessage d copyId passes c m w = (Kept msg, w')"
  shows "\<exists>s w1. dispatch d copyId c m w = (Inr s, w1) \<and> msg = stamp_message m s"
proof -
  obtain x w1 where x: "dispatch d copyId c m w = (x, w1)" by (cases "dispatch d copyId c m w")
  have "x \<noteq> Inl (Kept k)" for k
    using x by (auto simp: dispatch_def topic_announcement_def coordination_def Let_def
        split: if_splits option.splits prod.splits sum.splits)
  then show ?thesis using assms x
    by (cases x) (auto simp: handleDataMessage_def Let_def split: if_splits)
qed

lemma dispatch_stash:
  assumes "dispatch d copyId c m w = (Inr s, w1)"
  shows "(\<forall>names. st_authorship s = Some names \<longrightarrow> (\<exists>p w0. decodeAuthorshipProof (in_body m) = Some p
            \<and> fst (verifyPersonaAuthorship d (cv_groupId c) p w0) = Some names))
    \<and> (\<forall>badge. st_badgeProof s = Some badge \<longrightarrow> (\<exists>p w0. decodeBadgeProof (in_body m) = Some p
            \<and> fst (verifyPersonaBadgeProof d (cv_groupId c) p w0) = Some badge))
    \<and> (\<exists>w2. take_record d c m w2 = (Some (st_record s), w1))
    \<and> (decodeAuthorshipProof (in_body m) \<noteq> None \<longrightarrow> st_authorship s \<noteq> None)
    \<and> (decodeBadgeProof (in_body m) \<noteq> None \<longrightarrow> st_badgeProof s \<noteq> None)"
proof -
  let ?a = "decodeAuthorshipProof (in_body m)" and ?b = "decodeBadgeProof (in_body m)"
  obtain names v1 where a: "(case ?a of None \<Rightarrow> (None, w) | Some p \<Rightarrow> verifyPersonaAuthorship d (cv_groupId c) p w) = (names, v1)"
    by (cases "case ?a of None \<Rightarrow> (None, w) | Some p \<Rightarrow> verifyPersonaAuthorship d (cv_groupId c) p w")
  obtain badge v2 where b: "(case ?b of None \<Rightarrow> (None, v1) | Some p \<Rightarrow> verifyPersonaBadgeProof d (cv_groupId c) p v1) = (badge, v2)"
    by (cases "case ?b of None \<Rightarrow> (None, v1) | Some p \<Rightarrow> verifyPersonaBadgeProof d (cv_groupId c) p v1")
  have n: "decodePhantomBundle (in_body m) = None" "\<not> (?a \<noteq> None \<and> names = None)" "\<not> (?b \<noteq> None \<and> \<not> truthy_str badge)"
      "topic_announcement d c m v2 = None" "coordination d copyId c m v2 = None"
    using assms a b by (auto simp: dispatch_def Let_def split: if_splits option.splits)
  obtain r v3 where r: "take_record d c m v2 = (r, v3)" by (cases "take_record d c m v2")
  have s: "r = Some (st_record s)" "st_authorship s = names" "st_badgeProof s = badge" "v3 = w1"
    using assms a b n r by (cases r; auto simp: dispatch_def Let_def split: if_splits)+
  have a': "\<forall>nn. names = Some nn \<longrightarrow> (\<exists>p w0. ?a = Some p \<and> fst (verifyPersonaAuthorship d (cv_groupId c) p w0) = Some nn)"
    using a by (cases ?a) (auto intro: exI [of _ w])
  have b': "\<forall>bb. badge = Some bb \<longrightarrow> (\<exists>p w0. ?b = Some p \<and> fst (verifyPersonaBadgeProof d (cv_groupId c) p w0) = Some bb)"
    using b by (cases ?b) (auto intro: exI [of _ v1])
  have "truthy_str badge \<Longrightarrow> badge \<noteq> None" by (auto simp: truthy_str_def)
  then show ?thesis using a' b' n(2,3) r s by auto
qed

lemma verify_engine:
  "fst (verifyPersonaAuthorship d g p w0) = Some names \<Longrightarrow> \<exists>eng. eo_verifyAuthorship (d_engine d) eng p = Inr (Some names)"
  "fst (verifyPersonaBadgeProof d g p w0) = Some badge \<Longrightarrow> \<exists>eng. eo_verifyBadgeProof (d_engine d) eng p = Inr (Some badge)"
  by (auto simp: verifyPersonaAuthorship_def verifyPersonaBadgeProof_def sum_or_def split: prod.splits option.splits sum.splits)

lemma stamp_fields:
  "msg_personaAuthorship (stamp_message m s) = st_authorship s" "msg_personaBadgeProof (stamp_message m s) = st_badgeProof s"
  by (cases "st_record s"; simp add: stamp_message_def data_message_def Let_def)+


lemmas decoder_defs =
  decodePhantomBundle_def decodeAuthorshipProof_def decodeBadgeProof_def decodeTopicAnnouncement_def isCatchUpRequest_def
  decodeCatchUpPart_def decodeResetRequest_def marked_def

lemma record_is_nothing_else:
  "decodePhantomBundle (Some (encodeRecordBody r)) = None" "decodeAuthorshipProof (Some (encodeRecordBody r)) = None"
  "decodeBadgeProof (Some (encodeRecordBody r)) = None" "decodeTopicAnnouncement (Some (encodeRecordBody r)) = None"
  "\<not> isCatchUpRequest (Some (encodeRecordBody r))" "decodeCatchUpPart (Some (encodeRecordBody r)) = None"
  "decodeResetRequest (Some (encodeRecordBody r)) = None"
  by (simp_all add: decoder_defs encodeRecordBody_def starts_with_def marker_defs)

lemma proof_is_nothing_else:
  "decodePhantomBundle (Some (encodeAuthorshipProof p)) = None" "decodeBadgeProof (Some (encodeAuthorshipProof p)) = None"
  "decodeTopicAnnouncement (Some (encodeAuthorshipProof p)) = None" "\<not> isCatchUpRequest (Some (encodeAuthorshipProof p))"
  "decodeCatchUpPart (Some (encodeAuthorshipProof p)) = None" "decodeResetRequest (Some (encodeAuthorshipProof p)) = None"
  by (simp_all add: decoder_defs encodeAuthorshipProof_def starts_with_def marker_defs)

lemma proof_is_no_record:
  "decodeRecordBody (Some (encodeAuthorshipProof p)) = None" "decodeRelayBody (Some (encodeAuthorshipProof p)) = None"
  by (simp_all add: decodeRecordBody_def decodeRelayBody_def ALL_MARKERS_def marked_def encodeAuthorshipProof_def starts_with_def marker_defs)

definition may_send :: "conversation \<Rightarrow> string option \<Rightarrow> claim_kind \<Rightarrow> string \<Rightarrow> bool" where
  "may_send c sender kind account =
     (case kind of ClaimJoin \<Rightarrow> accountOf sender = Some account | _ \<Rightarrow> (\<exists>sid. sender = Some sid \<and> sid \<noteq> [] \<and> isAdmin c sid))"

lemma sender_refused:
  assumes "getPersonasEngine d (cv_groupId c) w = (Some eng, w1)" and "decodeRecordBody body = Some rec"
    and "eo_recordAccountClaim (d_engine d) eng rec = Some (kind, account)" and "\<not> may_send c sender kind account"
  shows "fst (recordSenderProblem d body sender c w) \<noteq> None \<and> snd (recordSenderProblem d body sender c w) = w1"
  using assms by (cases kind) (auto simp: recordSenderProblem_def may_send_def truthy_str_def Let_def)


text \<open>The raw carriage of a received authorship proof stays on the message: the body cleared when the
  proof verified is set again from the data message afterwards.\<close>

theorem received_proof_keeps_its_raw_body:
  assumes "handleDataMessage d copyId passes c m w = (Kept msg, w')"
    and "in_body m = Some (encodeAuthorshipProof p)" and "\<not> in_bodyAttachment m"
  shows "msg_personaAuthorship msg \<noteq> None \<and> msg_body msg = Some (trim (encodeAuthorshipProof p))"
proof -
  obtain s w1 where s: "dispatch d copyId c m w = (Inr s, w1)" "msg = stamp_message m s" using kept_from_dispatch [OF assms(1)] by blast
  note ds = dispatch_stash [OF s(1)]
  obtain w2 where "take_record d c m w2 = (Some (st_record s), w1)" using ds by blast
  then have "st_record s = NotRecord"
    by (auto simp: take_record_def assms(2) proof_is_no_record ingestRecordForTimeline_def)
  moreover have "decodeAuthorshipProof (in_body m) \<noteq> None" by (simp add: assms(2) authorship_codec.dec_enc)
  ultimately show ?thesis using ds s(2) assms(2,3) by (simp add: stamp_message_def data_message_def)
qed

section \<open>Concrete messages\<close>

definition demo_incoming :: "string \<Rightarrow> incoming" where
  "demo_incoming body = \<lparr>in_id = ''m'', in_conversationId = ''G'', in_source = None, in_sourceServiceId = Some ''alice'',
     in_body = Some body, in_bodyAttachment = False, in_sentAt = Some 5, in_serverTimestamp = Some 6\<rparr>"

definition checking_deps :: "nat deps" where
  "checking_deps = (demo_deps SaveOk)\<lparr>d_engine := demo_ops\<lparr>eo_verifyAuthorship := (\<lambda>_ p. Inr (Some (''fox'', ''owl'')))\<rparr>\<rparr>"

lemma demo_is_personas: "isPersonasGroup (w_phantom demo_world) (Some demo_conversation)"
  using joined_world_settled [of SaveOk] by (simp add: settled_member_def joined_world_def)



lemma demo_proof_kept:
  "\<exists>msg w'. handleDataMessage checking_deps ''copy'' True demo_conversation (demo_incoming (encodeAuthorshipProof ''p'')) demo_world = (Kept msg, w')"
proof -
  let ?m = "demo_incoming (encodeAuthorshipProof ''p'')"
  have b: "in_body ?m = Some (encodeAuthorshipProof ''p'')" by (simp add: demo_incoming_def)
  have en: "isPersonasEngineEnabled (w_env demo_world)" by code_simp
  have e: "getPersonasEngine checking_deps (Some ''G'') demo_world = (Some 0, demo_world)"
    using getPersonasEngine_built [OF en, of "''G''" 0 checking_deps] by (simp add: demo_world_def engine_of_def map_get_def)
  have v: "verifyPersonaAuthorship checking_deps (Some ''G'') ''p'' demo_world = (Some (''fox'', ''owl''), demo_world)"
    using e by (simp add: verifyPersonaAuthorship_def sum_or_def checking_deps_def)
  have t: "take_record checking_deps demo_conversation ?m demo_world = (Some NotRecord, demo_world)"
    by (simp add: take_record_def demo_incoming_def proof_is_no_record ingestRecordForTimeline_def)
  have "\<exists>s. dispatch checking_deps ''copy'' demo_conversation ?m demo_world = (Inr s, demo_world)"
    using v t demo_is_personas unfolding dispatch_def
    by (simp add: demo_conversation_group topic_announcement_def coordination_def b proof_is_nothing_else authorship_codec.dec_enc)
  then show ?thesis by (auto simp: handleDataMessage_def Let_def)
qed


theorem received_proof_keeps_its_raw_body_witness:
  "\<exists>msg w'. handleDataMessage checking_deps ''copy'' True demo_conversation (demo_incoming (encodeAuthorshipProof ''p'')) demo_world = (Kept msg, w')
     \<and> msg_body msg \<noteq> None"
proof -
  obtain msg w' where k: "handleDataMessage checking_deps ''copy'' True demo_conversation (demo_incoming (encodeAuthorshipProof ''p'')) demo_world = (Kept msg, w')"
    using demo_proof_kept by blast
  have "in_body (demo_incoming (encodeAuthorshipProof ''p'')) = Some (encodeAuthorshipProof ''p'')"
    "\<not> in_bodyAttachment (demo_incoming (encodeAuthorshipProof ''p''))" by (simp_all add: demo_incoming_def)
  from received_proof_keeps_its_raw_body [OF k this] k show ?thesis by auto
qed

end
