(* ===== verification/Flags.thy ===== *)
theory Flags
  imports Receive
begin

text \<open>
  \<^verbatim>\<open>ts/services/personasFlags.preload.ts\<close>: the loop that keeps the revocation flags of shown posts up
  to date, completes resets and continues catch-up, and the idle scan.

  Main facts: after a refresh every tracked post shows the flag its group's engine has, a held post
  is shown once the engine has applied it, nothing else of any message changes, and a second refresh
  finds nothing to do.
\<close>

section \<open>Flags\<close>

definition REFRESH_INTERVAL_MS :: int where "REFRESH_INTERVAL_MS = 2000"
definition SCAN_INTERVAL_MS :: int where "SCAN_INTERVAL_MS = 24 * 60 * 60 * 1000"

definition isAutoScanEnabled :: "'e deps \<Rightarrow> bool" where
  "isAutoScanEnabled d =
     (case map_option trim (d_autoScan d) of
        None \<Rightarrow> True
      | Some raw \<Rightarrow> raw \<noteq> ''0'' \<and> to_lower raw \<noteq> ''off'' \<and> to_lower raw \<noteq> ''false'')"

definition group_of_message :: "'e world \<Rightarrow> Message \<Rightarrow> string option" where
  "group_of_message w msg = Option.bind (conversation_of w (msg_conversationId msg)) cv_groupId"

definition set_message :: "string \<Rightarrow> Message \<Rightarrow> 'e world \<Rightarrow> 'e world" where
  "set_message mid msg w = w\<lparr>w_messages := map_set (w_messages w) mid msg\<rparr>"

definition refresh_post :: "'e deps \<Rightarrow> string \<times> string \<Rightarrow> nat \<times> 'e world \<Rightarrow> nat \<times> 'e world" where
  "refresh_post d tracked nw =
     (case (tracked, nw) of ((eh, messageId), (changed, w)) \<Rightarrow>
        (case map_get (w_messages w) messageId of
           None \<Rightarrow> (changed, w)
         | Some message \<Rightarrow>
             (let g = group_of_message w message in
              if msg_personaPending message then
                (case appliedPost d g eh w of
                   None \<Rightarrow> (changed, w)
                 | Some (body, persona, flagged) \<Rightarrow>
                     (changed + 1, set_message messageId
                        (message\<lparr>msg_body := Some body, msg_persona := persona, msg_personaAnonymous := (persona = None),
                                 msg_personaFlagged := flagged, msg_personaPending := False\<rparr>) w))
              else
                (case isPostFlagged d g eh w of
                   (None, w1) \<Rightarrow> (changed, w1)
                 | (Some flagged, w1) \<Rightarrow>
                     (if msg_personaFlagged message = flagged then (changed, w1)
                      else (changed + 1, set_message messageId (message\<lparr>msg_personaFlagged := flagged\<rparr>) w1))))))"

definition refreshPersonaFlags :: "'e deps \<Rightarrow> 'e world \<Rightarrow> nat \<times> 'e world" where
  "refreshPersonaFlags d w =
     (let tracked = getTrackedPersonaPosts (w_registry w) in
      if \<not> isPersonasEngineEnabled (w_env w) \<or> tracked = [] then (0, w) else fold (refresh_post d) tracked (0, w))"

section \<open>The loops\<close>

definition refresh_tick :: "'e deps \<Rightarrow> 'e world \<Rightarrow> 'e world" where
  "refresh_tick d w = snd (maybeContinueCatchUp d (maybeCompletePersonasReset d (snd (refreshPersonaFlags d w))))"

definition idle_scan :: "'e deps \<Rightarrow> string \<Rightarrow> 'e world \<Rightarrow> 'e world" where
  "idle_scan d g w =
     (case conversation_of w g of
        None \<Rightarrow> w
      | Some c \<Rightarrow>
          (case hasJoinedPersonaGroup d (Some g) w of
             (False, w1) \<Rightarrow> w1
           | (True, w1) \<Rightarrow> snd (sendPersonaScan d c w1)))"

definition scan_tick :: "'e deps \<Rightarrow> 'e world \<Rightarrow> 'e world" where
  "scan_tick d w = fold (idle_scan d) (map fst (builtPersonasEngines w)) w"

text \<open>The two timers: whether the refresh loop and the scan loop have been started.\<close>

definition startPersonaFlagLoops :: "'e deps \<Rightarrow> 'e world \<Rightarrow> bool \<times> bool \<Rightarrow> bool \<times> bool" where
  "startPersonaFlagLoops d w timers =
     (if \<not> isPersonasEngineEnabled (w_env w) then timers else (True, snd timers \<or> isAutoScanEnabled d))"

section \<open>What a refresh does\<close>

text \<open>What a message should say, given the engine of its group.\<close>

definition refreshed :: "'e deps \<Rightarrow> 'e \<Rightarrow> string \<Rightarrow> Message \<Rightarrow> Message" where
  "refreshed d eng eh msg =
     (case eo_logEntry (d_engine d) eng eh of
        None \<Rightarrow> msg
      | Some entry \<Rightarrow>
          (if \<not> msg_personaPending msg then msg\<lparr>msg_personaFlagged := le_flagged entry\<rparr>
           else if le_kind entry \<noteq> ''Post'' then msg
           else msg\<lparr>msg_body := Some (le_body entry), msg_persona := le_author entry,
                    msg_personaAnonymous := (le_author entry = None), msg_personaFlagged := le_flagged entry,
                    msg_personaPending := False\<rparr>))"

definition engine_for :: "'e world \<Rightarrow> Message \<Rightarrow> 'e option" where
  "engine_for w msg = (case group_of_message w msg of None \<Rightarrow> None | Some g \<Rightarrow> if g = [] then None else engine_of w g)"

lemma refresh_post_built:
  assumes "isPersonasEngineEnabled (w_env w)" and "map_get (w_messages w) mid = Some msg" and "engine_for w msg = Some eng"
  shows "refresh_post d (eh, mid) (n, w) =
    (if refreshed d eng eh msg = msg then (n, w) else (n + 1, set_message mid (refreshed d eng eh msg) w))"
proof -
  obtain g where g: "group_of_message w msg = Some g" "g \<noteq> []" "engine_of w g = Some eng"
    using assms(3) by (auto simp: engine_for_def split: option.splits if_splits)
  have e: "getPersonasEngine d (Some g) w = (Some eng, w)" by (rule getPersonasEngine_built [OF assms(1) g(2,3)])
  have same: "msg\<lparr>msg_personaFlagged := x\<rparr> = msg \<longleftrightarrow> msg_personaFlagged msg = x" for x by (cases msg) auto
  have applied: "msg_personaPending msg \<Longrightarrow> msg\<lparr>msg_body := a, msg_persona := b, msg_personaAnonymous := c, msg_personaFlagged := f,
      msg_personaPending := False\<rparr> \<noteq> msg" for a b c f by (cases msg) auto
  show ?thesis
  proof (cases "eo_logEntry (d_engine d) eng eh")
    case None
    then show ?thesis using assms(2) g e
      by (simp add: refresh_post_def refreshed_def Let_def appliedPost_def isPostFlagged_def truthy_str_def)
  next
    case (Some entry)
    show ?thesis
    proof (cases "msg_personaPending msg")
      case True
      then show ?thesis using assms(2) g e Some applied
        by (simp add: refresh_post_def refreshed_def Let_def appliedPost_def truthy_str_def)
    next
      case False
      then show ?thesis using assms(2) g e Some same
        by (simp add: refresh_post_def refreshed_def Let_def isPostFlagged_def)
    qed
  qed
qed

text \<open>Every tracked message that is in the cache belongs to a group whose engine is built.\<close>

definition engines_built :: "(string \<times> string) list \<Rightarrow> 'e world \<Rightarrow> bool" where
  "engines_built tracked w =
     (\<forall>(eh, mid) \<in> set tracked. \<forall>msg. map_get (w_messages w) mid = Some msg \<longrightarrow> engine_for w msg \<noteq> None)"

lemma refreshed_frame:
  "msg_conversationId (refreshed d eng eh msg) = msg_conversationId msg"
  "refreshed d eng eh (refreshed d eng eh msg) = refreshed d eng eh msg"
  by (auto simp: refreshed_def split: option.split)

lemma engine_for_set [simp]: "engine_for (set_message mid m w) msg = engine_for w msg"
  by (simp add: engine_for_def group_of_message_def conversation_of_def set_message_def engine_of_def split: option.split)

lemma engine_for_refreshed [simp]: "engine_for w (refreshed d eng eh msg) = engine_for w msg"
  by (simp add: engine_for_def group_of_message_def refreshed_frame cong: option.case_cong)

text \<open>One post: its own message is brought up to date, every other one is left alone.\<close>

lemma refresh_post_spec:
  assumes "isPersonasEngineEnabled (w_env w)" and "engines_built [(eh, mid)] w" and "refresh_post d (eh, mid) (n, w) = (n', w')"
  shows "isPersonasEngineEnabled (w_env w') \<and> w_registry w' = w_registry w \<and> (\<forall>x. engine_for w' x = engine_for w x)
    \<and> (\<forall>k. map_get (w_messages w') k =
         (if k = mid then map_option (\<lambda>msg. refreshed d (the (engine_for w msg)) eh msg) (map_get (w_messages w) mid)
          else map_get (w_messages w) k))
    \<and> (n' = n \<longrightarrow> w' = w) \<and> n \<le> n'"
proof (cases "map_get (w_messages w) mid")
  case None
  then show ?thesis using assms by (auto simp: refresh_post_def)
next
  case (Some msg)
  then obtain eng where e: "engine_for w msg = Some eng" using assms(2) by (auto simp: engines_built_def)
  note r = refresh_post_built [OF assms(1) Some e, of d eh n]
  show ?thesis
  proof (cases "refreshed d eng eh msg = msg")
    case True
    then show ?thesis using r assms Some e by auto
  next
    case False
    then show ?thesis using r assms(1,3) Some e by (auto simp: set_message_def [symmetric]) (auto simp: set_message_def)
  qed
qed

lemma refresh_all:
  "isPersonasEngineEnabled (w_env w) \<Longrightarrow> engines_built tracked w \<Longrightarrow> distinct (map snd tracked) \<Longrightarrow>
   fold (refresh_post d) tracked (n, w) = (n', w') \<Longrightarrow>
     isPersonasEngineEnabled (w_env w') \<and> w_registry w' = w_registry w \<and> (\<forall>x. engine_for w' x = engine_for w x)
     \<and> (\<forall>(eh, mid) \<in> set tracked. map_get (w_messages w') mid =
           map_option (\<lambda>msg. refreshed d (the (engine_for w msg)) eh msg) (map_get (w_messages w) mid))
     \<and> (\<forall>k. k \<notin> snd ` set tracked \<longrightarrow> map_get (w_messages w') k = map_get (w_messages w) k)
     \<and> (n' = n \<longrightarrow> w' = w) \<and> n \<le> n'"
proof (induction tracked arbitrary: n w)
  case (Cons t tracked)
  obtain eh mid where t: "t = (eh, mid)" by (cases t)
  obtain n1 w1 where r: "refresh_post d (eh, mid) (n, w) = (n1, w1)" by (cases "refresh_post d (eh, mid) (n, w)")
  have b: "engines_built [(eh, mid)] w" using Cons.prems(2) t by (simp add: engines_built_def)
  note one = refresh_post_spec [OF Cons.prems(1) b r]
  have other: "m \<noteq> mid \<Longrightarrow> map_get (w_messages w1) m = map_get (w_messages w) m" for m using one by simp
  have fresh: "m \<noteq> mid" if "(e, m) \<in> set tracked" for e m using Cons.prems(3) t that by force
  have "engines_built tracked w1" using Cons.prems(2) t one other fresh
    unfolding engines_built_def by fastforce
  moreover have "isPersonasEngineEnabled (w_env w1)" "distinct (map snd tracked)" "fold (refresh_post d) tracked (n1, w1) = (n', w')"
    using one Cons.prems(3,4) t r by auto
  ultimately have ih: "isPersonasEngineEnabled (w_env w')" "w_registry w' = w_registry w1" "\<forall>x. engine_for w' x = engine_for w1 x"
      "\<forall>(eh, mid) \<in> set tracked. map_get (w_messages w') mid =
           map_option (\<lambda>msg. refreshed d (the (engine_for w1 msg)) eh msg) (map_get (w_messages w1) mid)"
      "\<forall>k. k \<notin> snd ` set tracked \<longrightarrow> map_get (w_messages w') k = map_get (w_messages w1) k" "n' = n1 \<longrightarrow> w' = w1" "n1 \<le> n'"
    using Cons.IH [of w1 n1] by blast+
  have mine: "map_get (w_messages w') mid = map_option (\<lambda>msg. refreshed d (the (engine_for w msg)) eh msg) (map_get (w_messages w) mid)"
  proof -
    have "mid \<notin> snd ` set tracked" using Cons.prems(3) t by simp
    then have "map_get (w_messages w') mid = map_get (w_messages w1) mid" using ih(5) by blast
    then show ?thesis using one by simp
  qed
  have theirs: "map_get (w_messages w') m = map_option (\<lambda>msg. refreshed d (the (engine_for w msg)) e msg) (map_get (w_messages w) m)"
    if "(e, m) \<in> set tracked" for e m
    using bspec [OF ih(4) that] other [OF fresh [OF that]] one by (simp cong: option.map_cong)
  have reg: "w_registry w' = w_registry w" "\<forall>x. engine_for w' x = engine_for w x" using ih(2,3) one by simp_all
  have all: "\<forall>(e, m) \<in> set (t # tracked). map_get (w_messages w') m
      = map_option (\<lambda>msg. refreshed d (the (engine_for w msg)) e msg) (map_get (w_messages w) m)"
    using mine theirs t by auto
  have rest: "\<forall>k. k \<notin> snd ` set (t # tracked) \<longrightarrow> map_get (w_messages w') k = map_get (w_messages w) k"
    using ih(5) other t by simp
  have count: "n \<le> n'" "n' = n \<longrightarrow> w' = w" using ih(6,7) one by auto
  show ?case using ih(1) reg all rest count by (intro conjI)
qed auto

lemma refresh_none:
  assumes "isPersonasEngineEnabled (w_env w)" and "engines_built tracked w"
    and "\<And>eh mid msg. (eh, mid) \<in> set tracked \<Longrightarrow> map_get (w_messages w) mid = Some msg \<Longrightarrow> refreshed d (the (engine_for w msg)) eh msg = msg"
  shows "fold (refresh_post d) tracked (n, w) = (n, w)"
  using assms(2,3)
proof (induction tracked)
  case (Cons t tracked)
  obtain eh mid where t: "t = (eh, mid)" by (cases t)
  have "refresh_post d (eh, mid) (n, w) = (n, w)"
  proof (cases "map_get (w_messages w) mid")
    case (Some msg)
    then obtain eng where e: "engine_for w msg = Some eng" using Cons.prems(1) t by (auto simp: engines_built_def)
    then show ?thesis using refresh_post_built [OF assms(1) Some e] Cons.prems(2) [of eh mid msg] t Some by simp
  qed (simp add: refresh_post_def)
  moreover have "fold (refresh_post d) tracked (n, w) = (n, w)"
  proof (rule Cons.IH)
    show "engines_built tracked w" using Cons.prems(1) by (simp add: engines_built_def)
    show "refreshed d (the (engine_for w msg)) eh msg = msg" if "(eh, mid) \<in> set tracked" "map_get (w_messages w) mid = Some msg" for eh mid msg
      by (rule Cons.prems(2) [OF _ that(2)]) (simp add: that(1))
  qed
  ultimately show ?case by (simp add: t)
qed simp

text \<open>C31. Flags follow the engine: after a refresh every tracked post in the cache says what the engine of
  its group has on it (the flag; for a post that was being held and has been applied, its text and
  author too), no other message has changed, and refreshing again finds nothing to change.\<close>

theorem flags_follow_the_engine:
  assumes "isPersonasEngineEnabled (w_env w)" and "engines_built (getTrackedPersonaPosts (w_registry w)) w"
    and "distinct (map snd (getTrackedPersonaPosts (w_registry w)))" and "refreshPersonaFlags d w = (n, w')"
  shows "(\<forall>(eh, mid) \<in> set (getTrackedPersonaPosts (w_registry w)). \<forall>msg eng.
            map_get (w_messages w) mid = Some msg \<longrightarrow> engine_for w msg = Some eng \<longrightarrow>
            map_get (w_messages w') mid = Some (refreshed d eng eh msg))
    \<and> (\<forall>k. k \<notin> snd ` set (getTrackedPersonaPosts (w_registry w)) \<longrightarrow> map_get (w_messages w') k = map_get (w_messages w) k)
    \<and> refreshPersonaFlags d w' = (0, w')"
proof -
  let ?t = "getTrackedPersonaPosts (w_registry w)"
  have f: "fold (refresh_post d) ?t (0, w) = (n, w')" using assms(1,4) by (cases "?t = []") (simp_all add: refreshPersonaFlags_def Let_def)
  note a = refresh_all [OF assms(1-3) f]
  have b': "engines_built ?t w'"
    using a assms(2) unfolding engines_built_def by (auto split: prod.splits dest!: bspec)
  have "refreshed d (the (engine_for w' msg)) eh msg = msg" if m: "(eh, mid) \<in> set ?t" "map_get (w_messages w') mid = Some msg" for eh mid msg
  proof -
    have "map_get (w_messages w') mid = map_option (\<lambda>msg. refreshed d (the (engine_for w msg)) eh msg) (map_get (w_messages w) mid)"
      using a m(1) by fast
    then obtain old where "msg = refreshed d (the (engine_for w old)) eh old" using m(2) by (cases "map_get (w_messages w) mid") auto
    then show ?thesis using a by (simp add: refreshed_frame)
  qed
  then have "fold (refresh_post d) ?t (0, w') = (0, w')" using a b' by (intro refresh_none) blast+
  then have "refreshPersonaFlags d w' = (0, w')" using a by (simp add: refreshPersonaFlags_def Let_def)
  then show ?thesis using a by fastforce
qed

definition flag_world :: "nat world" where
  "flag_world = demo_world\<lparr>w_registry := trackPersonaPost ''eh'' ''m'' registry0,
     w_messages := [(''m'', (sent_copy ''G'' (plain_out (Some ''hi'')))\<lparr>msg_personaFlagged := True\<rparr>)]\<rparr>"

theorem flags_follow_the_engine_witness:
  "\<exists>w' msg. refreshPersonaFlags (demo_deps SaveOk) flag_world = (1, w') \<and> map_get (w_messages w') ''m'' = Some msg \<and> \<not> msg_personaFlagged msg"
proof -
  let ?msg = "(sent_copy ''G'' (plain_out (Some ''hi'')))\<lparr>msg_personaFlagged := True\<rparr>"
  have en: "isPersonasEngineEnabled (w_env flag_world)" using demo_is_personas by (simp add: flag_world_def demo_world_def, code_simp)
  have t: "getTrackedPersonaPosts (w_registry flag_world) = [(''eh'', ''m'')]"
    by (simp add: flag_world_def getTrackedPersonaPosts_def trackPersonaPost_def registry0_def map_set_def)
  have m: "map_get (w_messages flag_world) ''m'' = Some ?msg" by (simp add: flag_world_def map_get_def)
  have e: "engine_for flag_world ?msg = Some 0"
    by (simp add: engine_for_def group_of_message_def conversation_of_def sent_copy_def flag_world_def demo_world_def demo_env_def
        map_get_def engine_of_def)
  have r: "refreshed (demo_deps SaveOk) 0 ''eh'' ?msg = ?msg\<lparr>msg_personaFlagged := False\<rparr>"
    by (simp add: refreshed_def sent_copy_def)
  obtain n w' where f: "refreshPersonaFlags (demo_deps SaveOk) flag_world = (n, w')"
    by (cases "refreshPersonaFlags (demo_deps SaveOk) flag_world")
  have "n = 1" using f en t refresh_post_built [OF en m e, of "demo_deps SaveOk" "''eh''" 0] r
    by (simp add: refreshPersonaFlags_def sent_copy_def)
  moreover have "map_get (w_messages w') ''m'' = Some (?msg\<lparr>msg_personaFlagged := False\<rparr>)"
    using flags_follow_the_engine [OF en _ _ f] t m e r by (simp add: engines_built_def)
  ultimately show ?thesis using f by auto
qed

end
