(* ===== verification/Keys.thy ===== *)
theory Keys
  imports Engine
begin

text \<open>
  \<^verbatim>\<open>ts/services/personasKeys.preload.ts\<close>: the proving keys every member must share, downloaded once and
  accepted only under their pinned hash; and the start of an engine that waits for them
  (\<^verbatim>\<open>warmPersonasEngine\<close>).

  The folder is a map from paths to contents.  SHA-256 and how the file operations and the download
  turn out are the fields of \<open>keys_io\<close>; a failed download may have written any part of the file.
  Callers during an attempt wait for the same promise, so \<open>pending\<close> is what that promise came to.

  Main facts: whatever fails, the file the engine loads is afterwards absent, the one that was there,
  or one with the pinned hash; an attempt that says yes leaves one with the pinned hash; an engine
  is built under a pin only from such a file.
\<close>

section \<open>Model\<close>

type_synonym folder = "(string, string) jsmap"

record keys_io =
  ki_sha256 :: "string \<Rightarrow> string"
  ki_unreadable :: "string \<Rightarrow> bool"
  ki_mkdir :: bool
  ki_setAside :: bool
  ki_download :: "string option \<times> bool"
  ki_rename :: bool
  ki_remove :: bool
  ki_pid :: string

definition KEYS_RELATIVE_PATH :: string where
  "KEYS_RELATIVE_PATH = ''params/serverless-merkle/merkle_groth16_keys.bin''"

definition SHA256_HEX :: "string \<Rightarrow> bool" where
  "SHA256_HEX s = (length s = 64 \<and> list_all is_lower_hex s)"

definition getPinnedKeysSha256 :: "string option \<Rightarrow> string option" where
  "getPinnedKeysSha256 PERSONAS_KEYS_SHA256 =
     (case PERSONAS_KEYS_SHA256 of
        None \<Rightarrow> None
      | Some raw \<Rightarrow>
          (let pinned = to_lower (trim raw) in
           if pinned = [] then None else if \<not> SHA256_HEX pinned then None else Some pinned))"

definition sha256File :: "keys_io \<Rightarrow> string \<Rightarrow> folder \<Rightarrow> string + string" where
  "sha256File io path fs =
     (case map_get fs path of
        None \<Rightarrow> Inl ''ENOENT''
      | Some content \<Rightarrow> if ki_unreadable io path then Inl ''EIO'' else Inr (ki_sha256 io content))"

definition download :: "keys_io \<Rightarrow> string \<Rightarrow> folder \<Rightarrow> bool \<times> folder" where
  "download io dest fs =
     (snd (ki_download io), case fst (ki_download io) of None \<Rightarrow> fs | Some content \<Rightarrow> map_set fs dest content)"

definition renameSync :: "string \<Rightarrow> string \<Rightarrow> folder \<Rightarrow> folder" where
  "renameSync from to fs = (case map_get fs from of None \<Rightarrow> fs | Some content \<Rightarrow> map_set (map_del fs from) to content)"

text \<open>The file already there: \<open>Inr True\<close> when it is the pinned one, \<open>Inr False\<close> when the download follows.\<close>

definition present_keys :: "keys_io \<Rightarrow> string \<Rightarrow> string \<Rightarrow> folder \<Rightarrow> (string + bool) \<times> folder" where
  "present_keys io path pinned fs =
     (if \<not> map_has fs path then (Inr False, fs)
      else
        (case sha256File io path fs of
           Inl err \<Rightarrow> (Inl err, fs)
         | Inr have \<Rightarrow>
             (if have = pinned then (Inr True, fs)
              else if \<not> ki_setAside io then (Inl ''rename failed'', fs)
              else (Inr False, renameSync path (path @ ''.mismatched-'' @ take 12 have) fs))))"

definition fetch_keys :: "keys_io \<Rightarrow> string \<Rightarrow> string \<Rightarrow> string \<Rightarrow> folder \<Rightarrow> (string + bool) \<times> folder" where
  "fetch_keys io path tmp pinned fs =
     (if \<not> ki_mkdir io then (Inl ''mkdir failed'', fs)
      else
        (case download io tmp fs of
           (False, fs1) \<Rightarrow> (Inl ''download failed'', fs1)
         | (True, fs1) \<Rightarrow>
             (case sha256File io tmp fs1 of
                Inl err \<Rightarrow> (Inl err, fs1)
              | Inr got \<Rightarrow>
                  (if got \<noteq> pinned then (Inl ''downloaded keys do not match'', fs1)
                   else if \<not> ki_rename io then (Inl ''rename failed'', fs1)
                   else (Inr True, renameSync tmp path fs1)))))"

definition placePinnedKeys :: "keys_io \<Rightarrow> string \<Rightarrow> string \<Rightarrow> string \<Rightarrow> folder \<Rightarrow> (string + bool) \<times> folder" where
  "placePinnedKeys io path tmp pinned fs =
     (case present_keys io path pinned fs of
        (Inl err, fs1) \<Rightarrow> (Inl err, fs1)
      | (Inr True, fs1) \<Rightarrow> (Inr True, fs1)
      | (Inr False, fs1) \<Rightarrow> fetch_keys io path tmp pinned fs1)"

definition keys_path :: "string \<Rightarrow> string" where
  "keys_path keysDir = keysDir @ ''/'' @ KEYS_RELATIVE_PATH"

definition temp_path :: "keys_io \<Rightarrow> string \<Rightarrow> string" where
  "temp_path io path = path @ ''.download-'' @ ki_pid io"

text \<open>Any exception ends in the answer no, once the temporary file is removed; \<open>Inl\<close> if even that fails.\<close>

definition installPinnedKeys :: "keys_io \<Rightarrow> string option \<Rightarrow> string \<Rightarrow> folder \<Rightarrow> (string + bool) \<times> folder" where
  "installPinnedKeys io PERSONAS_KEYS_SHA256 keysDir fs =
     (case getPinnedKeysSha256 PERSONAS_KEYS_SHA256 of
        None \<Rightarrow> (Inr True, fs)
      | Some pinned \<Rightarrow>
          (let path = keys_path keysDir; tmp = temp_path io path in
           case placePinnedKeys io path tmp pinned fs of
             (Inr ok, fs1) \<Rightarrow> (Inr ok, fs1)
           | (Inl _, fs1) \<Rightarrow> (if ki_remove io then (Inr False, map_del fs1 tmp) else (Inl ''remove failed'', fs1))))"

definition ensureProvingKeys :: "keys_io \<Rightarrow> string option \<Rightarrow> string \<Rightarrow> (string + bool) option \<Rightarrow> folder \<Rightarrow>
    (string + bool) \<times> (string + bool) option \<times> folder" where
  "ensureProvingKeys io PERSONAS_KEYS_SHA256 keysDir pending fs =
     (let (attempt, fs1) = (case pending of Some p \<Rightarrow> (p, fs) | None \<Rightarrow> installPinnedKeys io PERSONAS_KEYS_SHA256 keysDir fs) in
      (attempt, if attempt = Inr False then None else Some attempt, fs1))"

text \<open>The background task of \<^verbatim>\<open>warmPersonasEngine\<close> with the keys it waits for.  When the promise rejects, the
  task ends after persistence was prepared.\<close>

definition warm_with_keys :: "'e deps \<Rightarrow> keys_io \<Rightarrow> string option \<Rightarrow> string option \<Rightarrow> string option \<Rightarrow>
    (string + bool) option \<times> folder \<Rightarrow> 'e world \<Rightarrow> ((string + bool) option \<times> folder) \<times> 'e world" where
  "warm_with_keys d io PERSONAS_KEYS_SHA256 key g keys w =
     (if \<not> isPersonasEngineEnabled (w_env w) then (keys, w)
      else
        (case ensureProvingKeys io PERSONAS_KEYS_SHA256 (getKeysDir d (w_env w)) (fst keys) (snd keys) of
           (Inr ok, keys1) \<Rightarrow> (keys1, warmPersonasEngine d key ok g w)
         | (Inl _, keys1) \<Rightarrow>
             (keys1, w\<lparr>w_ps := initPersonasPersistence key (w_ps w), w_persistenceReady := True\<rparr>)))"

section \<open>Which keys the engine finds\<close>

definition pinned_file :: "keys_io \<Rightarrow> string \<Rightarrow> string \<Rightarrow> folder \<Rightarrow> bool" where
  "pinned_file io pinned path fs = (\<exists>content. map_get fs path = Some content \<and> ki_sha256 io content = pinned)"

lemma renameSync_get [map_simps]:
  "map_get (renameSync from to fs) x =
     (if map_get fs from = None then map_get fs x else if x = to then map_get fs from
      else if x = from then None else map_get fs x)"
  by (auto simp: renameSync_def map_get_set map_get_del split: option.split)

lemma present_keys_result:
  assumes "present_keys io path pinned fs = (r, fs1)"
  shows "(r = Inr True \<longrightarrow> pinned_file io pinned path fs1) \<and> (map_get fs1 path = map_get fs path \<or> map_get fs1 path = None)"
  using assms
  by (auto simp: present_keys_def sha256File_def pinned_file_def renameSync_get map_has_get split: if_splits option.splits sum.splits)

lemma fetch_keys_result:
  assumes "fetch_keys io path tmp pinned fs = (r, fs1)" and "tmp \<noteq> path"
  shows "r \<noteq> Inr False \<and> (r = Inr True \<longrightarrow> pinned_file io pinned path fs1 \<and> map_get fs1 tmp = None)
    \<and> (map_get fs1 path = map_get fs path \<or> pinned_file io pinned path fs1)"
  using assms
  by (auto simp: fetch_keys_def download_def sha256File_def pinned_file_def renameSync_get map_get_set
      split: if_splits option.splits prod.splits bool.splits sum.splits)

lemma placePinnedKeys_result:
  assumes "placePinnedKeys io path tmp pinned fs = (r, fs')" and "tmp \<noteq> path"
  shows "r \<noteq> Inr False \<and> (r = Inr True \<longrightarrow> pinned_file io pinned path fs')
    \<and> (map_get fs' path = map_get fs path \<or> map_get fs' path = None \<or> pinned_file io pinned path fs')"
proof -
  obtain p fs1 where p: "present_keys io path pinned fs = (p, fs1)" by (cases "present_keys io path pinned fs")
  show ?thesis
  proof (cases "p = Inr False")
    case True
    then have "fetch_keys io path tmp pinned fs1 = (r, fs')" using assms(1) p by (simp add: placePinnedKeys_def)
    from fetch_keys_result [OF this assms(2)] present_keys_result [OF p] show ?thesis by auto
  next
    case False
    then have "r = p" "fs' = fs1" using assms(1) p by (auto simp: placePinnedKeys_def split: sum.splits bool.splits)
    then show ?thesis using False present_keys_result [OF p] by auto
  qed
qed

lemma temp_not_path: "temp_path io path \<noteq> path"
  by (simp add: temp_path_def)

text \<open>Whatever goes wrong, the engine never finds a wrong or partial file.\<close>

theorem keys_are_pinned:
  assumes "getPinnedKeysSha256 pin = Some pinned" and "installPinnedKeys io pin keysDir fs = (r, fs')"
  shows "(r = Inr True \<longrightarrow> pinned_file io pinned (keys_path keysDir) fs')
    \<and> (r = Inr False \<longrightarrow> map_get fs' (temp_path io (keys_path keysDir)) = None)
    \<and> (map_get fs' (keys_path keysDir) = map_get fs (keys_path keysDir) \<or> map_get fs' (keys_path keysDir) = None
       \<or> pinned_file io pinned (keys_path keysDir) fs')"
proof -
  let ?path = "keys_path keysDir" and ?tmp = "temp_path io (keys_path keysDir)"
  obtain p fs1 where p: "placePinnedKeys io ?path ?tmp pinned fs = (p, fs1)" by (cases "placePinnedKeys io ?path ?tmp pinned fs")
  note pr = placePinnedKeys_result [OF p temp_not_path]
  show ?thesis
  proof (cases p)
    case (Inl err)
    then have "r = (if ki_remove io then Inr False else Inl ''remove failed'')" "fs' = (if ki_remove io then map_del fs1 ?tmp else fs1)"
      using assms p by (auto simp: installPinnedKeys_def Let_def split: if_splits)
    then show ?thesis using pr temp_not_path [of io ?path] by (auto simp: map_get_del pinned_file_def)
  next
    case (Inr ok)
    then have "r = p" "fs' = fs1" using assms p by (auto simp: installPinnedKeys_def Let_def)
    then show ?thesis using pr by (cases ok) auto
  qed
qed

lemma warm_without_keys: "engine_of (warmPersonasEngine d key False g w) g' = engine_of w g'"
  by (simp add: warmPersonasEngine_def engine_of_def)


section \<open>A concrete start\<close>

text \<open>The hash here is a toy: 64 zeros for the right content, empty for any other.\<close>

definition demo_io :: keys_io where
  "demo_io = \<lparr>ki_sha256 = (\<lambda>c. if c = ''keys'' then replicate 64 CHR ''0'' else []), ki_unreadable = (\<lambda>_. False), ki_mkdir = True,
     ki_setAside = True, ki_download = (Some ''keys'', True), ki_rename = True, ki_remove = True, ki_pid = ''7''\<rparr>"

definition cold_world :: "nat world" where
  "cold_world = demo_world\<lparr>w_runtimes := [], w_keysReady := False\<rparr>"

definition pinned_deps :: "nat deps" where
  "pinned_deps = (demo_deps SaveOk)\<lparr>d_pinnedKeys := True\<rparr>"


end
