(* ===== verification/Spec2Isabelle.thy ===== *)
theory Spec2Isabelle
  imports Flags Keys
begin

text \<open>
  Verification of the personas layer of Signal Desktop (TypeScript).  Paths below are under
  \<^verbatim>\<open>src/Signal-Desktop-Persona-main/\<close>.

  \<^bold>\<open>The program.\<close>  In a group with personas turned on, members post, rate, vote and ban under
  zero-knowledge personas.  A native engine (the addon \<^verbatim>\<open>@signalapp/personas-engine\<close>), one per
  group, proves and checks records; the TypeScript services around it carry records in ordinary
  messages, send them under an identity all members share (the phantom), keep the member's state on
  disk, and rewrite what the timeline shows.  A post goes: composer (\<open>sendMultiMediaMessage\<close>), join and
  scans (\<open>ensurePersonaJoined\<close>, \<open>drainPersonaScans\<close>), engine and disk (\<open>composePersonaPost\<close>), wire body
  (\<open>enqueue\<close>, \<open>wire_body\<close>), sending identity (\<open>encryptForSenderKey\<close>), and at the other end certificate
  check (\<open>check_certificate\<close>), receive seam (\<open>handleDataMessage\<close>), engine (\<open>ingestRecordForTimeline\<close>),
  and later the flag loop (\<open>refreshPersonaFlags\<close>).

  \<^bold>\<open>Theories.\<close>  Each definition carries the name of the function, type or constant it models; helpers in
  lower case with underscores are loop bodies or stretches of a function.
  \<^item> \<open>JsPrelude\<close>, \<open>JsText\<close>, \<open>JsBase64\<close>, \<open>JsJson\<close>: the parts of JavaScript the code uses (maps in insertion
    order, string methods, numbers, base64, JSON), with their round trips.
  \<^item> \<open>Carriage\<close>: \<^verbatim>\<open>ts/services/personasCarriage.std.ts\<close>, every encoder and decoder, as
    interpretations of the locale \<open>marked_codec\<close>.
  \<^item> \<open>Phantom\<close>, \<open>PhantomSend\<close>: \<^verbatim>\<open>personasPhantom.preload.ts\<close>, \<^verbatim>\<open>personasPhantomCert.std.ts\<close>: bundles
    held, minted, adopted, pending, stored, and handed to members; the sender-key chain.
  \<^item> \<open>Registry\<close>, \<open>Barrier\<close>: \<^verbatim>\<open>personasRegistry.std.ts\<close>, \<^verbatim>\<open>personasBarrier.preload.ts\<close>: when a record counts.
  \<^item> \<open>Composer\<close>, \<open>BadgeRules\<close>: the composer's choice, badge labels and rules, bodiless messages.
  \<^item> \<open>Persistence\<close>, \<open>Topics\<close>, \<open>Pseudonyms\<close>, \<open>Extras\<close>: \<^verbatim>\<open>personasPersistence.preload.ts\<close> and the lists
    saved with a member, as interpretations of the locale \<open>persisted_extra\<close>.
  \<^item> \<open>World\<close>: the record \<open>world\<close> of all module variables, the parameters \<open>deps\<close> and \<open>engine_ops\<close>, and
    the send path (\<^verbatim>\<open>enqueueMessageForSend\<close> in \<^verbatim>\<open>ts/models/conversations.preload.ts\<close>, the wire body
    in \<^verbatim>\<open>ts/jobs/helpers/sendNormalMessage.preload.ts\<close>).
  \<^item> \<open>Engine\<close>, \<open>Keys\<close>: \<^verbatim>\<open>personasEngine.preload.ts\<close>, \<^verbatim>\<open>personasKeys.preload.ts\<close>.
  \<^item> \<open>CatchUp\<close>: \<^verbatim>\<open>personasCatchUp.preload.ts\<close>, both sides.
  \<^item> \<open>Frames\<close>: what engine and catch-up leave alone, as locales over a part of the world.
  \<^item> \<open>Membership\<close>: \<^verbatim>\<open>personasMembership.preload.ts\<close>, \<^verbatim>\<open>personasSealedSender.preload.ts\<close>.
  \<^item> \<open>Actions\<close>: \<^verbatim>\<open>personasActions.preload.ts\<close>, ratings, polls, votes, bans, reactions and scans.
  \<^item> \<open>Reset\<close>: \<^verbatim>\<open>personasReset.preload.ts\<close>, and who may send which record.
  \<^item> \<open>BadgeFlow\<close>: \<^verbatim>\<open>personasBadgeFlow\<close>, \<^verbatim>\<open>BadgeState\<close>, \<^verbatim>\<open>BadgeProof\<close>, \<^verbatim>\<open>Authorship\<close>.
  \<^item> \<open>SendPath\<close>: the persona part of \<^verbatim>\<open>ts/state/ducks/composer.preload.ts\<close>, the routing in
    \<^verbatim>\<open>ts/util/sendToGroup.preload.ts\<close>, the certificate check of \<^verbatim>\<open>MessageReceiver.preload.ts\<close>.
  \<^item> \<open>Receive\<close>: \<^verbatim>\<open>ts/messages/handleDataMessage.preload.ts\<close>, its personas parts.
  \<^item> \<open>Flags\<close>: \<^verbatim>\<open>personasFlags.preload.ts\<close>.

  \<^bold>\<open>State and effects.\<close>  A function that changes module variables takes and returns the \<open>world\<close>;
  \<open>Inl\<close> is an exception that leaves the function.  The engine is abstract: \<open>engine_ops\<close> has one field per
  method of its interface, and a theorem that relies on its behaviour says so in its hypotheses.
  Sends, files, clocks, hashes and ciphers are parameters too; the outcome of the n-th use of one is
  looked up at \<open>w_step\<close>.  Where other code can run between two awaits and it matters, a function is
  split there (\<open>mint_begin\<close> and \<open>mint_finish\<close>, \<open>join_enter\<close> and \<open>join_run\<close>) and theorems quantify over
  interleavings (\<open>join_events\<close>, \<open>awaiting\<close>).

  \<^bold>\<open>What is shown.\<close>  Anonymity: which bodies ride the phantom, that persona content never falls back to
  the real account once a bundle is held, that members with one bundle are indistinguishable, that
  bundles come only from fellow members, the first one stays, and everyone holds the same.  Agreement:
  sender and recipients place a record at the same time, topics converge, a history arrives whole in
  any order.  Durability: state is on disk before a record is released, a failed save releases nothing,
  no older state is restored.  Authority: joins, approvals, bans, copies and proofs count only from
  whom they may come.  Progress: sweeps end, an accepted post appears as it was written
  (\<open>post_reaches_the_timeline\<close> below, from one composer to another timeline).  Beside these, each codec
  has its round trip and each persisted list its restart.

  \<^bold>\<open>Bounds and fuel.\<close>  The JSON parser has fuel \<open>2 * length + 1\<close>, which always suffices
  (\<open>json_fuel_enough\<close>).  The loops of the program that are bounded keep the program's own bounds: three
  scan attempts, at most 40 rounds of a sweep or a drain.  Numbers are exact; no arithmetic
  of the program comes near the limits of a double.

  \<^bold>\<open>Not modelled.\<close>  The Rust engine behind the addon (a parameter); the status panel, the experiment
  log, display texts and React components (they read the state and change none); the unused proof
  queue; the demo roster and account registration (network and files); and the rest of Signal
  Desktop, of which the model takes conversations, the message cache and the send queue as given.
\<close>

section \<open>From one composer to another timeline\<close>

text \<open>What the members rely on of the addon: the record of a post, given to another replica that can
  apply it, is logged there as that post, whatever the time it is placed at.\<close>

definition shows_post :: "'e deps \<Rightarrow> 'e \<Rightarrow> string \<Rightarrow> string option \<Rightarrow> string \<Rightarrow> bool" where
  "shows_post d eng rec author body =
     (eo_recordAccountClaim (d_engine d) eng rec = None
      \<and> (\<forall>t. \<exists>eh eng1. eh \<noteq> [] \<and> eo_ingest (d_engine d) rec t eng = (Inr \<lparr>is_status = Applied, is_eh = eh\<rparr>, eng1)
           \<and> eo_logEntry (d_engine d) (snd (eo_takeRelays (d_engine d) eng1)) eh
             = Some \<lparr>le_eh = eh, le_kind = ''Post'', le_author = author, le_body = body, le_flagged = False\<rparr>))"

lemma post_is_nothing_else:
  "decodePhantomBundle (Some (encodePostBody r b n)) = None" "decodeAuthorshipProof (Some (encodePostBody r b n)) = None"
  "decodeBadgeProof (Some (encodePostBody r b n)) = None" "decodeTopicAnnouncement (Some (encodePostBody r b n)) = None"
  "\<not> isCatchUpRequest (Some (encodePostBody r b n))" "decodeCatchUpPart (Some (encodePostBody r b n)) = None"
  "decodeResetRequest (Some (encodePostBody r b n)) = None" "decodeRelayBody (Some (encodePostBody r b n)) = None"
  "decodePollDescriptor (Some (encodePostBody r b n)) = None"
proof -
  obtain s where s: "encodePostBody r b n = PERSONAS_POST_MARKER @ s" using encodePostBody_marked by blast
  show "decodePhantomBundle (Some (encodePostBody r b n)) = None" "decodeAuthorshipProof (Some (encodePostBody r b n)) = None"
    "decodeBadgeProof (Some (encodePostBody r b n)) = None" "decodeTopicAnnouncement (Some (encodePostBody r b n)) = None"
    "\<not> isCatchUpRequest (Some (encodePostBody r b n))" "decodeCatchUpPart (Some (encodePostBody r b n)) = None"
    "decodeResetRequest (Some (encodePostBody r b n)) = None" "decodeRelayBody (Some (encodePostBody r b n)) = None"
    "decodePollDescriptor (Some (encodePostBody r b n)) = None"
    by (simp_all add: s decoder_defs decodeRelayBody_def decodePollDescriptor_def starts_with_def marker_defs)
qed

lemma post_taken_in:
  assumes body: "in_body m = Some (encodePostBody rec badge name)" and dec: "decodeRecordBody (in_body m) = Some rec"
    and eng: "engine_built g eng w" and g: "cv_groupId c = Some g" and post: "shows_post d eng rec author said"
  shows "\<exists>eh w'. eh \<noteq> [] \<and> take_record d c m w = (Some (PostResult eh author said False False), w')"
proof -
  let ?ts = "recordTimestamp (in_sentAt m) (in_serverTimestamp m)"
  have e: "getPersonasEngine d (Some g) w = (Some eng, w)" by (rule built_engine [OF eng])
  have p: "recordSenderProblem d (in_body m) (in_sourceServiceId m) c w = (None, w)"
    using post e dec by (simp add: recordSenderProblem_def g shows_post_def Let_def)
  let ?at = "ingestTimestampFor (w_phantom w) (env_now (w_env w)) (Some g) (Some ?ts)"
  obtain eh eng1 where i: "eo_ingest (d_engine d) rec ?at eng = (Inr \<lparr>is_status = Applied, is_eh = eh\<rparr>, eng1)"
      "eo_logEntry (d_engine d) (snd (eo_takeRelays (d_engine d) eng1)) eh
        = Some \<lparr>le_eh = eh, le_kind = ''Post'', le_author = author, le_body = said, le_flagged = False\<rparr>" "eh \<noteq> []"
    using post unfolding shows_post_def by blast
  have h: "map_has (w_runtimes w) g" using eng by (auto simp: engine_built_def engine_of_def map_has_get bind_eq_Some_conv)
  have h1: "map_has (w_runtimes (put_engine g eng1 w)) g"
    using h by (auto simp: put_engine_def map_has_get map_get_set split: option.splits)
  have "ingestRecordForTimeline d (Some g) (in_body m) ?ts w
      = (PostResult eh author said False False, relayAndCheckViews d g eng1 (put_engine g eng1 w))"
    using e i dec relayAndCheckViews_engine [OF h1, of d eng1]
    by (simp add: ingestRecordForTimeline_def body post_is_nothing_else describe_def Let_def)
  then show ?thesis using p dec i(3) by (simp add: take_record_def g Let_def)
qed

text \<open>C7. A post reaches the other members' timelines as it was written: when the composer sends a text
  under a persona, a member of the group who receives the body that went out, and whose engine shows
  a record emitted for that text as its author's post, stores a message with that very text, under
  that author and no account name, and follows its flag from then on.\<close>

theorem post_reaches_the_timeline:
  assumes sent: "sendMultiMediaMessage d c to options w = (Sent ok, w')"
    and choice: "so_personaChoice options = Some choice" "so_message options = Some said" "said \<noteq> []" "\<not> so_isViewOnce options"
    and binary: "\<forall>req eng em eng'. eo_emit (d_engine d) req eng = (Inr em, eng') \<longrightarrow> em_bytes em \<noteq> [] \<and> json_parse (em_bytes em) = None"
    and wire: "in_body m = sm_wire (last_sent w')" "in_id m \<noteq> []"
    and member: "cv_groupId c1 = Some g" "engine_built g eng1 w1" "isPersonasGroup (w_phantom w1) (Some c1)"
    and agree: "\<forall>eng em eng'. eo_emit (d_engine d) (post_request said choice) eng = (Inr em, eng') \<longrightarrow> shows_post d1 eng1 (em_bytes em) author said"
  shows "\<exists>msg w1' eh. handleDataMessage d1 copyId True c1 m w1 = (Kept msg, w1') \<and> map_get (w_messages w1') (in_id m) = Some msg
    \<and> msg_body msg = Some said \<and> msg_persona msg = author \<and> msg_personaAnonymous msg = (author = None)
    \<and> \<not> msg_personaFlagged msg \<and> \<not> msg_personaPending msg
    \<and> msg_personaEh msg = Some eh \<and> map_get (getTrackedPersonaPosts (w_registry w1')) eh = Some (in_id m)"
proof -
  have ne: "\<forall>req eng em eng'. eo_emit (d_engine d) req eng = (Inr em, eng') \<longrightarrow> em_bytes em \<noteq> []" using binary by blast
  obtain eng em eng' badge name where e: "eo_emit (d_engine d) (post_request said choice) eng = (Inr em, eng')"
      "in_body m = Some (encodePostBody (em_bytes em) badge name)"
    using persona_send_wire [OF sent choice ne] wire(1) by metis
  have "json_parse (em_bytes em) = None" using binary e(1) by blast
  then have dec: "decodeRecordBody (in_body m) = Some (em_bytes em)"
    unfolding e(2) by (intro decode_post) (simp add: post_unambiguous_def)
  obtain eh v where t: "take_record d1 c1 m w1 = (Some (PostResult eh author said False False), v)" "eh \<noteq> []"
    using post_taken_in [OF e(2) dec member(2,1)] agree e(1) by blast
  have "dispatch d1 copyId c1 m w1 = (Inr \<lparr>st_authorship = None, st_badgeProof = None, st_record = PostResult eh author said False False\<rparr>, v)"
    using t(1) member(3)
    by (simp add: dispatch_def e(2) post_is_nothing_else topic_announcement_def coordination_def)
  then show ?thesis using t(2) wire(2)
    by (simp add: handleDataMessage_def stamp_message_def data_message_def map_get_set trackPersonaPost_def getTrackedPersonaPosts_def Let_def)
qed

theorem post_reaches_the_timeline_witness:
  "\<exists>w' msg w1'. sendMultiMediaMessage (demo_deps SaveOk) demo_conversation ''G'' demo_options joined_world = (Sent True, w')
     \<and> handleDataMessage (demo_deps SaveOk) ''copy'' True demo_conversation ((demo_incoming [])\<lparr>in_body := sm_wire (last_sent w')\<rparr>) demo_world = (Kept msg, w1')
     \<and> msg_body msg = Some ''hi''"
proof -
  let ?d = "demo_deps SaveOk"
  obtain w' where w': "sendMultiMediaMessage ?d demo_conversation ''G'' demo_options joined_world = (Sent True, w')"
    using demo_post by blast
  let ?m = "(demo_incoming [])\<lparr>in_body := sm_wire (last_sent w')\<rparr>"
  have o: "so_personaChoice demo_options = Some AnonChoice" "so_message demo_options = Some ''hi''" "''hi'' \<noteq> []" "\<not> so_isViewOnce demo_options"
    by simp_all
  have j: "json_parse ''rec'' = None" by code_simp
  have b: "\<forall>req eng em eng'. eo_emit (d_engine ?d) req eng = (Inr em, eng') \<longrightarrow> em_bytes em \<noteq> [] \<and> json_parse (em_bytes em) = None"
    using j by auto
  have m: "in_body ?m = sm_wire (last_sent w')" "in_id ?m \<noteq> []" by (simp_all add: demo_incoming_def)
  have "isPersonasEngineEnabled (w_env demo_world)" by code_simp
  then have e: "engine_built ''G'' 0 demo_world" by (simp add: engine_built_def engine_of_def demo_world_def map_get_def)
  have "eo_recordAccountClaim demo_ops 0 ''rec'' = None" by (simp add: demo_ops_def)
  then have a: "\<forall>eng em eng'. eo_emit (d_engine ?d) (post_request ''hi'' AnonChoice) eng = (Inr em, eng') \<longrightarrow> shows_post ?d 0 (em_bytes em) None ''hi''"
    by (auto simp: shows_post_def)
  from post_reaches_the_timeline [OF w' o b m demo_conversation_group(1) e demo_is_personas a, of "''copy''"] w'
  show ?thesis by blast
qed

end
